(* ===== verification/Prelude.thy ===== *)
theory Prelude
  imports Main "HOL-Library.Word" "HOL-Library.AList" "HOL-Library.Sublist"
begin

text \<open>
  Shared vocabulary of the development: bytes and strings, the Python exceptions the
  kernel distinguishes, the result type \<open>exc + 'a\<close> with its combinators, and the generic
  lemmas and interface locales the component theories build on.

  A Python \<open>str\<close> is a \<open>string\<close> holding the UTF-8 bytes of the text; a Python
  \<open>bytes\<close> value is a list of 8-bit words.  A raise is a value \<open>Inl e\<close>.
\<close>

section \<open>Bytes, strings and exceptions\<close>

type_synonym byte = "8 word"
type_synonym bytes = "byte list"

text \<open>The byte with a given value.\<close>

definition byte_of :: "nat \<Rightarrow> byte" where
  "byte_of n = of_nat n"

lemma unat_byte_of [simp]: "n < 256 \<Longrightarrow> unat (byte_of n) = n"
  by (simp add: byte_of_def unat_of_nat take_bit_eq_mod)

lemma byte_of_unat [simp]: "byte_of (unat b) = b"
  by (simp add: byte_of_def)

lemma unat_byte_lt [simp]: "unat (b :: byte) < 256"
  using unsigned_less [of b, where ?'a = nat] by simp

lemma byte_of_inject: "m < 256 \<Longrightarrow> n < 256 \<Longrightarrow> byte_of m = byte_of n \<longleftrightarrow> m = n"
  by (metis unat_byte_of)

text \<open>
  The exceptions the kernel raises or catches by class.  \<open>MalformedRsaError\<close> is the
  kernel's own class (\<open>rsa_pss.py\<close>), with the reason its message states;
  \<open>LibraryError\<close> is any exception of a package outside the repository, with its text.
\<close>

datatype exc =
    TypeError
  | ValueError
  | AttributeError
  | IndexError
  | BinasciiError
  | KeyError
  | CanonicalDepthError
  | LibraryError string
  | MalformedRsaError rsa_reason
and rsa_reason =
    SignatureNotString
  | OddLengthHex
  | NonHexCharacters
  | NonBase64Url
  | InvalidBase64Length
  | NotRsaJwk
  | InSignatureHex rsa_reason
  | InPublicKey exc

text \<open>\<open>except MalformedRsaError\<close> catches exactly this class.\<close>

fun is_malformed_rsa :: "exc \<Rightarrow> bool" where
  "is_malformed_rsa (MalformedRsaError r) = True"
| "is_malformed_rsa e = False"

section \<open>Results\<close>

named_theorems result_simps \<open>rewrite rules that invert a computation that returned\<close>

definition ebind :: "exc + 'a \<Rightarrow> ('a \<Rightarrow> exc + 'b) \<Rightarrow> exc + 'b" where
  "ebind m f = (case m of Inl e \<Rightarrow> Inl e | Inr x \<Rightarrow> f x)"

lemma ebind_simps [simp]:
  "ebind (Inl e) f = Inl e"
  "ebind (Inr x) f = f x"
  by (simp_all add: ebind_def)

lemma ebind_Inr_iff [result_simps]:
  "ebind m f = Inr y \<longleftrightarrow> (\<exists>x. m = Inr x \<and> f x = Inr y)"
  by (cases m) auto

lemma ebind_Inl_iff:
  "ebind m f = Inl e \<longleftrightarrow> m = Inl e \<or> (\<exists>x. m = Inr x \<and> f x = Inl e)"
  by (cases m) auto

lemma map_sum_Inr_iff [result_simps]:
  "map_sum f g m = Inr y \<longleftrightarrow> (\<exists>x. m = Inr x \<and> y = g x)"
  by (cases m) auto

lemma case_sum_Inr_iff [result_simps]:
  "(case m of Inl e \<Rightarrow> Inl e | Inr x \<Rightarrow> f x) = Inr y \<longleftrightarrow> (\<exists>x. m = Inr x \<and> f x = Inr y)"
  by (cases m) auto

lemma if_Inl_Inr_iff [result_simps]:
  "(if b then Inl e else m) = Inr y \<longleftrightarrow> \<not> b \<and> m = Inr y"
  "(if b then m else Inl e) = Inr y \<longleftrightarrow> b \<and> m = Inr y"
  by auto

text \<open>A list comprehension whose element expression may raise: left to right, first raise wins.\<close>

fun emap :: "('a \<Rightarrow> exc + 'b) \<Rightarrow> 'a list \<Rightarrow> exc + 'b list" where
  "emap f [] = Inr []"
| "emap f (x # xs) = ebind (f x) (\<lambda>y. ebind (emap f xs) (\<lambda>ys. Inr (y # ys)))"

lemma emap_Inr_iff [result_simps]:
  "emap f xs = Inr ys \<longleftrightarrow> list_all2 (\<lambda>x y. f x = Inr y) xs ys"
  by (induction xs arbitrary: ys) (auto simp: list_all2_Cons1 result_simps)

lemma emap_map_Inr: "(\<And>x. x \<in> set xs \<Longrightarrow> f (g x) = Inr x) \<Longrightarrow> emap f (map g xs) = Inr xs"
  by (induction xs) auto

lemma emap_Inl: "emap f xs = Inl e \<Longrightarrow> \<exists>x \<in> set xs. f x = Inl e"
  by (induction xs) (auto simp: ebind_Inl_iff)

section \<open>Strings\<close>

definition is_digit :: "char \<Rightarrow> bool" where
  "is_digit c \<longleftrightarrow> c \<in> set ''0123456789''"

text \<open>\<open>s.startswith(p)\<close>.\<close>

definition starts_with :: "string \<Rightarrow> string \<Rightarrow> bool" where
  "starts_with p s \<longleftrightarrow> take (length p) s = p"

lemma starts_with_iff: "starts_with p s \<longleftrightarrow> (\<exists>t. s = p @ t)"
  by (metis append_eq_conv_conj append_take_drop_id starts_with_def)

lemma starts_with_append [simp]: "starts_with p (p @ t)"
  by (simp add: starts_with_def)

text \<open>\<open>s.lower()\<close>, on the ASCII letters.\<close>

definition lower_char :: "char \<Rightarrow> char" where
  "lower_char c = (let n = (of_char c :: nat) in if 65 \<le> n \<and> n \<le> 90 then char_of (n + 32) else c)"

definition lower :: "string \<Rightarrow> string" where
  "lower s = map lower_char s"

lemma length_lower [simp]: "length (lower s) = length s"
  by (simp add: lower_def)

lemma lower_char_idem [simp]: "lower_char (lower_char c) = lower_char c"
  by (auto simp: lower_char_def Let_def)

lemma lower_idem [simp]: "lower (lower s) = lower s"
  by (simp add: lower_def)

text \<open>\<open>m in s\<close> for strings: substring containment.\<close>

definition occurs_in :: "string \<Rightarrow> string \<Rightarrow> bool" where
  "occurs_in m s \<longleftrightarrow> sublist m s"

lemma occurs_in_append [simp]: "occurs_in m (a @ m @ b)"
  by (simp add: occurs_in_def)

section \<open>Interfaces shared by several components\<close>

text \<open>
  A codec: what is encoded decodes to itself.  The hexadecimal and base64url codecs of the
  kernel are its instances; the clients (signatures, keys, addresses, Merkle paths) use
  that an encoding determines its bytes.
\<close>

locale codec =
  fixes enc :: "'a \<Rightarrow> string"
    and dec :: "string \<Rightarrow> exc + 'a"
  assumes dec_enc: "dec (enc x) = Inr x"
begin

lemma enc_inject: "enc x = enc y \<longleftrightarrow> x = y"
  by (metis dec_enc sum.inject(2))

lemma dec_eq_enc: "s = enc x \<Longrightarrow> dec s = Inr y \<Longrightarrow> y = x"
  by (simp add: dec_enc)

lemma emap_dec_enc: "emap dec (map enc xs) = Inr xs"
  by (rule emap_map_Inr) (rule dec_enc)

end

text \<open>A codec whose decoder accepts nothing but (re-spelt) encodings.\<close>

locale canonical_codec = codec enc dec
  for enc :: "'a \<Rightarrow> string" and dec :: "string \<Rightarrow> exc + 'a" +
  fixes norm :: "string \<Rightarrow> string"
  assumes enc_dec: "dec s = Inr x \<Longrightarrow> enc x = norm s"
begin

lemma dec_determines_norm: "dec s = Inr x \<Longrightarrow> dec t = Inr x \<Longrightarrow> norm s = norm t"
  using enc_dec by metis

lemma dec_norm: "dec s = Inr x \<Longrightarrow> dec (norm s) = Inr x"
  using enc_dec dec_enc by metis

end

text \<open>A key-value store: a read after a write.\<close>

locale kv_store =
  fixes get :: "'s \<Rightarrow> 'k \<Rightarrow> 'v option"
    and put :: "'k \<Rightarrow> 'v \<Rightarrow> 's \<Rightarrow> 's"
  assumes get_put_same: "get (put k v s) k = Some v"
    and get_put_other: "k \<noteq> k' \<Longrightarrow> get (put k v s) k' = get s k'"
begin

lemma get_put: "get (put k v s) k' = (if k = k' then Some v else get s k')"
  by (simp add: get_put_same get_put_other)

lemma put_keeps_defined: "get s k' \<noteq> None \<Longrightarrow> get (put k v s) k' \<noteq> None"
  by (simp add: get_put)

end

end
