(* ===== verification/Py_Json.thy ===== *)
theory Py_Json
  imports Prelude
begin

text \<open>
  The values \<open>json.loads\<close> produces, which are what every verifier of the kernel receives, and
  the Python operations the kernel applies to them: \<open>dict.get\<close>, item assignment,
  \<open>setdefault\<close>, \<open>isinstance\<close> tests, truth values, iteration and number comparisons.  A
  dict is the list of its items in insertion order; a float is the 64 bits of its IEEE 754
  representation.
\<close>

section \<open>Values\<close>

datatype json =
    JNull
  | JBool bool
  | JInt int
  | JFloat "64 word"
  | JStr string
  | JList "json list"
  | JDict "(string \<times> json) list"

type_synonym items = "(string \<times> json) list"

fun is_dict :: "json \<Rightarrow> bool" where
  "is_dict (JDict d) = True"
| "is_dict v = False"

fun is_list :: "json \<Rightarrow> bool" where
  "is_list (JList xs) = True"
| "is_list v = False"

fun is_str :: "json \<Rightarrow> bool" where
  "is_str (JStr s) = True"
| "is_str v = False"

lemma is_dict_iff: "is_dict v \<longleftrightarrow> (\<exists>d. v = JDict d)" by (cases v) auto
lemma is_list_iff: "is_list v \<longleftrightarrow> (\<exists>xs. v = JList xs)" by (cases v) auto
lemma is_str_iff: "is_str v \<longleftrightarrow> (\<exists>s. v = JStr s)" by (cases v) auto

section \<open>Dictionaries\<close>

text \<open>
  \<open>d.get(k)\<close> is \<open>None\<close> both for an absent key and for a key whose value is \<open>null\<close>;
  \<open>k in d\<close> tells them apart.  On a value that is no dict the attribute lookup fails.
\<close>

definition dget :: "items \<Rightarrow> string \<Rightarrow> json" where
  "dget d k = (case map_of d k of None \<Rightarrow> JNull | Some v \<Rightarrow> v)"

definition has_key :: "string \<Rightarrow> items \<Rightarrow> bool" where
  "has_key k d \<longleftrightarrow> map_of d k \<noteq> None"

definition dget_default :: "items \<Rightarrow> string \<Rightarrow> json \<Rightarrow> json" where
  "dget_default d k v0 = (case map_of d k of None \<Rightarrow> v0 | Some v \<Rightarrow> v)"

fun py_get :: "json \<Rightarrow> string \<Rightarrow> exc + json" where
  "py_get (JDict d) k = Inr (dget d k)"
| "py_get v k = Inl AttributeError"

text \<open>\<open>d[k] = v\<close> keeps the place of an existing key and appends a new one.\<close>

definition dput :: "string \<Rightarrow> json \<Rightarrow> items \<Rightarrow> items" where
  "dput k v d = AList.update k v d"

text \<open>\<open>d.setdefault(k, v)\<close>: the dict afterwards; the value returned is \<open>dget\<close> of it.\<close>

definition dsetdefault :: "string \<Rightarrow> json \<Rightarrow> items \<Rightarrow> items" where
  "dsetdefault k v d = (if has_key k d then d else dput k v d)"

interpretation dict: kv_store map_of dput
  by unfold_locales (simp_all add: dput_def AList.update_conv')

lemma map_of_dput: "map_of (dput k v d) k' = (if k = k' then Some v else map_of d k')"
  by (rule dict.get_put)

lemma dget_dput [simp]: "dget (dput k v d) k' = (if k = k' then v else dget d k')"
  by (simp add: dget_def map_of_dput)

lemma has_key_dput [simp]: "has_key k' (dput k v d) \<longleftrightarrow> k' = k \<or> has_key k' d"
  by (auto simp: has_key_def map_of_dput)

lemma dput_new: "\<not> has_key k d \<Longrightarrow> dput k v d = d @ [(k, v)]"
  by (induction d) (auto simp: dput_def has_key_def split: if_splits)

lemma dget_simps:
  "dget [] k = JNull"
  "dget ((k, v) # d) k' = (if k = k' then v else dget d k')"
  by (simp_all add: dget_def)

lemma dget_not_key [simp]: "\<not> has_key k d \<Longrightarrow> dget d k = JNull"
  by (simp add: dget_def has_key_def)

lemma dget_in: "dget d k \<noteq> JNull \<Longrightarrow> (k, dget d k) \<in> set d"
  by (auto simp: dget_def dest: map_of_SomeD split: option.splits)

lemma dget_has_key: "dget d k \<noteq> JNull \<Longrightarrow> has_key k d"
  by (auto simp: dget_def has_key_def split: option.splits)

lemma dget_filter [simp]:
  "dget (filter (\<lambda>(k, v). P k) d) k = (if P k then dget d k else JNull)"
  by (induction d) (auto simp: dget_def split: if_splits)

lemma map_of_filter_key: "map_of (filter (\<lambda>(k, v). P k) d) k = (if P k then map_of d k else None)"
  by (induction d) auto

lemma filter_dput_out: "\<not> P k \<Longrightarrow> filter (\<lambda>(k, v). P k) (dput k v d) = filter (\<lambda>(k, v). P k) d"
  by (induction d) (auto simp: dput_def)

text \<open>A value read from a dict is smaller than the dict: the recursion over nested bundles ends.\<close>

lemma size_dget: "dget d k \<noteq> JNull \<Longrightarrow> size (dget d k) < size (JDict d)"
proof -
  assume "dget d k \<noteq> JNull"
  then have "(k, dget d k) \<in> set d" by (rule dget_in)
  then have "size_prod (\<lambda>_. 0) size (k, dget d k) \<le> size_list (size_prod (\<lambda>_. 0) size) d"
    by (rule size_list_estimation') simp
  then show ?thesis by simp
qed

section \<open>Numbers\<close>

text \<open>
  A finite double is \<open>m * 2 ^ e\<close>.  Python compares an int with a float exactly, by value; a
  comparison with a NaN is false.  \<open>bool\<close> is a subclass of \<open>int\<close>.
\<close>

datatype flt = Finite int int | Infinite bool | NotANumber

definition float_class :: "64 word \<Rightarrow> flt" where
  "float_class w =
     (let n = unat w;
          neg = 2 ^ 63 \<le> n;
          ex = n div 2 ^ 52 mod 2048;
          man = int (n mod 2 ^ 52);
          sg = (\<lambda>m :: int. if neg then - m else m)
      in if ex = 2047 then (if man = 0 then Infinite neg else NotANumber)
         else if ex = 0 then Finite (sg man) (- 1074)
         else Finite (sg (man + 2 ^ 52)) (int ex - 1075))"

datatype num = NInt int | NFloat flt

fun num_of :: "json \<Rightarrow> num option" where
  "num_of (JBool b) = Some (NInt (if b then 1 else 0))"
| "num_of (JInt i) = Some (NInt i)"
| "num_of (JFloat w) = Some (NFloat (float_class w))"
| "num_of v = None"

text \<open>\<open>m * 2 ^ e\<close> against \<open>i\<close>, both scaled to integers.\<close>

definition scaled :: "int \<Rightarrow> int \<Rightarrow> int \<Rightarrow> int \<times> int" where
  "scaled m e i = (if 0 \<le> e then (m * 2 ^ nat e, i) else (m, i * 2 ^ nat (- e)))"

definition align :: "int \<Rightarrow> int \<Rightarrow> int \<Rightarrow> int \<Rightarrow> int \<times> int" where
  "align m e m' e' =
     (let lo = min e e' in (m * 2 ^ nat (e - lo), m' * 2 ^ nat (e' - lo)))"

fun num_less :: "num \<Rightarrow> num \<Rightarrow> bool" where
  "num_less (NInt i) (NInt j) = (i < j)"
| "num_less (NInt i) (NFloat (Finite m e)) = (case scaled m e i of (x, y) \<Rightarrow> y < x)"
| "num_less (NFloat (Finite m e)) (NInt i) = (case scaled m e i of (x, y) \<Rightarrow> x < y)"
| "num_less (NFloat (Finite m e)) (NFloat (Finite m' e')) = (case align m e m' e' of (x, y) \<Rightarrow> x < y)"
| "num_less (NInt i) (NFloat (Infinite neg)) = (\<not> neg)"
| "num_less (NFloat (Infinite neg)) (NInt i) = neg"
| "num_less (NFloat (Finite m e)) (NFloat (Infinite neg)) = (\<not> neg)"
| "num_less (NFloat (Infinite neg)) (NFloat (Finite m e)) = neg"
| "num_less (NFloat (Infinite neg)) (NFloat (Infinite neg')) = (neg \<and> \<not> neg')"
| "num_less _ _ = False"

fun num_eq :: "num \<Rightarrow> num \<Rightarrow> bool" where
  "num_eq (NInt i) (NInt j) = (i = j)"
| "num_eq (NInt i) (NFloat (Finite m e)) = (case scaled m e i of (x, y) \<Rightarrow> x = y)"
| "num_eq (NFloat (Finite m e)) (NInt i) = (case scaled m e i of (x, y) \<Rightarrow> x = y)"
| "num_eq (NFloat (Finite m e)) (NFloat (Finite m' e')) = (case align m e m' e' of (x, y) \<Rightarrow> x = y)"
| "num_eq (NFloat (Infinite neg)) (NFloat (Infinite neg')) = (neg = neg')"
| "num_eq _ _ = False"

definition num_le :: "num \<Rightarrow> num \<Rightarrow> bool" where
  "num_le a b \<longleftrightarrow> num_less a b \<or> num_eq a b"

section \<open>Truth values and iteration\<close>

fun py_truthy :: "json \<Rightarrow> bool" where
  "py_truthy JNull = False"
| "py_truthy (JBool b) = b"
| "py_truthy (JInt i) = (i \<noteq> 0)"
| "py_truthy (JFloat w) = (\<not> num_eq (NFloat (float_class w)) (NInt 0))"
| "py_truthy (JStr s) = (s \<noteq> [])"
| "py_truthy (JList xs) = (xs \<noteq> [])"
| "py_truthy (JDict d) = (d \<noteq> [])"

text \<open>\<open>for x in v\<close>: a list gives its elements, a dict its keys, a string its characters.\<close>

fun py_iter :: "json \<Rightarrow> exc + json list" where
  "py_iter (JList xs) = Inr xs"
| "py_iter (JDict d) = Inr (map (\<lambda>(k, v). JStr k) d)"
| "py_iter (JStr s) = Inr (map (\<lambda>c. JStr [c]) s)"
| "py_iter v = Inl TypeError"

section \<open>Well-formed values\<close>

text \<open>A dict has each key once.\<close>

fun wf_json :: "json \<Rightarrow> bool" where
  "wf_json (JList xs) = list_all wf_json xs"
| "wf_json (JDict d) = (distinct (map fst d) \<and> list_all (\<lambda>(k, v). wf_json v) d)"
| "wf_json v = True"

lemma wf_dget: "wf_json (JDict d) \<Longrightarrow> wf_json (dget d k)"
  by (auto simp: dget_def list_all_iff dest!: map_of_SomeD split: option.splits)

lemma wf_dput: "wf_json (JDict d) \<Longrightarrow> wf_json v \<Longrightarrow> wf_json (JDict (dput k v d))"
proof -
  assume wf: "wf_json (JDict d)" "wf_json v"
  have "set (dput k v d) \<subseteq> insert (k, v) (set d)"
    by (induction d) (auto simp: dput_def)
  then show ?thesis
    using wf by (auto simp: list_all_iff dput_def intro: AList.distinct_update)
qed

end
