(* ===== verification/Canonicalize.thy ===== *)
theory Canonicalize
  imports Py_Json
begin

text \<open>
  \<open>canonicalize.py\<close>: the depth guard \<open>exceeds_depth\<close>, an iterative walk over an explicit
  stack, and \<open>canonical_json\<close>, which runs the guard before the RFC 8785 serializer of the
  third-party package \<open>jcs\<close> (the argument \<open>jcs\<close>).  The lemmas show that the walk
  terminates and computes whether the nesting depth exceeds the bound.
\<close>

definition MAX_CANONICAL_DEPTH :: nat where
  "MAX_CANONICAL_DEPTH = 128"

section \<open>The depth guard\<close>

text \<open>\<open>node.values()\<close> of a dict, the elements of a list; scalars have no children.\<close>

fun children :: "json \<Rightarrow> json list" where
  "children (JList xs) = xs"
| "children (JDict d) = map snd d"
| "children v = []"

definition is_container :: "json \<Rightarrow> bool" where
  "is_container v \<longleftrightarrow> is_dict v \<or> is_list v"

text \<open>
  The stack of \<open>(node, depth)\<close> pairs.  Python pops from the end of its list; here the head is
  the top, so the children, appended one after the other, arrive reversed.
\<close>

fun stack_size :: "(json \<times> nat) list \<Rightarrow> nat" where
  "stack_size [] = 0"
| "stack_size ((v, d) # st) = size v + stack_size st + 1"

lemma stack_size_append [simp]: "stack_size (xs @ ys) = stack_size xs + stack_size ys"
  by (induction xs rule: stack_size.induct) auto

lemma stack_size_rev [simp]: "stack_size (rev xs) = stack_size xs"
  by (induction xs rule: stack_size.induct) auto

lemma stack_size_children: "is_container v \<Longrightarrow> stack_size (map (\<lambda>c. (c, d)) (children v)) < size v + 1"
proof -
  have l: "stack_size (map (\<lambda>c. (c, d)) xs) \<le> size_list size xs" for xs :: "json list"
    by (induction xs) auto
  have s: "size_list size (map snd d') \<le> size_list (size_prod (\<lambda>_. 0) size) d'" for d' :: items
    by (induction d') auto
  assume "is_container v"
  then show ?thesis
    using l [of "children v"] s by (cases v) (force simp: is_container_def intro: le_less_trans)+
qed

function exceeds_loop :: "nat \<Rightarrow> (json \<times> nat) list \<Rightarrow> bool" where
  "exceeds_loop max_depth [] = False"
| "exceeds_loop max_depth ((node, depth) # stack) =
     (if \<not> is_container node then exceeds_loop max_depth stack
      else if max_depth < depth then True
      else exceeds_loop max_depth (rev (map (\<lambda>child. (child, depth + 1)) (children node)) @ stack))"
  by pat_completeness auto
termination
  by (relation "measure (\<lambda>(m, st). stack_size st)") (auto dest: stack_size_children)

definition exceeds_depth :: "json \<Rightarrow> nat \<Rightarrow> bool" where
  "exceeds_depth value max_depth = exceeds_loop max_depth [(value, 1)]"

text \<open>The nesting depth: a scalar has depth 0, a container one more than its deepest child.\<close>

fun depth :: "json \<Rightarrow> nat" where
  "depth (JList xs) = Suc (fold max (map depth xs) 0)"
| "depth (JDict d) = Suc (fold max (map (\<lambda>(k, v). depth v) d) 0)"
| "depth v = 0"

lemma fold_max_le: "fold max xs (a::nat) \<le> b \<longleftrightarrow> a \<le> b \<and> (\<forall>x \<in> set xs. x \<le> b)"
  by (induction xs arbitrary: a) auto

lemma depth_children:
  "is_container v \<Longrightarrow> depth v \<le> b \<longleftrightarrow> 0 < b \<and> (\<forall>c \<in> set (children v). Suc (depth c) \<le> b)"
  by (cases v) (cases b; force simp: is_container_def fold_max_le)+

lemma depth_dict_le:
  "depth (JDict d) \<le> Suc b \<longleftrightarrow> (\<forall>(k, v) \<in> set d. depth v \<le> b)"
  using depth_children [of "JDict d" "Suc b"] by (auto simp: is_container_def)

lemma depth_scalar: "\<not> is_container v \<Longrightarrow> depth v = 0"
  by (cases v) (auto simp: is_container_def)

text \<open>
  The walk finds a container past the bound iff some entry of the stack has one below it.
  Entries sit at most one level past the bound, because their parents were inside it.
\<close>

lemma exceeds_loop_iff:
  "\<forall>(v, d) \<in> set st. 0 < d \<and> d \<le> m + 1 \<Longrightarrow>
   exceeds_loop m st \<longleftrightarrow> (\<exists>v d. (v, d) \<in> set st \<and> m < depth v + d - 1)"
proof (induction m st rule: exceeds_loop.induct)
  case (1 m)
  then show ?case by simp
next
  case (2 m node d st)
  let ?deep = "\<lambda>xs. \<exists>v d. (v, d) \<in> set xs \<and> m < depth v + d - 1"
  have d: "0 < d" "d \<le> m + 1" and rest: "\<forall>(v, d) \<in> set st. 0 < d \<and> d \<le> m + 1"
    using "2.prems" by auto
  have split: "?deep ((node, d) # st) \<longleftrightarrow> m < depth node + d - 1 \<or> ?deep st" by auto
  consider "\<not> is_container node" | "is_container node" "m < d" | "is_container node" "d \<le> m"
    by linarith
  then show ?case
  proof cases
    case 1
    moreover from this have "\<not> m < depth node + d - 1" using d by (simp add: depth_scalar)
    ultimately show ?thesis using "2.IH"(1) [OF 1 rest] split by simp
  next
    case 2
    then have "0 < depth node" by (cases node) (auto simp: is_container_def)
    with 2 d have "m < depth node + d - 1" by linarith
    with 2 split show ?thesis by simp
  next
    case 3
    let ?cs = "rev (map (\<lambda>c. (c, d + 1)) (children node))"
    have "exceeds_loop m (?cs @ st) \<longleftrightarrow> ?deep (?cs @ st)"
      using 3 rest by (intro "2.IH"(2)) auto
    also have "\<dots> \<longleftrightarrow> (\<exists>c \<in> set (children node). m < depth c + d) \<or> ?deep st"
      by force
    also have "(\<exists>c \<in> set (children node). m < depth c + d) \<longleftrightarrow> m < depth node + d - 1"
    proof -
      have "depth node \<le> m + 1 - d \<longleftrightarrow> (\<forall>c \<in> set (children node). Suc (depth c) \<le> m + 1 - d)"
        using 3 depth_children [of node "m + 1 - d"] by simp
      moreover have "Suc (depth c) \<le> m + 1 - d \<longleftrightarrow> \<not> m < depth c + d" for c
        using 3 by linarith
      moreover have "depth node \<le> m + 1 - d \<longleftrightarrow> \<not> m < depth node + d - 1"
        using d by linarith
      ultimately show ?thesis by blast
    qed
    finally show ?thesis using 3 split by simp
  qed
qed

lemma exceeds_depth_iff: "exceeds_depth v m \<longleftrightarrow> m < depth v"
  using exceeds_loop_iff [of "[(v, 1)]" m] by (simp add: exceeds_depth_def)

text \<open>A child, in particular a value read from a dict, is at least one level shallower.\<close>

lemma depth_child:
  assumes "c \<in> set (children v)"
  shows "depth c < depth v"
proof -
  have "is_container v" using assms by (cases v) (auto simp: is_container_def)
  then show ?thesis using depth_children [of v "depth v"] assms by (simp only: Suc_le_eq) blast
qed

lemma depth_dget: "depth (dget d k) < depth (JDict d)"
proof (cases "dget d k = JNull")
  case False
  then have "dget d k \<in> set (children (JDict d))" using dget_in by force
  then show ?thesis by (rule depth_child)
qed simp

lemma depth_mono:
  assumes "set (map snd d) \<subseteq> set (map snd d')"
  shows "depth (JDict d) \<le> depth (JDict d')"
proof -
  have "Suc (depth c) \<le> depth (JDict d')" if "c \<in> set (children (JDict d))" for c
  proof -
    have "c \<in> set (children (JDict d'))" using that assms by auto
    then show ?thesis using depth_child Suc_le_eq by blast
  qed
  then show ?thesis
    using depth_children [of "JDict d" "depth (JDict d')"] by (simp add: is_container_def)
qed

section \<open>canonical_json\<close>

definition canonical_json :: "(json \<Rightarrow> exc + bytes) \<Rightarrow> json \<Rightarrow> exc + bytes" where
  "canonical_json jcs obj =
     (if exceeds_depth obj MAX_CANONICAL_DEPTH then Inl CanonicalDepthError else jcs obj)"

lemma canonical_json_Inr:
  "canonical_json jcs v = Inr b \<longleftrightarrow> depth v \<le> MAX_CANONICAL_DEPTH \<and> jcs v = Inr b"
  by (auto simp: canonical_json_def exceeds_depth_iff)

lemma canonical_json_shallow:
  "depth v \<le> MAX_CANONICAL_DEPTH \<Longrightarrow> canonical_json jcs v = jcs v"
  by (simp add: canonical_json_def exceeds_depth_iff)

section \<open>Properties\<close>

text \<open>
  C38: the stack walk decides the nesting depth.  \<open>exceeds_depth v m\<close> returns, and it is
  \<open>True\<close> iff some path of nested lists and dicts in \<open>v\<close> is longer than \<open>m\<close>, for every
  value and every bound, although the walk visits the containers in another order.
\<close>

theorem exceeds_depth_correct: "exceeds_depth v m \<longleftrightarrow> m < depth v"
  by (rule exceeds_depth_iff)

text \<open>
  The guard of the canonicalizer covers everything inside a value.  \<open>canonical_json\<close>
  raises the depth error exactly past 128 levels, and a value it accepts has no part the
  guard would refuse: no field read out of a checked document can trip the guard again.
\<close>

lemma depth_guard:
  "(canonical_json jcs v = (if MAX_CANONICAL_DEPTH < depth v then Inl CanonicalDepthError else jcs v))
   \<and> (\<not> exceeds_depth (JDict d) m \<longrightarrow> \<not> exceeds_depth (dget d k) m)"
  using depth_dget [of d k] by (auto simp: canonical_json_def exceeds_depth_iff)

lemma depth_guard_witness:
  "\<not> exceeds_depth (JDict [(''body'', JList [])]) 2 \<and> \<not> exceeds_depth (JList []) 2"
proof -
  have "\<not> exceeds_depth (JDict [(''body'', JList [])]) 2" by (simp add: exceeds_depth_iff)
  with depth_guard [of "\<lambda>v. Inr []" JNull "[(''body'', JList [])]" 2 "''body''"]
  show ?thesis by (simp add: dget_def)
qed

end
