(* ===== verification/Normalize_Floats.thy ===== *)
theory Normalize_Floats
  imports Canonicalize
begin

text \<open>
  \<open>canonicalize.py: normalize_floats\<close>, which a producer applies before hashing values that may drift
  at floating-point precision.  Python's \<open>round(x, ndigits)\<close> is exact: the nearest multiple of
  \<open>10 ^ -ndigits\<close>, ties to even, and then the nearest double, ties to even.  Both are computed on
  natural numbers, a double being a multiple of \<open>2 ^ -1074\<close>.  The interpreter's recursion limit
  and tuples, which \<open>json.loads\<close> does not produce, are left out.
\<close>

section \<open>Rounding to nearest, ties to even\<close>

definition div_half_even :: "nat \<Rightarrow> nat \<Rightarrow> nat" where
  "div_half_even n d =
     (let q = n div d; r = n mod d
      in if 2 * r < d \<or> 2 * r = d \<and> even q then q else q + 1)"

lemma div_half_even_cases:
  assumes "0 < d"
  obtains r where "r < d" and "int n = int (n div d) * int d + int r"
    and "div_half_even n d = (if 2 * r < d \<or> 2 * r = d \<and> even (n div d) then n div d else n div d + 1)"
proof (rule that)
  show "n mod d < d" using assms by simp
  show "int n = int (n div d) * int d + int (n mod d)"
    by (metis div_mult_mod_eq of_nat_add of_nat_mult)
  show "div_half_even n d = (if 2 * (n mod d) < d \<or> 2 * (n mod d) = d \<and> even (n div d) then n div d else n div d + 1)"
    by (simp add: div_half_even_def Let_def)
qed

lemma multiple_distance:
  fixes j q d r :: int
  assumes "0 \<le> r" and "r < d"
  shows "j \<le> q \<and> r \<le> \<bar>q * d + r - j * d\<bar> \<or> q + 1 \<le> j \<and> d - r \<le> \<bar>q * d + r - j * d\<bar>"
proof (cases "j \<le> q")
  case True
  then have "j * d \<le> q * d" using assms by (intro mult_right_mono) auto
  with True show ?thesis by linarith
next
  case False
  then have "(q + 1) * d \<le> j * d" using assms by (intro mult_right_mono) auto
  then have "q * d + d \<le> j * d" by (simp add: distrib_right)
  with False show ?thesis by linarith
qed

text \<open>The result is nearest, at most half a step away, and even at exactly half a step.\<close>

lemma div_half_even_nearest:
  assumes "0 < d"
  shows "\<bar>int n - int (div_half_even n d) * int d\<bar> \<le> \<bar>int n - j * int d\<bar>"
    and "2 * \<bar>int n - int (div_half_even n d) * int d\<bar> \<le> int d"
    and "2 * \<bar>int n - int (div_half_even n d) * int d\<bar> = int d \<Longrightarrow> even (div_half_even n d)"
proof -
  obtain r where r: "r < d" "int n = int (n div d) * int d + int r"
    "div_half_even n d = (if 2 * r < d \<or> 2 * r = d \<and> even (n div d) then n div d else n div d + 1)"
    by (rule div_half_even_cases [OF assms])
  have dist: "\<bar>int n - int (div_half_even n d) * int d\<bar> = (if div_half_even n d = n div d then int r else int d - int r)"
    using r by (auto simp: distrib_right)
  show "\<bar>int n - int (div_half_even n d) * int d\<bar> \<le> \<bar>int n - j * int d\<bar>"
    using multiple_distance [of "int r" "int d" j "int (n div d)"] r unfolding dist by (auto split: if_splits)
  show "2 * \<bar>int n - int (div_half_even n d) * int d\<bar> \<le> int d"
    "2 * \<bar>int n - int (div_half_even n d) * int d\<bar> = int d \<Longrightarrow> even (div_half_even n d)"
    unfolding dist using r by (auto split: if_splits)
qed

lemma div_half_even_unique:
  assumes "2 * \<bar>int n - int j * int d\<bar> < int d \<or> 2 * \<bar>int n - int j * int d\<bar> = int d \<and> even j" and "0 < d"
  shows "div_half_even n d = j"
proof -
  obtain r where r: "r < d" "int n = int (n div d) * int d + int r"
    "div_half_even n d = (if 2 * r < d \<or> 2 * r = d \<and> even (n div d) then n div d else n div d + 1)"
    by (rule div_half_even_cases [OF assms(2)])
  consider "int j \<le> int (n div d)" "int r \<le> \<bar>int n - int j * int d\<bar>"
    | "int (n div d) + 1 \<le> int j" "int d - int r \<le> \<bar>int n - int j * int d\<bar>"
    using multiple_distance [of "int r" "int d" "int j" "int (n div d)"] r by auto
  then show ?thesis
  proof cases
    case 1
    have "j = n div d"
    proof (rule ccontr)
      assume "j \<noteq> n div d"
      with 1 have "int j + 1 \<le> int (n div d)" by simp
      then have "(int j + 1) * int d \<le> int (n div d) * int d" by (intro mult_right_mono) auto
      then show False using assms r by (auto simp: distrib_right)
    qed
    with 1 r assms show ?thesis by (auto split: if_splits)
  next
    case 2
    have "j = n div d + 1"
    proof (rule ccontr)
      assume "j \<noteq> n div d + 1"
      with 2 have "int (n div d) + 2 \<le> int j" by simp
      then have "(int (n div d) + 2) * int d \<le> int j * int d" by (intro mult_right_mono) auto
      then show False using assms r by (auto simp: distrib_right)
    qed
    with 2 r assms show ?thesis by (auto split: if_splits simp: distrib_right)
  qed
qed

lemma div_half_even_le: "n \<le> j * d \<Longrightarrow> 0 < d \<Longrightarrow> div_half_even n d \<le> j"
proof (rule ccontr)
  assume a: "n \<le> j * d" "0 < d" "\<not> div_half_even n d \<le> j"
  then have "int (j + 1) * int d \<le> int (div_half_even n d) * int d" by (intro mult_right_mono) auto
  moreover have "int n \<le> int j * int d" using a(1) by (metis of_nat_le_iff of_nat_mult)
  ultimately have "\<bar>int n - int j * int d\<bar> < \<bar>int n - int (div_half_even n d) * int d\<bar>"
    using a(2,3) by (simp add: distrib_right)
  with div_half_even_nearest(1) [OF a(2), of n "int j"] show False by simp
qed

lemma div_half_even_ge: "j * d \<le> n \<Longrightarrow> 0 < d \<Longrightarrow> j \<le> div_half_even n d"
proof (rule ccontr)
  assume a: "j * d \<le> n" "0 < d" "\<not> j \<le> div_half_even n d"
  then have "int (div_half_even n d + 1) * int d \<le> int j * int d" by (intro mult_right_mono) auto
  moreover have "int j * int d \<le> int n" using a(1) by (metis of_nat_le_iff of_nat_mult)
  ultimately have "\<bar>int n - int j * int d\<bar> < \<bar>int n - int (div_half_even n d) * int d\<bar>"
    using a(2,3) by (simp add: distrib_right)
  with div_half_even_nearest(1) [OF a(2), of n "int j"] show False by simp
qed

section \<open>Doubles\<close>

text \<open>
  The 63 bits of a magnitude: 11 of the exponent, 52 of the fraction.  A finite one is
  \<open>units b * 2 ^ -1074\<close>; the bits from \<open>INF_BITS\<close> on are the infinity and the NaNs.
\<close>

definition INF_BITS :: nat where
  "INF_BITS = 2047 * 2 ^ 52"

definition UNIT :: nat where
  "UNIT = 2 ^ 1074"

definition units :: "nat \<Rightarrow> nat" where
  "units b =
     (let ex = b div 2 ^ 52; man = b mod 2 ^ 52
      in if ex = 0 then man else (man + 2 ^ 52) * 2 ^ (ex - 1))"

text \<open>\<open>int.bit_length\<close>, and the bits of the double nearest to \<open>n / d\<close> units.\<close>

fun bit_length :: "nat \<Rightarrow> nat" where
  "bit_length n = (if n = 0 then 0 else Suc (bit_length (n div 2)))"

declare bit_length.simps [simp del]

definition nearest_bits :: "nat \<Rightarrow> nat \<Rightarrow> nat" where
  "nearest_bits n d =
     (let k = bit_length (n div d) - 53 in k * 2 ^ 52 + div_half_even n (d * 2 ^ k))"

lemma bit_length_bounds: "n < 2 ^ bit_length n" "0 < n \<Longrightarrow> 2 ^ (bit_length n - 1) \<le> n"
proof -
  show "n < 2 ^ bit_length n"
  proof (induction n rule: bit_length.induct)
    case (1 n)
    then show ?case by (cases "n = 0") (simp_all add: bit_length.simps [of n] bit_length.simps [of 0])
  qed
  show "0 < n \<Longrightarrow> 2 ^ (bit_length n - 1) \<le> n"
  proof (induction n rule: bit_length.induct)
    case (1 n)
    show ?case
    proof (cases "n div 2 = 0")
      case True
      with 1 show ?thesis by (simp add: bit_length.simps [of n] bit_length.simps [of 0])
    next
      case False
      then have "bit_length (n div 2) = Suc (bit_length (n div 2) - 1)" by (simp add: bit_length.simps [of "n div 2"])
      moreover have "2 ^ (bit_length (n div 2) - 1) \<le> n div 2" using 1 False by simp
      moreover have "bit_length n = Suc (bit_length (n div 2))" using 1 by (simp add: bit_length.simps [of n])
      ultimately show ?thesis by (metis diff_Suc_1 power_Suc2 mult_le_mono1 div_times_less_eq_dividend le_trans)
    qed
  qed
qed

text \<open>The exponent chosen is the least at which the fraction fits in 53 bits.\<close>

lemma exponent_bounds:
  assumes "0 < d" and "k = bit_length (n div d) - 53"
  shows "n < d * 2 ^ k * 2 ^ 53" and "0 < k \<Longrightarrow> d * 2 ^ k * 2 ^ 52 \<le> n"
proof -
  have "n div d < 2 ^ bit_length (n div d)" by (rule bit_length_bounds)
  also have "\<dots> \<le> 2 ^ (k + 53)" unfolding assms(2) by (rule power_increasing) auto
  finally have "n < 2 ^ (k + 53) * d" using assms(1) by (simp add: div_less_iff_less_mult)
  then show "n < d * 2 ^ k * 2 ^ 53" by (simp only: power_add mult_ac)
  assume k: "0 < k"
  then have "n div d \<noteq> 0" using assms(2) by (cases "n div d = 0") (simp_all add: bit_length.simps [of 0])
  then have "2 ^ (bit_length (n div d) - 1) \<le> n div d" by (intro bit_length_bounds) simp
  moreover have "bit_length (n div d) - 1 = k + 52" using k assms(2) by simp
  ultimately have "2 ^ (k + 52) \<le> n div d" by simp
  then have "2 ^ (k + 52) * d \<le> n" using assms(1) by (simp add: less_eq_div_iff_mult_less_eq)
  then show "d * 2 ^ k * 2 ^ 52 \<le> n" by (simp only: power_add mult_ac)
qed

lemma units_encoded:
  assumes "m \<le> 2 ^ 53" and "0 < k \<Longrightarrow> 2 ^ 52 \<le> m"
  shows "units (k * 2 ^ 52 + m) = m * 2 ^ k"
proof -
  consider "m < 2 ^ 52" | "2 ^ 52 \<le> m" "m < 2 ^ 53" | "m = 2 ^ 53" using assms(1) by linarith
  then show ?thesis
  proof cases
    case 1
    then have "k = 0" using assms(2) by (cases k) auto
    with 1 show ?thesis by (simp add: units_def)
  next
    case 2
    define f where "f = m - 2 ^ 52"
    have m: "m = f + 2 ^ 52" "f < 2 ^ 52" using 2 by (simp_all add: f_def)
    have "(k * 2 ^ 52 + m) div 2 ^ 52 = k + 1" "(k * 2 ^ 52 + m) mod 2 ^ 52 = f"
      using m by (simp_all add: add.assoc [symmetric])
    then show ?thesis by (simp add: units_def m)
  next
    case 3
    have "k * 2 ^ 52 + m = (k + 2) * 2 ^ 52" by (simp add: 3)
    then show ?thesis by (simp add: units_def 3)
  qed
qed

lemma nearest_bits_units:
  assumes "0 < d" and "k = bit_length (n div d) - 53"
  shows "units (nearest_bits n d) = div_half_even n (d * 2 ^ k) * 2 ^ k"
    and "div_half_even n (d * 2 ^ k) \<le> 2 ^ 53"
proof -
  note b = exponent_bounds [OF assms]
  have p: "0 < d * 2 ^ k" using assms(1) by simp
  show le: "div_half_even n (d * 2 ^ k) \<le> 2 ^ 53"
    using b(1) p by (intro div_half_even_le) (simp_all add: mult.commute less_imp_le)
  have "2 ^ 52 \<le> div_half_even n (d * 2 ^ k)" if "0 < k"
    using b(2) [OF that] p by (intro div_half_even_ge) (simp_all add: mult.commute)
  from units_encoded [OF le this] show "units (nearest_bits n d) = div_half_even n (d * 2 ^ k) * 2 ^ k"
    by (simp add: nearest_bits_def Let_def assms(2) [symmetric])
qed

text \<open>No magnitude is nearer to \<open>n / d\<close> than the one computed.\<close>

lemma units_form: "\<exists>m e. units y = m * 2 ^ e \<and> m < 2 ^ 53"
proof -
  have "y mod 2 ^ 52 < 2 ^ 52" by simp
  then have "y mod 2 ^ 52 + 2 ^ 52 < 2 ^ 53" by simp
  then show ?thesis
    by (cases "y div 2 ^ 52 = 0") (force simp: units_def Let_def intro: exI [of _ 0], auto simp: units_def Let_def)
qed

lemma nearest_bits_nearest:
  assumes "0 < d"
  shows "\<bar>int n - int d * int (units (nearest_bits n d))\<bar> \<le> \<bar>int n - int d * int (units y)\<bar>"
proof -
  define k where "k = bit_length (n div d) - 53"
  let ?D = "d * 2 ^ k"
  have p: "0 < ?D" using assms by simp
  have u: "int d * int (units (nearest_bits n d)) = int (div_half_even n ?D) * int ?D"
    using nearest_bits_units(1) [OF assms k_def] by simp
  note near = div_half_even_nearest(1) [OF p, of n]
  obtain m e where y: "units y = m * 2 ^ e" "m < 2 ^ 53" using units_form by blast
  show ?thesis
  proof (cases "k \<le> e")
    case True
    then have "(2 :: int) ^ e = 2 ^ (e - k) * 2 ^ k" by (simp flip: power_add)
    then have "int d * int (units y) = int (m * 2 ^ (e - k)) * int ?D" by (simp add: y(1))
    with near [of "int (m * 2 ^ (e - k))"] show ?thesis by (simp only: u)
  next
    case False
    then have k: "0 < k" and e: "e \<le> k - 1" by simp_all
    have "m * 2 ^ e \<le> 2 ^ 53 * 2 ^ (k - 1)" using y(2) e by (intro mult_le_mono power_increasing) simp_all
    also have "(2 :: nat) ^ 53 * 2 ^ (k - 1) = 2 ^ 52 * 2 ^ k" using k by (cases k) simp_all
    finally have "units y \<le> 2 ^ 52 * 2 ^ k" by (simp only: y(1))
    then have "d * units y \<le> d * (2 ^ 52 * 2 ^ k)" by (rule mult_le_mono2)
    also have "\<dots> = 2 ^ 52 * ?D" by simp
    finally have a: "d * units y \<le> 2 ^ 52 * ?D" .
    have b: "2 ^ 52 * ?D \<le> n" using exponent_bounds(2) [OF assms k_def k] by (simp only: mult_ac)
    have "\<bar>int n - int (2 ^ 52) * int ?D\<bar> \<le> \<bar>int n - int d * int (units y)\<bar>"
      using a b unfolding of_nat_mult [symmetric] by linarith
    with near [of "int (2 ^ 52)"] show ?thesis unfolding u by linarith
  qed
qed

section \<open>round(x, ndigits)\<close>

text \<open>
  On a magnitude: the multiple of \<open>10 ^ -ndigits\<close>, then the double nearest to it.  A result past
  the largest double raises.
\<close>

definition double_round :: "nat \<Rightarrow> int \<Rightarrow> exc + nat" where
  "double_round b ndigits =
     (let up = 10 ^ nat ndigits; down = 10 ^ nat (- ndigits);
          q = div_half_even (units b * up) (UNIT * down);
          r = nearest_bits (q * (UNIT * down)) up
      in if INF_BITS \<le> r then Inl (LibraryError ''OverflowError'') else Inr r)"

text \<open>
  Infinities and NaNs are returned unchanged; so is every double for more digits than the
  smallest one has, and for fewer than the largest has the result is a zero of the same sign.
\<close>

definition py_round :: "64 word \<Rightarrow> int \<Rightarrow> exc + 64 word" where
  "py_round x ndigits =
     (let sign = unat x div 2 ^ 63 * 2 ^ 63; b = unat x mod 2 ^ 63
      in if INF_BITS \<le> b then Inr x
         else if 323 < ndigits then Inr x
         else if ndigits < - 308 then Inr (word_of_nat sign)
         else map_sum id (\<lambda>r. word_of_nat (sign + r)) (double_round b ndigits))"

lemma double_round_params:
  fixes ndigits :: int
  shows "0 < (10 :: nat) ^ nat ndigits" and "0 < UNIT * 10 ^ nat (- ndigits)"
  by (simp_all add: UNIT_def)

lemma half_step:
  fixes a b d :: int
  shows "b \<le> a \<Longrightarrow> 2 * a \<le> d \<Longrightarrow> (2 * a = d \<Longrightarrow> e) \<Longrightarrow> 2 * b < d \<or> 2 * b = d \<and> e"
  by auto

text \<open>The result is as near to the decimal as the argument is, so it is rounded to the same decimal.\<close>

lemma double_round_decimal:
  assumes "double_round b p = Inr r"
  shows "div_half_even (units r * 10 ^ nat p) (UNIT * 10 ^ nat (- p)) = div_half_even (units b * 10 ^ nat p) (UNIT * 10 ^ nat (- p))"
proof -
  let ?up = "10 ^ nat p :: nat" and ?D = "UNIT * 10 ^ nat (- p)"
  let ?q = "div_half_even (units b * ?up) ?D"
  note pos = double_round_params [of p]
  have r: "r = nearest_bits (?q * ?D) ?up"
    using assms by (simp add: double_round_def Let_def split: if_splits)
  have "\<bar>int (units r * ?up) - int ?q * int ?D\<bar> \<le> \<bar>int (units b * ?up) - int ?q * int ?D\<bar>"
    using nearest_bits_nearest [OF pos(1), of "?q * ?D" b]
    unfolding r of_nat_mult [symmetric] by (simp only: abs_minus_commute mult.commute)
  from half_step [OF this div_half_even_nearest(2,3) [OF pos(2), of "units b * ?up"]]
  have "2 * \<bar>int (units r * ?up) - int ?q * int ?D\<bar> < int ?D
      \<or> 2 * \<bar>int (units r * ?up) - int ?q * int ?D\<bar> = int ?D \<and> even ?q" by blast
  then show ?thesis using pos(2) by (rule div_half_even_unique)
qed

lemma double_round_again: "double_round b p = Inr r \<Longrightarrow> double_round r p = Inr r"
  using double_round_decimal [of b p r] by (simp add: double_round_def Let_def split: if_splits)

lemma double_round_finite: "double_round b p = Inr r \<Longrightarrow> r < INF_BITS"
  by (auto simp: double_round_def Let_def split: if_splits)

lemma INF_BITS_less: "INF_BITS < 2 ^ 63"
  by (simp add: INF_BITS_def)

lemma sign_bits:
  fixes x :: "64 word"
  assumes "r < 2 ^ 63"
  shows "unat (word_of_nat (unat x div 2 ^ 63 * 2 ^ 63 + r) :: 64 word) = unat x div 2 ^ 63 * 2 ^ 63 + r"
    and "(unat x div 2 ^ 63 * 2 ^ 63 + r) div 2 ^ 63 = unat x div 2 ^ 63"
    and "(unat x div 2 ^ 63 * 2 ^ 63 + r) mod 2 ^ 63 = r"
proof -
  have "unat x < 2 ^ 64" using unsigned_less [of x] by simp
  then have "unat x div 2 ^ 63 \<le> 1" by (simp add: less_Suc_eq_le [symmetric] div_less_iff_less_mult)
  then have "unat x div 2 ^ 63 * 2 ^ 63 \<le> 1 * 2 ^ 63" by (rule mult_le_mono1)
  then have "unat x div 2 ^ 63 * 2 ^ 63 + r < 2 ^ 64" using assms by simp
  then show "unat (word_of_nat (unat x div 2 ^ 63 * 2 ^ 63 + r) :: 64 word) = unat x div 2 ^ 63 * 2 ^ 63 + r"
    by (simp add: unat_of_nat del: of_nat_add of_nat_mult)
  show "(unat x div 2 ^ 63 * 2 ^ 63 + r) div 2 ^ 63 = unat x div 2 ^ 63"
    "(unat x div 2 ^ 63 * 2 ^ 63 + r) mod 2 ^ 63 = r"
    using assms by simp_all
qed

lemma double_round_zero: "double_round 0 p = Inr 0"
proof -
  have "units 0 = 0" by (simp add: units_def)
  then show ?thesis
    by (simp add: double_round_def div_half_even_def nearest_bits_def Let_def bit_length.simps [of 0] INF_BITS_def)
qed

text \<open>The four branches: unchanged, a zero, a rounded magnitude, an error.\<close>

lemma py_round_again:
  assumes "py_round x p = Inr y"
  shows "py_round y p = Inr y"
proof -
  let ?s = "unat x div 2 ^ 63 * 2 ^ 63" and ?b = "unat x mod 2 ^ 63"
  consider "INF_BITS \<le> ?b \<or> 323 < p" | "?b < INF_BITS" "p < - 308" | "?b < INF_BITS" "- 308 \<le> p" "p \<le> 323"
    by linarith
  then show ?thesis
  proof cases
    case 1
    with assms have "y = x" by (auto simp: py_round_def Let_def split: if_splits)
    with assms show ?thesis by simp
  next
    case 2
    with assms have "y = word_of_nat (?s + 0)" by (simp add: py_round_def Let_def)
    then have "unat y = ?s + 0" using sign_bits(1) [of 0 x] by simp
    then have "unat y div 2 ^ 63 * 2 ^ 63 = unat y" "unat y mod 2 ^ 63 = 0" by simp_all
    with 2 show ?thesis by (simp add: py_round_def Let_def INF_BITS_def)
  next
    case 3
    then obtain r where r: "double_round ?b p = Inr r" "y = word_of_nat (?s + r)"
      using assms by (auto simp: py_round_def Let_def map_sum_def split: sum.splits)
    have lt: "r < INF_BITS" "r < 2 ^ 63" using double_round_finite [OF r(1)] INF_BITS_less by simp_all
    then have "unat y = ?s + r" using sign_bits(1) [OF lt(2), of x] by (simp only: r(2))
    then have "unat y div 2 ^ 63 = unat x div 2 ^ 63" "unat y mod 2 ^ 63 = r"
      using sign_bits(2,3) [OF lt(2), of x] by (simp_all only:)
    with 3 lt double_round_again [OF r(1)] show ?thesis by (simp add: py_round_def Let_def r(2))
  qed
qed

section \<open>Rounding after the point never overflows\<close>

lemma units_below: "b < (e + 1) * 2 ^ 52 \<Longrightarrow> 0 < e \<Longrightarrow> units b < 2 ^ (e + 52)"
proof -
  assume b: "b < (e + 1) * 2 ^ 52" and e: "0 < e"
  have m: "b mod 2 ^ 52 + 2 ^ 52 < 2 ^ 53" by simp
  have "b div 2 ^ 52 \<le> e" using b by (simp add: less_Suc_eq_le [symmetric] div_less_iff_less_mult)
  then have "(2 :: nat) ^ (b div 2 ^ 52 - 1) \<le> 2 ^ (e - 1)" by (intro power_increasing) auto
  with m have "(b mod 2 ^ 52 + 2 ^ 52) * 2 ^ (b div 2 ^ 52 - 1) < 2 ^ 53 * 2 ^ (e - 1)" by (intro mult_less_le_imp_less) auto
  also have "(2 :: nat) ^ 53 * 2 ^ (e - 1) = 2 ^ (e + 52)" using e by (cases e) (simp_all add: power_add)
  finally have "(b mod 2 ^ 52 + 2 ^ 52) * 2 ^ (b div 2 ^ 52 - 1) < 2 ^ (e + 52)" .
  moreover have "b mod 2 ^ 52 \<le> (b mod 2 ^ 52 + 2 ^ 52) * 2 ^ (b div 2 ^ 52 - 1)"
    by (rule order_trans [OF le_add1 [of _ "2 ^ 52"]]) (simp del: power_numeral)
  ultimately show ?thesis by (simp only: units_def Let_def split: if_split) (blast intro: le_less_trans)
qed

lemma units_above: "e * 2 ^ 52 \<le> r \<Longrightarrow> 0 < e \<Longrightarrow> 2 ^ (e + 51) \<le> units r"
proof -
  assume r: "e * 2 ^ 52 \<le> r" and e: "0 < e"
  have "e \<le> r div 2 ^ 52" using r by (simp add: less_eq_div_iff_mult_less_eq)
  then have "(2 :: nat) ^ 52 * 2 ^ (e - 1) \<le> (r mod 2 ^ 52 + 2 ^ 52) * 2 ^ (r div 2 ^ 52 - 1)"
    by (intro mult_le_mono power_increasing) auto
  moreover have "(2 :: nat) ^ 52 * 2 ^ (e - 1) = 2 ^ (e + 51)" using e by (cases e) (simp_all add: power_add)
  ultimately show ?thesis using e \<open>e \<le> r div 2 ^ 52\<close> by (simp add: units_def Let_def)
qed

text \<open>A double is a whole number or below \<open>2 ^ 53\<close>.\<close>

lemma whole_or_small: "UNIT dvd units b \<or> units b < 2 ^ 53 * UNIT"
proof (cases "b < (1074 + 1) * 2 ^ 52")
  case True
  then have "units b < 2 ^ (1074 + 52)" by (rule units_below) simp
  also have "\<dots> \<le> 2 ^ 53 * 2 ^ 1074" unfolding power_add [symmetric] by (rule power_increasing) auto
  finally show ?thesis by (simp only: UNIT_def simp_thms)
next
  case False
  then have "1075 \<le> b div 2 ^ 52" by (simp add: less_eq_div_iff_mult_less_eq)
  then have "2 ^ 1074 dvd (2 :: nat) ^ (b div 2 ^ 52 - 1)" by (intro le_imp_power_dvd) simp
  moreover have "b div 2 ^ 52 \<noteq> 0" using \<open>1075 \<le> b div 2 ^ 52\<close> by linarith
  ultimately have "2 ^ 1074 dvd units b" by (simp only: units_def Let_def if_False) (rule dvd_mult)
  then show ?thesis by (simp only: UNIT_def simp_thms)
qed

lemma double_round_whole:
  assumes "UNIT dvd units b" and "b < INF_BITS" and "0 \<le> p"
  shows "\<exists>r. double_round b p = Inr r"
proof -
  obtain j where j: "units b = UNIT * j" using assms(1) by (elim dvdE)
  have u: "0 < UNIT" by (simp add: UNIT_def)
  let ?up = "10 ^ nat p :: nat"
  have q: "div_half_even (units b * ?up) UNIT = j * ?up"
    by (rule div_half_even_unique [OF _ u]) (use u in \<open>simp add: j\<close>)
  define r where "r = nearest_bits (j * ?up * UNIT) ?up"
  have "int (j * ?up * UNIT) - int ?up * int (units b) = 0" by (simp add: j)
  then have "int ?up * int (units r) = int ?up * int (units b)"
    using nearest_bits_nearest [of ?up "j * ?up * UNIT" b] unfolding r_def by (simp add: j mult.commute)
  then have same: "units r = units b" by simp
  have "r < INF_BITS"
  proof (rule ccontr)
    assume "\<not> r < INF_BITS"
    then have "2 ^ (2047 + 51) \<le> units r" by (intro units_above) (simp_all add: INF_BITS_def)
    moreover have "units b < 2 ^ (2046 + 52)" using assms(2) by (intro units_below) (simp_all add: INF_BITS_def)
    ultimately show False unfolding same by simp
  qed
  with assms(3) show ?thesis by (simp add: double_round_def Let_def q r_def)
qed

lemma double_round_small:
  assumes "units b < 2 ^ 53 * UNIT" and "0 \<le> p"
  shows "\<exists>r. double_round b p = Inr r"
proof -
  have u: "0 < UNIT" by (simp add: UNIT_def)
  let ?up = "10 ^ nat p :: nat"
  define q where "q = div_half_even (units b * ?up) UNIT"
  have "units b * ?up \<le> (2 ^ 53 * ?up) * UNIT" using assms(1) by (simp add: mult.assoc mult.left_commute)
  then have "q \<le> 2 ^ 53 * ?up" unfolding q_def using u by (rule div_half_even_le)
  then have "q * UNIT \<le> 2 ^ 53 * UNIT * ?up" by (simp add: mult.assoc mult.left_commute)
  then have n: "q * UNIT div ?up \<le> 2 ^ 53 * UNIT" by (metis div_le_mono nonzero_mult_div_cancel_right power_not_zero zero_neq_numeral)
  define k where "k = bit_length (q * UNIT div ?up) - 53"
  have "k \<le> 1075"
  proof (cases "q * UNIT div ?up = 0")
    case False
    then have "2 ^ (bit_length (q * UNIT div ?up) - 1) \<le> q * UNIT div ?up" by (intro bit_length_bounds) simp
    also note n
    also have "2 ^ 53 * UNIT = 2 ^ 1127" unfolding UNIT_def power_add [symmetric] by simp
    finally have "bit_length (q * UNIT div ?up) - 1 \<le> 1127" by (rule power_le_imp_le_exp [rotated]) simp
    then show ?thesis by (simp add: k_def)
  qed (simp add: k_def bit_length.simps [of 0])
  moreover have "div_half_even (q * UNIT) (?up * 2 ^ k) \<le> 2 ^ 53" by (rule nearest_bits_units [OF _ k_def]) simp
  ultimately have "nearest_bits (q * UNIT) ?up \<le> 1075 * 2 ^ 52 + 2 ^ 53"
    unfolding nearest_bits_def k_def [symmetric] Let_def by (intro add_mono mult_le_mono1)
  then have "nearest_bits (q * UNIT) ?up < INF_BITS" by (simp add: INF_BITS_def)
  with assms(2) show ?thesis by (simp add: double_round_def Let_def q_def)
qed

lemma py_round_returns: "0 \<le> p \<Longrightarrow> \<exists>y. py_round x p = Inr y"
proof -
  assume p: "0 \<le> p"
  have "\<exists>r. double_round b p = Inr r" if "b < INF_BITS" for b
    using whole_or_small [of b] double_round_whole [OF _ that p] double_round_small [OF _ p] by blast
  then show ?thesis by (auto simp: py_round_def Let_def not_le map_sum_def split: sum.splits) (metis sum.distinct(1))
qed

section \<open>normalize_floats\<close>

text \<open>
  The walk over the value; a dict keeps the order of its items.  The first error stops it.
\<close>

lemma emap_cong [fundef_cong]:
  "xs = ys \<Longrightarrow> (\<And>x. x \<in> set ys \<Longrightarrow> f x = g x) \<Longrightarrow> emap f xs = emap g ys"
  by (induction ys arbitrary: xs) auto

lemma emap_total: "(\<exists>ys. emap f xs = Inr ys) \<longleftrightarrow> (\<forall>x \<in> set xs. \<exists>y. f x = Inr y)"
  by (induction xs) (auto simp: ebind_Inr_iff)

fun normalize_floats :: "json \<Rightarrow> int \<Rightarrow> exc + json" where
  "normalize_floats (JFloat x) precision = map_sum id JFloat (py_round x precision)"
| "normalize_floats (JDict d) precision =
     map_sum id JDict (emap (\<lambda>(k, v). map_sum id (Pair k) (normalize_floats v precision)) d)"
| "normalize_floats (JList xs) precision =
     map_sum id JList (emap (\<lambda>v. normalize_floats v precision) xs)"
| "normalize_floats v precision = Inr v"

text \<open>The default of the parameter.\<close>

definition DEFAULT_PRECISION :: int where
  "DEFAULT_PRECISION = 6"

lemma normalize_again: "normalize_floats v p = Inr w \<Longrightarrow> normalize_floats w p = Inr w"
proof (induction v p arbitrary: w rule: normalize_floats.induct)
  case (1 x p)
  then show ?case by (auto simp: map_sum_Inr_iff dest: py_round_again)
next
  case (2 d p)
  then obtain d' where w: "w = JDict d'"
    and d: "list_all2 (\<lambda>x y. (case x of (k, v) \<Rightarrow> map_sum id (Pair k) (normalize_floats v p)) = Inr y) d d'"
    by (auto simp: map_sum_Inr_iff emap_Inr_iff)
  have "map_sum id (Pair k) (normalize_floats v p) = Inr (k, v)" if "(k, v) \<in> set d'" for k v
  proof -
    from that obtain i where i: "i < length d'" "d' ! i = (k, v)" by (auto simp: in_set_conv_nth)
    then have l: "i < length d" using d by (simp add: list_all2_lengthD)
    obtain k0 v0 where kv: "d ! i = (k0, v0)" by fastforce
    then have "normalize_floats v0 p = Inr v" using list_all2_nthD [OF d l] i(2) by (auto simp: map_sum_Inr_iff)
    moreover have "(k0, v0) \<in> set d" using nth_mem [OF l] by (simp only: kv)
    ultimately show ?thesis using "2.IH" by auto
  qed
  then have "emap (\<lambda>(k, v). map_sum id (Pair k) (normalize_floats v p)) d' = Inr d'"
    by (auto simp: emap_Inr_iff list_all2_same)
  with w show ?case by simp
next
  case (3 xs p)
  then obtain ys where w: "w = JList ys" and xs: "list_all2 (\<lambda>x y. normalize_floats x p = Inr y) xs ys"
    by (auto simp: map_sum_Inr_iff emap_Inr_iff)
  have "normalize_floats y p = Inr y" if "y \<in> set ys" for y
  proof -
    from that obtain i where i: "i < length ys" "ys ! i = y" by (auto simp: in_set_conv_nth)
    then have l: "i < length xs" using xs by (simp add: list_all2_lengthD)
    from "3.IH" [OF nth_mem [OF l]] list_all2_nthD [OF xs l] show ?thesis by (simp add: i(2))
  qed
  then have "emap (\<lambda>v. normalize_floats v p) ys = Inr ys" by (simp add: emap_Inr_iff list_all2_same)
  with w show ?case by simp
qed auto

text \<open>The same value up to its floats.\<close>

fun same_shape :: "json \<Rightarrow> json \<Rightarrow> bool" where
  "same_shape (JFloat x) w = (\<exists>y. w = JFloat y)"
| "same_shape (JDict d) w = (\<exists>d'. w = JDict d' \<and> list_all2 (\<lambda>(k, v) (k', v'). k = k' \<and> same_shape v v') d d')"
| "same_shape (JList xs) w = (\<exists>ys. w = JList ys \<and> list_all2 same_shape xs ys)"
| "same_shape v w = (w = v)"

lemma normalize_shape: "normalize_floats v p = Inr w \<Longrightarrow> same_shape v w"
proof (induction v p arbitrary: w rule: normalize_floats.induct)
  case (2 d p)
  then show ?case
    by (fastforce simp: map_sum_Inr_iff emap_Inr_iff elim!: list.rel_mono_strong)
next
  case (3 xs p)
  then show ?case by (auto simp: map_sum_Inr_iff emap_Inr_iff elim!: list.rel_mono_strong)
qed (auto simp: map_sum_Inr_iff)

lemma same_shape_depth: "same_shape v w \<Longrightarrow> depth w = depth v"
proof (induction v arbitrary: w rule: depth.induct)
  case (1 xs)
  then obtain ys where w: "w = JList ys" and l: "list_all2 same_shape xs ys" by auto
  have "map depth ys = map depth xs"
    using l "1.IH" unfolding list_all2_conv_all_nth by (intro nth_equalityI) auto
  with w show ?case by simp
next
  case (2 d)
  then obtain d' where w: "w = JDict d'" and l: "list_all2 (\<lambda>(k, v) (k', v'). k = k' \<and> same_shape v v') d d'" by auto
  have "map (\<lambda>(k, v). depth v) d' = map (\<lambda>(k, v). depth v) d"
  proof (rule nth_equalityI)
    show "length (map (\<lambda>(k, v). depth v) d') = length (map (\<lambda>(k, v). depth v) d)" using l by (simp add: list_all2_lengthD)
    fix i assume "i < length (map (\<lambda>(k, v). depth v) d')"
    then have i: "i < length d'" "i < length d" using l by (simp_all add: list_all2_lengthD)
    obtain k v k' v' where e: "d ! i = (k, v)" "d' ! i = (k', v')" by fastforce
    have "depth v' = depth v"
      using "2.IH" [OF nth_mem [OF i(2)] e(1) [symmetric]] list_all2_nthD [OF l i(2)] by (simp add: e)
    with i e show "map (\<lambda>(k, v). depth v) d' ! i = map (\<lambda>(k, v). depth v) d ! i" by simp
  qed
  with w show ?case by simp
qed auto

lemma normalize_returns: "0 \<le> p \<Longrightarrow> \<exists>w. normalize_floats v p = Inr w"
proof (induction v p rule: normalize_floats.induct)
  case (1 x p)
  then show ?case using py_round_returns [of p x] by (auto simp: map_sum_Inr_iff)
next
  case (2 d p)
  have "\<exists>d'. emap (\<lambda>(k, v). map_sum id (Pair k) (normalize_floats v p)) d = Inr d'"
    using 2 by (auto simp: emap_total map_sum_Inr_iff)
  then show ?case by auto
next
  case (3 xs p)
  have "\<exists>ys. emap (\<lambda>v. normalize_floats v p) xs = Inr ys"
    using 3 by (auto simp: emap_total)
  then show ?case by auto
qed auto

section \<open>Drift\<close>

text \<open>
  The result on a magnitude: no multiple of \<open>10 ^ -ndigits\<close> is nearer to the argument than \<open>q\<close>,
  and no double is nearer to \<open>q\<close> than the result.
\<close>

lemma double_round_nearest:
  assumes "double_round b p = Inr r"
  obtains q where "\<And>j. \<bar>int (units b * 10 ^ nat p) - int q * int (UNIT * 10 ^ nat (- p))\<bar>
      \<le> \<bar>int (units b * 10 ^ nat p) - j * int (UNIT * 10 ^ nat (- p))\<bar>"
    and "\<And>y. \<bar>int (q * (UNIT * 10 ^ nat (- p))) - int (10 ^ nat p) * int (units r)\<bar>
      \<le> \<bar>int (q * (UNIT * 10 ^ nat (- p))) - int (10 ^ nat p) * int (units y)\<bar>"
proof (rule that)
  note pos = double_round_params [of p]
  show "\<bar>int (units b * 10 ^ nat p) - int (div_half_even (units b * 10 ^ nat p) (UNIT * 10 ^ nat (- p))) * int (UNIT * 10 ^ nat (- p))\<bar>
      \<le> \<bar>int (units b * 10 ^ nat p) - j * int (UNIT * 10 ^ nat (- p))\<bar>" for j
    by (rule div_half_even_nearest(1) [OF pos(2)])
  have r: "r = nearest_bits (div_half_even (units b * 10 ^ nat p) (UNIT * 10 ^ nat (- p)) * (UNIT * 10 ^ nat (- p))) (10 ^ nat p)"
    using assms by (simp add: double_round_def Let_def split: if_splits)
  show "\<bar>int (div_half_even (units b * 10 ^ nat p) (UNIT * 10 ^ nat (- p)) * (UNIT * 10 ^ nat (- p))) - int (10 ^ nat p) * int (units r)\<bar>
      \<le> \<bar>int (div_half_even (units b * 10 ^ nat p) (UNIT * 10 ^ nat (- p)) * (UNIT * 10 ^ nat (- p))) - int (10 ^ nat p) * int (units y)\<bar>" for y
    unfolding r by (rule nearest_bits_nearest [OF pos(1)])
qed

text \<open>
  A finite double less than half a step from the decimal \<open>q * 10 ^ -p\<close>, and two values that
  differ in such doubles only.
\<close>

definition near_decimal :: "int \<Rightarrow> nat \<Rightarrow> 64 word \<Rightarrow> bool" where
  "near_decimal p q x \<longleftrightarrow>
     unat x mod 2 ^ 63 < INF_BITS \<and> - 308 \<le> p \<and> p \<le> 323
     \<and> 2 * \<bar>int (units (unat x mod 2 ^ 63) * 10 ^ nat p) - int q * int (UNIT * 10 ^ nat (- p))\<bar> < int (UNIT * 10 ^ nat (- p))"

inductive drift :: "int \<Rightarrow> json \<Rightarrow> json \<Rightarrow> bool" for p :: int where
  drift_same: "drift p v v"
| drift_float: "drift p (JFloat x) (JFloat y)"
    if "unat x div 2 ^ 63 = unat y div 2 ^ 63" and "near_decimal p q x" and "near_decimal p q y"
| drift_list: "drift p (JList xs) (JList ys)" if "list_all2 (drift p) xs ys"
| drift_dict: "drift p (JDict d) (JDict d')" if "list_all2 (rel_prod (=) (drift p)) d d'"

lemma py_round_near:
  assumes "near_decimal p q x"
  shows "py_round x p = map_sum id (\<lambda>r. word_of_nat (unat x div 2 ^ 63 * 2 ^ 63 + r))
    (let r = nearest_bits (q * (UNIT * 10 ^ nat (- p))) (10 ^ nat p)
     in if INF_BITS \<le> r then Inl (LibraryError ''OverflowError'') else Inr r)"
proof -
  have "div_half_even (units (unat x mod 2 ^ 63) * 10 ^ nat p) (UNIT * 10 ^ nat (- p)) = q"
    using assms by (intro div_half_even_unique [OF _ double_round_params(2)] disjI1) (simp only: near_decimal_def)
  with assms show ?thesis by (simp add: near_decimal_def py_round_def double_round_def Let_def)
qed

lemma emap_rel: "list_all2 (\<lambda>x y. f x = f y) xs ys \<Longrightarrow> emap f xs = emap f ys"
  by (induction xs ys rule: list_all2_induct) auto

lemma normalize_drift: "drift p v w \<Longrightarrow> normalize_floats v p = normalize_floats w p"
proof (induction rule: drift.induct)
  case (drift_float x y q)
  then show ?case by (simp add: py_round_near)
next
  case (drift_list xs ys)
  then have "list_all2 (\<lambda>x y. normalize_floats x p = normalize_floats y p) xs ys"
    by (auto elim: list.rel_mono_strong)
  from emap_rel [OF this] show ?case by simp
next
  case (drift_dict d d')
  let ?f = "\<lambda>(k, v). map_sum id (Pair k) (normalize_floats v p)"
  have "list_all2 (\<lambda>x y. ?f x = ?f y) d d'"
    using drift_dict by (rule list.rel_mono_strong) auto
  from emap_rel [OF this] show ?case by simp
qed simp

section \<open>Properties\<close>

text \<open>
  C34: \<open>normalize_floats\<close> is total and stable for a precision after the point, the default included.
  It never raises (rounding to fewer digits before the point can overflow), changes floats
  only, keeps keys and their order, leaves the verdict of the depth guard of \<open>canonical_json\<close> as it
  was, and gives a value that it leaves unchanged.
\<close>

theorem normalize_stable:
  assumes "0 \<le> precision"
  shows "\<exists>w. normalize_floats v precision = Inr w \<and> same_shape v w
    \<and> exceeds_depth w MAX_CANONICAL_DEPTH = exceeds_depth v MAX_CANONICAL_DEPTH
    \<and> normalize_floats w precision = Inr w"
proof -
  obtain w where w: "normalize_floats v precision = Inr w" using normalize_returns [OF assms] by blast
  note s = normalize_shape [OF w]
  with w normalize_again [OF w] same_shape_depth [OF s] show ?thesis by (auto simp: exceeds_depth_iff)
qed

text \<open>The tie 2.5 goes to 2.0, and -0.5 to -0.0.\<close>

lemma bit_length_eq: "2 ^ j \<le> n \<Longrightarrow> n < 2 ^ Suc j \<Longrightarrow> bit_length n = Suc j"
proof -
  assume n: "2 ^ j \<le> n" "n < 2 ^ Suc j"
  then have "0 < n" by (cases n) auto
  then have "2 ^ (bit_length n - 1) < (2 :: nat) ^ Suc j" "(2 :: nat) ^ j < 2 ^ bit_length n"
    using n bit_length_bounds [of n] by (simp_all add: le_less_trans)
  then have "bit_length n - 1 < Suc j" "j < bit_length n" by (simp_all only: power_strict_increasing_iff one_less_numeral_iff semiring_norm)
  then show ?thesis by simp
qed

lemma round_ties:
  "py_round 0x4004000000000000 0 = Inr 0x4000000000000000"
  "py_round 0xBFE0000000000000 0 = Inr 0x8000000000000000"
proof -
  have u: "units 0x4004000000000000 = 5 * 2 ^ 1073" "units 0x3FE0000000000000 = 2 ^ 1073"
    by (simp_all add: units_def)
  have half: "UNIT = 2 * 2 ^ 1073" unfolding UNIT_def power_Suc [symmetric] by simp
  have tie: "div_half_even (5 * h) (2 * h) = 2" "div_half_even h (2 * h) = 0" if "0 < h" for h :: nat
    by (rule div_half_even_unique; use that in simp)+
  have q: "div_half_even (5 * 2 ^ 1073) UNIT = 2" "div_half_even (2 ^ 1073) UNIT = 0"
    unfolding half by (rule tie; rule zero_less_power; simp)+
  have two: "2 * UNIT = 2 ^ 1075" "2 * UNIT = 2 ^ 52 * 2 ^ 1023"
    unfolding UNIT_def power_Suc [symmetric] power_add [symmetric] by simp_all
  have l: "bit_length (2 * UNIT) = Suc 1075"
    unfolding two(1) by (rule bit_length_eq) (rule order_refl, rule power_strict_increasing, simp_all)
  have whole: "div_half_even (2 ^ 52 * h) h = 2 ^ 52" if "0 < h" for h :: nat
    by (rule div_half_even_unique) (use that in simp_all)
  have "div_half_even (2 * UNIT) (1 * 2 ^ 1023) = 2 ^ 52"
    unfolding two(2) mult_1 by (rule whole) (rule zero_less_power, simp)
  then have n: "nearest_bits (2 * UNIT) 1 = 0x4000000000000000"
    unfolding nearest_bits_def div_by_1 l Let_def by simp
  have n0: "nearest_bits 0 1 = 0" by (simp add: nearest_bits_def bit_length.simps [of 0] div_half_even_def)
  have d0: "double_round b 0 = (let r = nearest_bits (div_half_even (units b) UNIT * UNIT) 1
      in if INF_BITS \<le> r then Inl (LibraryError ''OverflowError'') else Inr r)" for b
    by (simp add: double_round_def Let_def)
  have d: "double_round 0x4004000000000000 0 = Inr 0x4000000000000000" "double_round 0x3FE0000000000000 0 = Inr 0"
    by (simp_all only: d0 u q n n0 mult_0 Let_def) (simp_all add: INF_BITS_def)
  show "py_round 0x4004000000000000 0 = Inr 0x4000000000000000" "py_round 0xBFE0000000000000 0 = Inr 0x8000000000000000"
    by (simp_all add: py_round_def Let_def INF_BITS_def d)
qed

theorem normalize_stable_witness:
  "\<exists>w. normalize_floats (JDict [(''m'', JList [JFloat 0x4004000000000000, JInt 7])]) 0 = Inr w
     \<and> w = JDict [(''m'', JList [JFloat 0x4000000000000000, JInt 7])] \<and> normalize_floats w 0 = Inr w"
  using normalize_stable [of 0 "JDict [(''m'', JList [JFloat 0x4004000000000000, JInt 7])]"]
  by (simp add: round_ties)

text \<open>
  C33: \<open>normalize_floats\<close> absorbs drift.  Two values that differ only in finite doubles of the
  same sign, each pair less than half a step from one decimal of the precision, are normalized to
  the same value, so that they have the same canonical bytes and the same hash.
\<close>

theorem normalize_absorbs_drift:
  assumes "drift precision v w"
  shows "normalize_floats v precision = normalize_floats w precision
    \<and> ebind (normalize_floats v precision) (canonical_json jcs) = ebind (normalize_floats w precision) (canonical_json jcs)"
  using normalize_drift [OF assms] by simp

text \<open>0.123456789 and the double above it, at the default precision.\<close>

lemma near_example:
  "near_decimal 6 123457 0x3FBF9ADD3739635F" "near_decimal 6 123457 0x3FBF9ADD37396360"
proof -
  have unit: "UNIT = 2 ^ 56 * 2 ^ 1018" unfolding UNIT_def power_add [symmetric] by simp
  have u: "units 0x3FBF9ADD3739635F = 0x1F9ADD3739635F * 2 ^ 1018" "units 0x3FBF9ADD37396360 = 0x1F9ADD37396360 * 2 ^ 1018"
    by (simp_all add: units_def)
  have near: "2 * \<bar>int (m * h * 10 ^ nat 6) - int 123457 * int (2 ^ 56 * h * 10 ^ nat (- 6))\<bar> < int (2 ^ 56 * h * 10 ^ nat (- 6))"
    if "m \<in> {0x1F9ADD3739635F, 0x1F9ADD37396360}" and "0 < h" for m h :: nat
    using that by auto
  have pos: "(0 :: nat) < 2 ^ 1018" by (rule zero_less_power) simp
  have nd: "near_decimal 6 123457 x" if "unat x mod 2 ^ 63 = b" and "b < INF_BITS" and "units b = m * 2 ^ 1018"
      and "m \<in> {0x1F9ADD3739635F, 0x1F9ADD37396360}" for x b m
    unfolding near_decimal_def unit that(1,3) using that(2) near [OF that(4) pos]
    by (intro conjI) (assumption | simp)+
  show "near_decimal 6 123457 0x3FBF9ADD3739635F"
    by (rule nd [OF _ _ u(1)]) (simp_all add: INF_BITS_def)
  show "near_decimal 6 123457 0x3FBF9ADD37396360"
    by (rule nd [OF _ _ u(2)]) (simp_all add: INF_BITS_def)
qed

theorem normalize_absorbs_drift_witness:
  "normalize_floats (JList [JFloat 0x3FBF9ADD3739635F, JNull]) DEFAULT_PRECISION
   = normalize_floats (JList [JFloat 0x3FBF9ADD37396360, JNull]) DEFAULT_PRECISION"
proof -
  have "drift DEFAULT_PRECISION (JFloat 0x3FBF9ADD3739635F) (JFloat 0x3FBF9ADD37396360)"
    unfolding DEFAULT_PRECISION_def by (rule drift_float [OF _ near_example]) simp
  then have "drift DEFAULT_PRECISION (JList [JFloat 0x3FBF9ADD3739635F, JNull]) (JList [JFloat 0x3FBF9ADD37396360, JNull])"
    by (intro drift_list) (simp add: drift_same)
  from normalize_absorbs_drift [OF this] show ?thesis by blast
qed

end
