(* ===== verification/Bytes_Hex.thy ===== *)
theory Bytes_Hex
  imports Prelude
begin

text \<open>
  The byte codecs of the Python standard library that the kernel uses: \<open>bytes.hex\<close> and
  \<open>bytes.fromhex\<close>, and the kernel's own hexadecimal helper \<open>_hex_to_bytes\<close>
  (\<open>evidence.py\<close>).  The lemmas show that decoding inverts encoding, what lengths the
  decoders accept, and that \<open>bytes.fromhex\<close> skips ASCII whitespace between byte pairs.
\<close>

section \<open>Hexadecimal digits\<close>

definition hex_val :: "char \<Rightarrow> nat option" where
  "hex_val c =
     (let n = (of_char c :: nat)
      in if 48 \<le> n \<and> n \<le> 57 then Some (n - 48)
         else if 97 \<le> n \<and> n \<le> 102 then Some (n - 87)
         else if 65 \<le> n \<and> n \<le> 70 then Some (n - 55)
         else None)"

definition nibble_char :: "nat \<Rightarrow> char" where
  "nibble_char n = char_of (if n < 10 then 48 + n else 87 + n)"

definition is_space :: "char \<Rightarrow> bool" where
  "is_space c \<longleftrightarrow> (let n = (of_char c :: nat) in n = 32 \<or> (9 \<le> n \<and> n \<le> 13))"

lemma hex_val_nibble [simp]: "n < 16 \<Longrightarrow> hex_val (nibble_char n) = Some n"
  by (auto simp: hex_val_def nibble_char_def Let_def)

lemma hex_val_lt: "hex_val c = Some n \<Longrightarrow> n < 16"
  by (auto simp: hex_val_def Let_def split: if_splits)

lemma nibble_not_space [simp]: "n < 16 \<Longrightarrow> \<not> is_space (nibble_char n)"
  by (auto simp: is_space_def nibble_char_def Let_def)

lemma hex_val_not_space: "hex_val c = Some n \<Longrightarrow> \<not> is_space c"
  by (auto simp: hex_val_def is_space_def Let_def split: if_splits)

lemma lower_nibble [simp]: "n < 16 \<Longrightarrow> lower_char (nibble_char n) = nibble_char n"
  by (auto simp: lower_char_def nibble_char_def Let_def)

lemma nibble_hex_val: "hex_val c = Some n \<Longrightarrow> nibble_char n = lower_char c"
  by (auto simp: hex_val_def nibble_char_def lower_char_def Let_def split: if_splits)

lemma hex_val_lower [simp]: "hex_val (lower_char c) = hex_val c"
  by (auto simp: hex_val_def lower_char_def Let_def)

section \<open>bytes.hex and bytes.fromhex\<close>

definition hex_byte :: "byte \<Rightarrow> string" where
  "hex_byte b = [nibble_char (unat b div 16), nibble_char (unat b mod 16)]"

definition hex_encode :: "bytes \<Rightarrow> string" where
  "hex_encode bs = concat (map hex_byte bs)"

text \<open>
  \<open>bytes.fromhex\<close>: runs of ASCII whitespace are skipped before a byte, and a byte is two
  adjacent hexadecimal digits.  Everything else is a \<open>ValueError\<close>.
\<close>

fun fromhex :: "string \<Rightarrow> exc + bytes" where
  "fromhex [] = Inr []"
| "fromhex [c] = (if is_space c then Inr [] else Inl ValueError)"
| "fromhex (c # d # cs) =
     (if is_space c then fromhex (d # cs)
      else case hex_val c of
        None \<Rightarrow> Inl ValueError
      | Some t \<Rightarrow>
          (case hex_val d of
             None \<Rightarrow> Inl ValueError
           | Some b \<Rightarrow> ebind (fromhex cs) (\<lambda>bs. Inr (byte_of (16 * t + b) # bs))))"

lemma byte_div_lt [simp]: "unat (b :: byte) div 16 < 16"
  using unat_byte_lt [of b] by linarith

lemma byte_of_nibbles [simp]: "byte_of (16 * (unat b div 16) + unat b mod 16) = b"
  by (simp only: mult_div_mod_eq byte_of_unat)

lemma nibbles_byte_of [simp]:
  "t < 16 \<Longrightarrow> n < 16 \<Longrightarrow> unat (byte_of (16 * t + n)) = 16 * t + n"
  by (rule unat_byte_of) simp

lemma hex_encode_simps [simp]:
  "hex_encode [] = []"
  "hex_encode (b # bs) = nibble_char (unat b div 16) # nibble_char (unat b mod 16) # hex_encode bs"
  by (simp_all add: hex_encode_def hex_byte_def)

lemma hex_encode_append [simp]: "hex_encode (as @ bs) = hex_encode as @ hex_encode bs"
  by (simp add: hex_encode_def)

lemma length_hex_encode [simp]: "length (hex_encode bs) = 2 * length bs"
  by (induction bs) auto

lemma fromhex_hex_encode: "fromhex (hex_encode bs) = Inr bs"
  by (induction bs) auto

lemma lower_hex_encode [simp]: "lower (hex_encode bs) = hex_encode bs"
  by (induction bs) (auto simp: lower_def)

text \<open>Every way \<open>fromhex\<close> fails is a \<open>ValueError\<close>.\<close>

lemma fromhex_error: "fromhex s = Inl e \<Longrightarrow> e = ValueError"
  by (induction s rule: fromhex.induct) (auto simp: ebind_Inl_iff split: if_splits option.splits)

lemma fromhex_length: "fromhex s = Inr bs \<Longrightarrow> 2 * length bs \<le> length s"
  by (induction s arbitrary: bs rule: fromhex.induct)
    (fastforce simp: result_simps split: if_splits option.splits)+

text \<open>The decoded bytes depend only on the characters that are not whitespace.\<close>

lemma hex_encode_pair:
  assumes "hex_val c = Some t" and "hex_val d = Some b"
  shows "hex_encode (byte_of (16 * t + b) # bs) = lower_char c # lower_char d # hex_encode bs"
  using assms [THEN nibble_hex_val] assms [THEN hex_val_lt] by simp

lemma fromhex_strip:
  "fromhex s = Inr bs \<Longrightarrow> hex_encode bs = lower (filter (\<lambda>c. \<not> is_space c) s)"
  by (induction s arbitrary: bs rule: fromhex.induct)
    (auto simp: result_simps lower_def hex_encode_pair hex_val_not_space
      simp del: hex_encode_simps(2) split: if_splits option.splits)

text \<open>What a text decodes to, and what it is re-spelt as: its digits in lower case.\<close>

definition hex_digits_of :: "string \<Rightarrow> string" where
  "hex_digits_of s = lower (filter (\<lambda>c. \<not> is_space c) s)"

interpretation hex: canonical_codec hex_encode fromhex hex_digits_of
  by unfold_locales (simp_all add: fromhex_hex_encode fromhex_strip hex_digits_of_def)

section \<open>_hex_to_bytes\<close>

text \<open>
  \<open>_hex_to_bytes\<close> of \<open>evidence.py\<close>, on a string: an odd number of characters is
  refused, everything else is left to \<open>bytes.fromhex\<close>.
\<close>

definition hex_to_bytes :: "string \<Rightarrow> exc + bytes" where
  "hex_to_bytes h = (if odd (length h) then Inl ValueError else fromhex h)"

lemma hex_to_bytes_hex_encode [simp]: "hex_to_bytes (hex_encode bs) = Inr bs"
  by (simp add: hex_to_bytes_def fromhex_hex_encode)

lemma hex_to_bytes_error: "hex_to_bytes h = Inl e \<Longrightarrow> e = ValueError"
  by (auto simp: hex_to_bytes_def dest: fromhex_error split: if_splits)

lemma hex_to_bytes_strip: "hex_to_bytes h = Inr bs \<Longrightarrow> hex_encode bs = hex_digits_of h"
  by (auto simp: hex_to_bytes_def hex_digits_of_def result_simps dest: fromhex_strip)

interpretation hex_evidence: canonical_codec hex_encode hex_to_bytes hex_digits_of
  by unfold_locales (simp_all add: hex_to_bytes_strip)


section \<open>Properties\<close>



end
