(* ===== verification/Sha256.thy ===== *)
theory Sha256
  imports Prelude
begin

unbundle bit_operations_syntax

text \<open>
  \<open>hashlib.sha256\<close>, the hash function of the Python standard library (FIPS 180-4), on
  lists of bytes.  The kernel calls it in \<open>hash.py\<close>, \<open>merkle.py\<close> and \<open>rsa_pss.py\<close>.
  The other theories take the hash function as an argument and use the contract
  \<open>digest32\<close> at most; this theory provides the function and discharges the contract.
\<close>

section \<open>The contract of a 32-byte digest\<close>

locale digest32 =
  fixes h :: "bytes \<Rightarrow> bytes"
  assumes digest_length: "length (h x) = 32"
begin

lemma digest_not_Nil [simp]: "h x \<noteq> []"
  using digest_length [of x] by auto

lemma digest_prefix_unique:
  "h x @ s = h y @ t \<Longrightarrow> h x = h y \<and> s = t"
  by (rule append_eq_append_conv [THEN iffD1]) (simp_all add: digest_length)

end

section \<open>SHA-256\<close>

type_synonym u32 = "32 word"

text \<open>The 64 round constants, two to a 64-bit numeral, high half first.\<close>

definition sha_k_pairs :: "64 word list" where
  "sha_k_pairs =
    [0x428a2f9871374491, 0xb5c0fbcfe9b5dba5, 0x3956c25b59f111f1, 0x923f82a4ab1c5ed5,
     0xd807aa9812835b01, 0x243185be550c7dc3, 0x72be5d7480deb1fe, 0x9bdc06a7c19bf174,
     0xe49b69c1efbe4786, 0x0fc19dc6240ca1cc, 0x2de92c6f4a7484aa, 0x5cb0a9dc76f988da,
     0x983e5152a831c66d, 0xb00327c8bf597fc7, 0xc6e00bf3d5a79147, 0x06ca635114292967,
     0x27b70a852e1b2138, 0x4d2c6dfc53380d13, 0x650a7354766a0abb, 0x81c2c92e92722c85,
     0xa2bfe8a1a81a664b, 0xc24b8b70c76c51a3, 0xd192e819d6990624, 0xf40e3585106aa070,
     0x19a4c1161e376c08, 0x2748774c34b0bcb5, 0x391c0cb34ed8aa4a, 0x5b9cca4f682e6ff3,
     0x748f82ee78a5636f, 0x84c878148cc70208, 0x90befffaa4506ceb, 0xbef9a3f7c67178f2]"

definition sha_k :: "u32 list" where
  "sha_k = concat (map (\<lambda>p. [ucast (drop_bit 32 p), ucast p]) sha_k_pairs)"

datatype sha_state = ShaState u32 u32 u32 u32 u32 u32 u32 u32

definition sha_init :: sha_state where
  "sha_init = ShaState 0x6a09e667 0xbb67ae85 0x3c6ef372 0xa54ff53a 0x510e527f 0x9b05688c 0x1f83d9ab 0x5be0cd19"

definition rotr :: "nat \<Rightarrow> u32 \<Rightarrow> u32" where
  "rotr n x = drop_bit n x OR push_bit (32 - n) x"

fun sha_round :: "sha_state \<Rightarrow> u32 \<Rightarrow> u32 \<Rightarrow> sha_state" where
  "sha_round (ShaState a b c d e f g h) k w =
     (let s1 = rotr 6 e XOR rotr 11 e XOR rotr 25 e;
          ch = (e AND f) XOR (NOT e AND g);
          t1 = h + s1 + ch + k + w;
          s0 = rotr 2 a XOR rotr 13 a XOR rotr 22 a;
          mj = (a AND b) XOR (a AND c) XOR (b AND c);
          t2 = s0 + mj
      in ShaState (t1 + t2) a b c (d + t1) e f g)"

text \<open>The message schedule, most recent word first.\<close>

fun sha_extend :: "nat \<Rightarrow> u32 list \<Rightarrow> u32 list" where
  "sha_extend 0 ws = rev ws"
| "sha_extend (Suc n) ws =
     (let w15 = ws ! 14; w2 = ws ! 1;
          s0 = rotr 7 w15 XOR rotr 18 w15 XOR drop_bit 3 w15;
          s1 = rotr 17 w2 XOR rotr 19 w2 XOR drop_bit 10 w2
      in sha_extend n ((ws ! 15 + s0 + ws ! 6 + s1) # ws))"

fun sha_rounds :: "sha_state \<Rightarrow> u32 list \<Rightarrow> u32 list \<Rightarrow> sha_state" where
  "sha_rounds s (k # ks) (w # ws) = sha_rounds (sha_round s k w) ks ws"
| "sha_rounds s _ _ = s"

fun sha_add :: "sha_state \<Rightarrow> sha_state \<Rightarrow> sha_state" where
  "sha_add (ShaState a b c d e f g h) (ShaState a' b' c' d' e' f' g' h') =
     ShaState (a + a') (b + b') (c + c') (d + d') (e + e') (f + f') (g + g') (h + h')"

fun be_words :: "bytes \<Rightarrow> u32 list" where
  "be_words (a # b # c # d # rest) =
     (push_bit 24 (ucast a) OR push_bit 16 (ucast b) OR push_bit 8 (ucast c) OR ucast d) # be_words rest"
| "be_words _ = []"

definition word_bytes :: "u32 \<Rightarrow> bytes" where
  "word_bytes w = [ucast (drop_bit 24 w), ucast (drop_bit 16 w), ucast (drop_bit 8 w), ucast w]"

fun state_bytes :: "sha_state \<Rightarrow> bytes" where
  "state_bytes (ShaState a b c d e f g h) = concat (map word_bytes [a, b, c, d, e, f, g, h])"

definition sha_block :: "sha_state \<Rightarrow> bytes \<Rightarrow> sha_state" where
  "sha_block s blk = sha_add s (sha_rounds s sha_k (sha_extend 48 (rev (be_words blk))))"

text \<open>The 64-bit big-endian length field, and the padding up to a multiple of 64 bytes.\<close>

definition be_bytes8 :: "nat \<Rightarrow> bytes" where
  "be_bytes8 n = map (\<lambda>i. byte_of (n div 256 ^ i mod 256)) [7, 6, 5, 4, 3, 2, 1, 0]"

definition sha_pad :: "bytes \<Rightarrow> bytes" where
  "sha_pad m =
     m @ [0x80] @ replicate ((119 - length m mod 64) mod 64) 0 @ be_bytes8 (8 * length m)"

fun sha_blocks :: "nat \<Rightarrow> sha_state \<Rightarrow> bytes \<Rightarrow> sha_state" where
  "sha_blocks 0 s m = s"
| "sha_blocks (Suc n) s m = sha_blocks n (sha_block s (take 64 m)) (drop 64 m)"

definition sha256 :: "bytes \<Rightarrow> bytes" where
  "sha256 m =
     (let p = sha_pad m in state_bytes (sha_blocks (length p div 64) sha_init p))"

lemma length_state_bytes: "length (state_bytes s) = 32"
  by (cases s) (simp add: word_bytes_def)

lemma length_sha256: "length (sha256 m) = 32"
  by (simp add: sha256_def Let_def length_state_bytes)

interpretation sha256: digest32 sha256
  by unfold_locales (rule length_sha256)

text \<open>The padded message is a whole number of blocks, so no byte is left unread.\<close>

lemma pad_count: "(n + 9 + (119 - n mod 64) mod 64) mod 64 = (0 :: nat)"
proof -
  define q r where "q = n div 64" and "r = n mod 64"
  then have n: "n = 64 * q + r" and r: "r < 64" by simp_all
  have "n mod 64 = r" using n r by simp
  moreover have "(64 * q + r + 9 + (119 - r) mod 64) mod 64 = (r + 9 + (119 - r) mod 64) mod 64"
    by (simp only: add.assoc mod_mult_self4)
  moreover have "(r + 9 + (119 - r) mod 64) mod 64 = 0"
  proof (cases "r \<le> 55")
    case True
    then have "(119 - r) mod 64 = (55 - r) mod 64" by (simp add: le_mod_geq)
    then have "(119 - r) mod 64 = 55 - r" using True by simp
    then show ?thesis using True by simp
  next
    case False
    then have "(119 - r) mod 64 = 119 - r" using r by simp
    then show ?thesis using r by simp
  qed
  ultimately show ?thesis using n by simp
qed

lemma length_sha_pad: "length (sha_pad m) = length m + 9 + (119 - length m mod 64) mod 64"
  by (simp add: sha_pad_def be_bytes8_def)

lemma sha_pad_blocks: "64 dvd length (sha_pad m)"
  unfolding length_sha_pad dvd_eq_mod_eq_0 by (rule pad_count)

text \<open>
  A second digest, cheap to evaluate, for the worked instances of the properties: the first
  32 bytes of the input.
\<close>

definition toy_hash :: "bytes \<Rightarrow> bytes" where
  "toy_hash x = take 32 (x @ replicate 32 0)"

interpretation toy_hash: digest32 toy_hash
  by unfold_locales (simp add: toy_hash_def)

end
