(* ===== verification/Merkle.thy ===== *)
theory Merkle
  imports Sha256
begin

text \<open>
  \<open>merkle.py\<close>: the RFC 9162 binary Merkle tree.  The hash function is the argument
  \<open>h\<close> (\<open>hashlib.sha256\<close> in the code).  The lemmas relate the bottom-up verification loop
  to the top-down tree: an audit path built for a leaf is accepted (completeness), it is the
  only accepted path for its position, and whatever is accepted under an honest root is a
  member of the tree, up to a hash collision among the strings hashed (soundness).
\<close>

section \<open>The definitions of merkle.py\<close>

definition leaf_hash :: "(bytes \<Rightarrow> bytes) \<Rightarrow> bytes \<Rightarrow> bytes" where
  "leaf_hash h leaf_bytes = h (0x00 # leaf_bytes)"

definition node_hash :: "(bytes \<Rightarrow> bytes) \<Rightarrow> bytes \<Rightarrow> bytes \<Rightarrow> bytes" where
  "node_hash h left right = h (0x01 # left @ right)"

text \<open>\<open>while k * 2 < n: k *= 2\<close>, then \<open>_largest_pow2_less_than\<close>.\<close>

function pow2_loop :: "nat \<Rightarrow> nat \<Rightarrow> nat" where
  "pow2_loop n k = (if 0 < k \<and> k * 2 < n then pow2_loop n (k * 2) else k)"
  by pat_completeness auto
termination
  by (relation "measure (\<lambda>(n, k). n - k)") auto

declare pow2_loop.simps [simp del]

definition largest_pow2_less_than :: "nat \<Rightarrow> nat" where
  "largest_pow2_less_than n = (if n < 2 then 0 else pow2_loop n 1)"

lemma pow2_loop_spec:
  "0 < k \<Longrightarrow> k < n \<Longrightarrow> \<exists>a. pow2_loop n k = k * 2 ^ a \<and> k * 2 ^ a < n \<and> n \<le> k * 2 ^ Suc a"
proof (induction n k rule: pow2_loop.induct)
  case (1 n k)
  show ?case
  proof (cases "k * 2 < n")
    case True
    with 1 obtain a where
      "pow2_loop n (k * 2) = k * 2 * 2 ^ a \<and> k * 2 * 2 ^ a < n \<and> n \<le> k * 2 * 2 ^ Suc a"
      by auto
    then have "pow2_loop n k = k * 2 ^ Suc a \<and> k * 2 ^ Suc a < n \<and> n \<le> k * 2 ^ Suc (Suc a)"
      using True "1.prems"(1) by (subst pow2_loop.simps) (simp add: mult.assoc)
    then show ?thesis by blast
  next
    case False
    then have "pow2_loop n k = k * 2 ^ 0 \<and> k * 2 ^ 0 < n \<and> n \<le> k * 2 ^ Suc 0"
      using "1.prems" by (subst pow2_loop.simps) simp
    then show ?thesis by blast
  qed
qed

lemma largest_pow2_spec:
  assumes "2 \<le> n"
  obtains a where "largest_pow2_less_than n = 2 ^ a" and "2 ^ a < n" and "n \<le> 2 ^ Suc a"
  using pow2_loop_spec [of 1 n] assms by (auto simp: largest_pow2_less_than_def)

lemma largest_pow2_bounds [simp]:
  "2 \<le> n \<Longrightarrow> 0 < largest_pow2_less_than n"
  "2 \<le> n \<Longrightarrow> largest_pow2_less_than n < n"
  by (auto elim: largest_pow2_spec)

lemma split_decreases:
  assumes "xs \<noteq> []" and "length xs \<noteq> Suc 0"
  shows "min (length xs) (largest_pow2_less_than (length xs)) < length xs"
    and "length xs - largest_pow2_less_than (length xs) < length xs"
proof -
  have "2 \<le> length xs" using assms by (cases xs) (auto simp: Suc_le_eq)
  from largest_pow2_bounds [OF this] show
    "min (length xs) (largest_pow2_less_than (length xs)) < length xs"
    "length xs - largest_pow2_less_than (length xs) < length xs" by linarith+
qed

function merkle_root :: "(bytes \<Rightarrow> bytes) \<Rightarrow> bytes list \<Rightarrow> bytes" where
  "merkle_root h leaf_hashes =
     (let n = length leaf_hashes
      in if n = 0 then h []
         else if n = 1 then leaf_hashes ! 0
         else let k = largest_pow2_less_than n
              in node_hash h (merkle_root h (take k leaf_hashes)) (merkle_root h (drop k leaf_hashes)))"
  by pat_completeness auto
termination
  by (relation "measure (\<lambda>(h, xs). length xs)") (auto simp: split_decreases)

function audit_path_rec :: "(bytes \<Rightarrow> bytes) \<Rightarrow> nat \<Rightarrow> bytes list \<Rightarrow> bytes list" where
  "audit_path_rec h m leaf_hashes =
     (let n = length leaf_hashes
      in if n = 0 \<or> n = 1 then []
         else let k = largest_pow2_less_than n
              in if m < k
                 then audit_path_rec h m (take k leaf_hashes) @ [merkle_root h (drop k leaf_hashes)]
                 else audit_path_rec h (m - k) (drop k leaf_hashes) @ [merkle_root h (take k leaf_hashes)])"
  by pat_completeness auto
termination
  by (relation "measure (\<lambda>(h, m, xs). length xs)") (auto simp: split_decreases)

declare merkle_root.simps [simp del] audit_path_rec.simps [simp del]

definition audit_path :: "(bytes \<Rightarrow> bytes) \<Rightarrow> int \<Rightarrow> bytes list \<Rightarrow> exc + bytes list" where
  "audit_path h m leaf_hashes =
     (if m < 0 \<or> int (length leaf_hashes) \<le> m then Inl IndexError
      else Inr (audit_path_rec h (nat m) leaf_hashes))"

text \<open>The inner loop \<open>while fn & 1 == 0 and fn != 0\<close>.\<close>

function strip_loop :: "nat \<Rightarrow> nat \<Rightarrow> nat \<times> nat" where
  "strip_loop fn sn = (if even fn \<and> fn \<noteq> 0 then strip_loop (fn div 2) (sn div 2) else (fn, sn))"
  by pat_completeness auto
termination
  by (relation "measure fst") auto

declare strip_loop.simps [simp del]

text \<open>
  The body of \<open>for p in path\<close>: \<open>None\<close> is the \<open>return False\<close> on a path longer than the
  tree is deep.
\<close>

definition inclusion_step ::
  "(bytes \<Rightarrow> bytes) \<Rightarrow> nat \<times> nat \<times> bytes \<Rightarrow> bytes \<Rightarrow> (nat \<times> nat \<times> bytes) option" where
  "inclusion_step h st p =
     (case st of (fn, sn, r) \<Rightarrow>
        if sn = 0 then None
        else if odd fn \<or> fn = sn
        then let r' = node_hash h p r;
                 (fn', sn') = (if even fn then strip_loop fn sn else (fn, sn))
             in Some (fn' div 2, sn' div 2, r')
        else Some (fn div 2, sn div 2, node_hash h r p))"

fun inclusion_loop ::
  "(bytes \<Rightarrow> bytes) \<Rightarrow> nat \<times> nat \<times> bytes \<Rightarrow> bytes list \<Rightarrow> (nat \<times> nat \<times> bytes) option" where
  "inclusion_loop h st [] = Some st"
| "inclusion_loop h st (p # ps) =
     (case inclusion_step h st p of None \<Rightarrow> None | Some st' \<Rightarrow> inclusion_loop h st' ps)"

definition verify_inclusion ::
  "(bytes \<Rightarrow> bytes) \<Rightarrow> bytes \<Rightarrow> int \<Rightarrow> int \<Rightarrow> bytes list \<Rightarrow> bytes \<Rightarrow> bool" where
  "verify_inclusion h leaf leaf_index total_leaves path expected_root =
     (if leaf_index < 0 \<or> total_leaves \<le> leaf_index \<or> total_leaves = 0 then False
      else if total_leaves = 1 then path = [] \<and> leaf = expected_root
      else case inclusion_loop h (nat leaf_index, nat (total_leaves - 1), leaf) path of
             None \<Rightarrow> False
           | Some (fn, sn, r) \<Rightarrow> sn = 0 \<and> r = expected_root)"

section \<open>The tree\<close>

lemma merkle_root_simps [simp]:
  "merkle_root h [] = h []"
  "merkle_root h [x] = x"
  by (simp_all add: merkle_root.simps)

lemma merkle_root_split:
  "2 \<le> length xs \<Longrightarrow> k = largest_pow2_less_than (length xs) \<Longrightarrow>
   merkle_root h xs = node_hash h (merkle_root h (take k xs)) (merkle_root h (drop k xs))"
  by (subst merkle_root.simps) (cases xs, auto simp: Let_def)

lemma audit_path_rec_simps [simp]:
  "length xs \<le> 1 \<Longrightarrow> audit_path_rec h m xs = []"
  by (subst audit_path_rec.simps) (cases xs, auto)

lemma audit_path_rec_left:
  "2 \<le> length xs \<Longrightarrow> k = largest_pow2_less_than (length xs) \<Longrightarrow> m < k \<Longrightarrow>
   audit_path_rec h m xs = audit_path_rec h m (take k xs) @ [merkle_root h (drop k xs)]"
  by (subst audit_path_rec.simps) (cases xs, auto simp: Let_def)

lemma audit_path_rec_right:
  "2 \<le> length xs \<Longrightarrow> k = largest_pow2_less_than (length xs) \<Longrightarrow> k \<le> m \<Longrightarrow>
   audit_path_rec h m xs = audit_path_rec h (m - k) (drop k xs) @ [merkle_root h (take k xs)]"
  by (subst audit_path_rec.simps) (cases xs, auto simp: Let_def)

lemma largest_pow2_pow2: "largest_pow2_less_than (2 ^ Suc a) = 2 ^ a"
proof -
  have "(2::nat) \<le> 2 ^ Suc a" by simp
  then obtain b where b: "largest_pow2_less_than (2 ^ Suc a) = 2 ^ b"
    and lt: "(2::nat) ^ b < 2 ^ Suc a" and le: "(2::nat) ^ Suc a \<le> 2 ^ Suc b"
    by (rule largest_pow2_spec)
  from lt have "b < Suc a" by (simp only: power_strict_increasing_iff)
  moreover from le have "Suc a \<le> Suc b" by (simp only: power_increasing_iff)
  ultimately have "b = a" by simp
  with b show ?thesis by simp
qed

section \<open>The loop over a path\<close>

lemma inclusion_loop_append:
  "inclusion_loop h st (ps @ qs) =
     (case inclusion_loop h st ps of None \<Rightarrow> None | Some st' \<Rightarrow> inclusion_loop h st' qs)"
  by (induction ps arbitrary: st) (auto split: option.splits)

lemma strip_loop_pow2: "odd q \<Longrightarrow> strip_loop (q * 2 ^ j) (q * 2 ^ j) = (q, q)"
proof (induction j)
  case 0
  then show ?case by (simp add: strip_loop.simps)
next
  case (Suc j)
  then show ?case by (subst strip_loop.simps) (auto simp: odd_pos)
qed

text \<open>A step inside a subtree that is not the last one of its level.\<close>

lemma inclusion_step_left:
  "even q \<Longrightarrow> q < s \<Longrightarrow> inclusion_step h (q, s, r) p = Some (q div 2, s div 2, node_hash h r p)"
  by (auto simp: inclusion_step_def)

lemma inclusion_step_right:
  "odd q \<Longrightarrow> q \<le> s \<Longrightarrow> inclusion_step h (q, s, r) p = Some (q div 2, s div 2, node_hash h p r)"
  using odd_pos [of q] by (auto simp: inclusion_step_def)

text \<open>The step that joins the last subtree of its level with its left sibling.\<close>

lemma inclusion_step_last:
  assumes "odd q"
  shows "inclusion_step h (q * 2 ^ j, q * 2 ^ j, r) p = Some (q div 2, q div 2, node_hash h p r)"
  using assms strip_loop_pow2 [OF assms, of j] odd_pos [OF assms]
  by (cases j) (auto simp: inclusion_step_def)

text \<open>
  A complete subtree of \<open>2 ^ a\<close> leaves at position \<open>q\<close> of its level, with something to its
  right: the loop consumes its path and climbs exactly \<open>a\<close> levels.
\<close>

lemma inclusion_loop_complete:
  "length xs = 2 ^ a \<Longrightarrow> m < 2 ^ a \<Longrightarrow> q < s div 2 ^ a \<Longrightarrow>
   inclusion_loop h (q * 2 ^ a + m, s, xs ! m) (audit_path_rec h m xs)
     = Some (q, s div 2 ^ a, merkle_root h xs)"
proof (induction a arbitrary: xs m q)
  case 0
  then obtain x where "xs = [x]" by (auto simp: length_Suc_conv)
  with 0 show ?case by simp
next
  case (Suc a)
  let ?k = "2 ^ a :: nat"
  have len: "2 \<le> length xs" using Suc.prems(1) by simp
  have k: "?k = largest_pow2_less_than (length xs)"
    by (simp only: Suc.prems(1) largest_pow2_pow2)
  have lens: "length (take ?k xs) = ?k" "length (drop ?k xs) = ?k"
    using Suc.prems(1) by simp_all
  note root = merkle_root_split [OF len k, of h]
  have s: "s div 2 ^ Suc a = s div ?k div 2" by (simp only: power_Suc2 div_mult2_eq)
  show ?case
  proof (cases "m < ?k")
    case True
    have "2 * q < s div ?k" using Suc.prems(3) s by linarith
    from Suc.IH [OF lens(1) True this] True
    have "inclusion_loop h (q * 2 ^ Suc a + m, s, xs ! m) (audit_path_rec h m (take ?k xs))
        = Some (2 * q, s div ?k, merkle_root h (take ?k xs))"
      by (simp add: ac_simps)
    then show ?thesis
      using \<open>2 * q < s div ?k\<close> s
      by (simp add: audit_path_rec_left [OF len k True] inclusion_loop_append
          inclusion_step_left root)
  next
    case False
    have m: "m - ?k < ?k" using False Suc.prems(2) by simp
    have lt: "2 * q + 1 < s div ?k"
      using Suc.prems(3) s by linarith
    from Suc.IH [OF lens(2) m lt] False
    have "inclusion_loop h (q * 2 ^ Suc a + m, s, xs ! m) (audit_path_rec h (m - ?k) (drop ?k xs))
        = Some (2 * q + 1, s div ?k, merkle_root h (drop ?k xs))"
      by (simp add: ac_simps Suc.prems(1))
    then show ?thesis
      using lt s False
      by (simp add: audit_path_rec_right [OF len k] inclusion_loop_append
          inclusion_step_right root)
  qed
qed

text \<open>
  The last subtree of its level, of any size up to \<open>2 ^ c\<close>: the loop ends on the left edge
  of the subtree's slot, at some level \<open>j\<close> of it, with \<open>fn = sn\<close>.
\<close>

lemma inclusion_loop_last:
  "m < length xs \<Longrightarrow> length xs \<le> 2 ^ c \<Longrightarrow>
   \<exists>j. inclusion_loop h (q * 2 ^ c + m, q * 2 ^ c + length xs - 1, xs ! m) (audit_path_rec h m xs)
     = Some (q * 2 ^ j, q * 2 ^ j, merkle_root h xs)"
proof (induction "length xs" arbitrary: xs m q c rule: less_induct)
  case less
  show ?case
  proof (cases "length xs = 1")
    case True
    then obtain x where "xs = [x]" by (auto simp: length_Suc_conv)
    with less.prems show ?thesis by auto
  next
    case False
    with less.prems have len: "2 \<le> length xs" by linarith
    obtain a where a: "largest_pow2_less_than (length xs) = 2 ^ a"
      and lo: "2 ^ a < length xs" and hi: "length xs \<le> 2 ^ Suc a"
      using len by (rule largest_pow2_spec)
    let ?k = "2 ^ a :: nat"
    have k: "?k = largest_pow2_less_than (length xs)" by (simp only: a)
    note root = merkle_root_split [OF len k, of h]
    have "(2::nat) ^ a < 2 ^ c" using lo less.prems(2) by linarith
    then obtain d where c: "c = a + Suc d"
      by (metis less_iff_Suc_add add_Suc_right nat_power_less_imp_less zero_less_numeral)
    define e where "e = q * 2 ^ d"
    have qc: "q * 2 ^ c = (2 * e) * ?k" by (simp add: c e_def power_add)
    have sn: "(q * 2 ^ c + length xs - 1) div ?k = 2 * e + 1"
      using lo hi by (intro div_nat_eqI) (simp_all add: qc algebra_simps)
    show ?thesis
    proof (cases "m < ?k")
      case True
      have "inclusion_loop h (q * 2 ^ c + m, q * 2 ^ c + length xs - 1, xs ! m)
              (audit_path_rec h m (take ?k xs))
          = Some (2 * e, 2 * e + 1, merkle_root h (take ?k xs))"
        using inclusion_loop_complete [of "take ?k xs" a m "2 * e" "q * 2 ^ c + length xs - 1" h]
          True lo sn by (simp add: qc)
      then have "inclusion_loop h (q * 2 ^ c + m, q * 2 ^ c + length xs - 1, xs ! m)
              (audit_path_rec h m xs) = Some (q * 2 ^ d, q * 2 ^ d, merkle_root h xs)"
        by (simp add: audit_path_rec_left [OF len k True] inclusion_loop_append
            inclusion_step_left root e_def)
      then show ?thesis by blast
    next
      case False
      have lens: "m - ?k < length (drop ?k xs)" "length (drop ?k xs) \<le> 2 ^ a"
        "length (drop ?k xs) < length xs"
        using False less.prems(1) lo hi by simp_all
      have fn: "(2 * e + 1) * ?k + (m - ?k) = q * 2 ^ c + m"
        using False by (simp add: qc algebra_simps)
      have sn': "(2 * e + 1) * ?k + length (drop ?k xs) - 1 = q * 2 ^ c + length xs - 1"
        using lo by (simp add: qc algebra_simps)
      have nth: "drop ?k xs ! (m - ?k) = xs ! m" using False lo by simp
      obtain j where
        "inclusion_loop h (q * 2 ^ c + m, q * 2 ^ c + length xs - 1, xs ! m)
              (audit_path_rec h (m - ?k) (drop ?k xs))
          = Some ((2 * e + 1) * 2 ^ j, (2 * e + 1) * 2 ^ j, merkle_root h (drop ?k xs))"
        using less.hyps [OF lens(3) lens(1,2), of "2 * e + 1"] unfolding fn sn' nth by blast
      then have "inclusion_loop h (q * 2 ^ c + m, q * 2 ^ c + length xs - 1, xs ! m)
              (audit_path_rec h m xs) = Some (q * 2 ^ d, q * 2 ^ d, merkle_root h xs)"
        using inclusion_step_last [of "2 * e + 1" h j] False
        by (simp add: audit_path_rec_right [OF len k] inclusion_loop_append root e_def)
      then show ?thesis by blast
    qed
  qed
qed

text \<open>For a whole tree the slot is the whole line of leaves and the loop ends at the root.\<close>

lemma inclusion_loop_tree:
  assumes "m < length xs"
  shows "inclusion_loop h (m, length xs - 1, xs ! m) (audit_path_rec h m xs)
           = Some (0, 0, merkle_root h xs)"
proof -
  have "length xs \<le> 2 ^ length xs" by (simp add: less_imp_le)
  from inclusion_loop_last [OF assms this, of h 0] show ?thesis by auto
qed

lemma verify_inclusion_audit_path:
  assumes "m < length xs"
  shows "verify_inclusion h (xs ! m) (int m) (int (length xs)) (audit_path_rec h m xs)
           (merkle_root h xs)"
proof (cases "length xs = 1")
  case True
  then obtain x where "xs = [x]" by (auto simp: length_Suc_conv)
  with assms show ?thesis by (simp add: verify_inclusion_def)
next
  case False
  then show ?thesis
    using inclusion_loop_tree [OF assms, of h] assms
    by (auto simp: verify_inclusion_def nat_diff_distrib')
qed

section \<open>What is accepted\<close>

text \<open>The string hashed by a step, and by all the steps of a run.\<close>

definition step_input :: "nat \<times> nat \<times> bytes \<Rightarrow> bytes \<Rightarrow> bytes" where
  "step_input st p = (case st of (fn, sn, r) \<Rightarrow> if odd fn \<or> fn = sn then 0x01 # p @ r else 0x01 # r @ p)"

definition next_index :: "nat \<Rightarrow> nat \<Rightarrow> nat \<times> nat" where
  "next_index fn sn =
     (let (fn', sn') = (if even fn \<and> fn = sn then strip_loop fn sn else (fn, sn))
      in (fn' div 2, sn' div 2))"

lemma inclusion_step_eq:
  "inclusion_step h (fn, sn, r) p =
     (if sn = 0 then None
      else Some (fst (next_index fn sn), snd (next_index fn sn), h (step_input (fn, sn, r) p)))"
  by (auto simp: inclusion_step_def next_index_def step_input_def node_hash_def split: prod.splits)

fun loop_inputs :: "(bytes \<Rightarrow> bytes) \<Rightarrow> nat \<times> nat \<times> bytes \<Rightarrow> bytes list \<Rightarrow> bytes list" where
  "loop_inputs h st [] = []"
| "loop_inputs h st (p # ps) =
     step_input st p # (case inclusion_step h st p of None \<Rightarrow> [] | Some st' \<Rightarrow> loop_inputs h st' ps)"

lemma verify_inclusion_iff:
  "verify_inclusion h leaf i n path root \<longleftrightarrow>
     0 \<le> i \<and> i < n \<and> (\<exists>fn. inclusion_loop h (nat i, nat (n - 1), leaf) path = Some (fn, 0, root))"
proof (cases "0 \<le> i \<and> i < n \<and> n = 1")
  case True
  then show ?thesis by (cases path) (auto simp: verify_inclusion_def inclusion_step_eq)
next
  case False
  then show ?thesis by (auto simp: verify_inclusion_def split: option.splits)
qed

text \<open>Two different strings of \<open>S\<close> with the same hash.\<close>

definition collision :: "(bytes \<Rightarrow> bytes) \<Rightarrow> bytes list \<Rightarrow> bool" where
  "collision h S \<longleftrightarrow> (\<exists>x \<in> set S. \<exists>y \<in> set S. x \<noteq> y \<and> h x = h y)"

lemma no_collisionD: "\<not> collision h S \<Longrightarrow> h x = h y \<Longrightarrow> x \<in> set S \<Longrightarrow> y \<in> set S \<Longrightarrow> x = y"
  by (auto simp: collision_def)

lemma collision_mono: "collision h S \<Longrightarrow> set S \<subseteq> set T \<Longrightarrow> collision h T"
  by (auto simp: collision_def)

text \<open>With a 32-byte current hash, the hashed string determines the hash and its sibling.\<close>

lemma step_input_inject:
  "length r = length r' \<Longrightarrow>
   step_input (fn, sn, r) p = step_input (fn, sn, r') p' \<longleftrightarrow> r = r' \<and> p = p'"
  by (auto simp: step_input_def)

context digest32
begin

text \<open>The binding of position, leaf and path to the root.\<close>

lemma loop_binding:
  assumes "inclusion_loop h (fn, sn, r) ps = Some (f, 0, root)"
    and "inclusion_loop h (fn, sn, r') ps' = Some (f', 0, root)"
    and "length r = 32" and "length r' = 32"
    and "\<not> collision h (loop_inputs h (fn, sn, r) ps @ loop_inputs h (fn, sn, r') ps')"
  shows "r = r' \<and> ps = ps'"
  using assms
proof (induction ps arbitrary: fn sn r r' ps')
  case Nil
  then show ?case by (cases ps') (auto simp: inclusion_step_eq)
next
  case (Cons p ps)
  from Cons.prems(1) have sn: "sn \<noteq> 0" by (cases "sn = 0") (simp_all add: inclusion_step_eq)
  with Cons.prems(2) obtain p' qs where ps': "ps' = p' # qs" by (cases ps') auto
  obtain fn' sn' where nx: "next_index fn sn = (fn', sn')" by fastforce
  let ?x = "step_input (fn, sn, r) p" and ?x' = "step_input (fn, sn, r') p'"
  have runs: "inclusion_loop h (fn', sn', h ?x) ps = Some (f, 0, root)"
    "inclusion_loop h (fn', sn', h ?x') qs = Some (f', 0, root)"
    using Cons.prems(1,2) sn by (simp_all add: ps' inclusion_step_eq nx)
  have inputs: "set (loop_inputs h (fn', sn', h ?x) ps @ loop_inputs h (fn', sn', h ?x') qs) \<union> {?x, ?x'}
      \<subseteq> set (loop_inputs h (fn, sn, r) (p # ps) @ loop_inputs h (fn, sn, r') ps')"
    using sn by (auto simp: ps' inclusion_step_eq nx)
  then have "\<not> collision h (loop_inputs h (fn', sn', h ?x) ps @ loop_inputs h (fn', sn', h ?x') qs)"
    using Cons.prems(5) collision_mono by blast
  from Cons.IH [OF runs digest_length digest_length this]
  have "h ?x = h ?x'" and "ps = qs" by auto
  moreover from this(1) Cons.prems(5) inputs have "?x = ?x'"
    using no_collisionD by blast
  ultimately show ?case
    using Cons.prems(3,4) by (simp add: ps' step_input_inject)
qed

lemma verify_inclusion_binding:
  assumes "verify_inclusion h leaf i n path root" and "verify_inclusion h leaf' i n path' root"
    and "length leaf = 32" and "length leaf' = 32"
    and "\<not> collision h (loop_inputs h (nat i, nat (n - 1), leaf) path
                        @ loop_inputs h (nat i, nat (n - 1), leaf') path')"
  shows "leaf = leaf' \<and> path = path'"
  using assms loop_binding unfolding verify_inclusion_iff by blast

end

text \<open>The hashes of a tree's nodes and the strings hashed to compute them.\<close>

function tree_nodes :: "(bytes \<Rightarrow> bytes) \<Rightarrow> bytes list \<Rightarrow> bytes list" where
  "tree_nodes h xs =
     (if length xs = 0 \<or> length xs = 1 then [merkle_root h xs]
      else let k = largest_pow2_less_than (length xs)
           in merkle_root h xs # tree_nodes h (take k xs) @ tree_nodes h (drop k xs))"
  by pat_completeness auto
termination
  by (relation "measure (\<lambda>(h, xs). length xs)") (auto simp: split_decreases)

function tree_inputs :: "(bytes \<Rightarrow> bytes) \<Rightarrow> bytes list \<Rightarrow> bytes list" where
  "tree_inputs h xs =
     (if length xs = 0 then [[]]
      else if length xs = 1 then []
      else let k = largest_pow2_less_than (length xs);
               l = take k xs; r = drop k xs
           in (0x01 # merkle_root h l @ merkle_root h r) # tree_inputs h l @ tree_inputs h r)"
  by pat_completeness auto
termination
  by (relation "measure (\<lambda>(h, xs). length xs)") (auto simp: split_decreases)

declare tree_nodes.simps [simp del] tree_inputs.simps [simp del]

lemma merkle_root_in_nodes [simp]: "merkle_root h xs \<in> set (tree_nodes h xs)"
  by (subst tree_nodes.simps) (auto simp: Let_def)

text \<open>A node is a leaf, the root of the empty tree, or the hash of two nodes.\<close>

lemma tree_nodes_cases:
  "v \<in> set (tree_nodes h xs) \<Longrightarrow>
   v \<in> set xs \<or> v = h [] \<and> [] \<in> set (tree_inputs h xs) \<or>
   (\<exists>l r. l \<in> set (tree_nodes h xs) \<and> r \<in> set (tree_nodes h xs)
      \<and> v = h (0x01 # l @ r) \<and> 0x01 # l @ r \<in> set (tree_inputs h xs))"
proof (induction h xs rule: tree_nodes.induct)
  case (1 h xs)
  show ?case
  proof (cases "length xs = 0 \<or> length xs = 1")
    case True
    with "1.prems" show ?thesis
      by (cases xs)
        (auto simp: tree_nodes.simps [of h "[]"] tree_inputs.simps [of h "[]"]
          tree_nodes.simps [of h "[a]" for a])
  next
    case False
    let ?k = "largest_pow2_less_than (length xs)"
    have len: "2 \<le> length xs" using False by (cases xs) (auto simp: Suc_le_eq)
    have nodes: "set (tree_nodes h xs)
        = {merkle_root h xs} \<union> set (tree_nodes h (take ?k xs)) \<union> set (tree_nodes h (drop ?k xs))"
      using False by (subst tree_nodes.simps) (auto simp: Let_def)
    have inputs: "set (tree_inputs h xs)
        = {0x01 # merkle_root h (take ?k xs) @ merkle_root h (drop ?k xs)}
          \<union> set (tree_inputs h (take ?k xs)) \<union> set (tree_inputs h (drop ?k xs))"
      using False by (subst tree_inputs.simps) (auto simp: Let_def)
    have root: "merkle_root h xs = h (0x01 # merkle_root h (take ?k xs) @ merkle_root h (drop ?k xs))"
      using merkle_root_split [OF len refl, of h] by (simp add: node_hash_def)
    have sub: "set (take ?k xs) \<subseteq> set xs" "set (drop ?k xs) \<subseteq> set xs"
      by (simp_all add: set_take_subset set_drop_subset)
    consider "v = merkle_root h xs" | "v \<in> set (tree_nodes h (take ?k xs))"
      | "v \<in> set (tree_nodes h (drop ?k xs))"
      using "1.prems" nodes by blast
    then show ?thesis
    proof cases
      case 1
      then show ?thesis unfolding nodes inputs root
        using merkle_root_in_nodes [of h "take ?k xs"] merkle_root_in_nodes [of h "drop ?k xs"]
        by blast
    next
      case 2
      then show ?thesis
        using "1.IH"(1) [OF False refl 2] sub unfolding nodes inputs by blast
    next
      case 3
      then show ?thesis
        using "1.IH"(2) [OF False refl 3] sub unfolding nodes inputs by blast
    qed
  qed
qed

text \<open>
  All strings hashed when the tree of the leaves \<open>ds\<close> is built and a path is walked from
  the leaf \<open>d\<close>.
\<close>

definition audit_inputs ::
  "(bytes \<Rightarrow> bytes) \<Rightarrow> bytes list \<Rightarrow> bytes \<Rightarrow> int \<Rightarrow> int \<Rightarrow> bytes list \<Rightarrow> bytes list" where
  "audit_inputs h ds d i n path =
     (0x00 # d) # map (\<lambda>d. 0x00 # d) ds @ tree_inputs h (map (leaf_hash h) ds)
       @ loop_inputs h (nat i, nat (n - 1), leaf_hash h d) path"

context digest32
begin

lemma leaf_hash_length [simp]: "length (leaf_hash h d) = 32"
  by (simp add: leaf_hash_def digest_length)

lemma merkle_root_length:
  assumes "\<And>x. x \<in> set xs \<Longrightarrow> length x = 32"
  shows "length (merkle_root h xs) = 32"
proof (cases "length xs = 0 \<or> length xs = 1")
  case True
  then show ?thesis using assms by (cases xs) (auto simp: digest_length)
next
  case False
  then have "2 \<le> length xs" by (cases xs) (auto simp: Suc_le_eq)
  then show ?thesis by (simp add: merkle_root_split node_hash_def digest_length)
qed

lemma tree_nodes_length:
  assumes "\<And>x. x \<in> set xs \<Longrightarrow> length x = 32" and "v \<in> set (tree_nodes h xs)"
  shows "length v = 32"
  using tree_nodes_cases [OF assms(2)] assms(1) digest_length by blast

lemma leaf_tree_nodes_length:
  assumes "v \<in> set (tree_nodes h (map (leaf_hash h) ds))"
  shows "length v = 32"
proof (rule tree_nodes_length [OF _ assms])
  fix x
  assume "x \<in> set (map (leaf_hash h) ds)"
  then show "length x = 32" unfolding set_map by (elim imageE) simp
qed

lemma audit_path_length:
  "\<forall>x \<in> set xs. length x = 32 \<Longrightarrow> \<forall>p \<in> set (audit_path_rec h m xs). length p = 32"
proof (induction "length xs" arbitrary: xs m rule: less_induct)
  case less
  show ?case
  proof (cases "length xs \<le> 1")
    case False
    then have len: "2 \<le> length xs" by simp
    let ?k = "largest_pow2_less_than (length xs)"
    let ?l = "take ?k xs" and ?r = "drop ?k xs"
    have short: "length ?l < length xs" "length ?r < length xs"
      using largest_pow2_bounds [OF len] by simp_all
    have l: "\<forall>x \<in> set ?l. length x = 32" and r: "\<forall>x \<in> set ?r. length x = 32"
      using less.prems in_set_takeD in_set_dropD by fast+
    have roots: "length (merkle_root h ?l) = 32" "length (merkle_root h ?r) = 32"
      using merkle_root_length l r by blast+
    show ?thesis
    proof (cases "m < ?k")
      case True
      then show ?thesis
        using less.hyps [OF short(1) l] roots by (simp add: audit_path_rec_left [OF len refl])
    next
      case False
      then show ?thesis
        using less.hyps [OF short(2) r] roots by (simp add: audit_path_rec_right [OF len refl])
    qed
  qed simp
qed

text \<open>
  A run that ends on a node of the tree started on a node of the tree, unless two of the
  strings hashed collide.
\<close>

lemma loop_stays_in_tree:
  assumes "inclusion_loop h (fn, sn, r) ps = Some (f, s, root)"
    and "root \<in> set (tree_nodes h (map (leaf_hash h) ds))"
    and "length r = 32"
    and "set (loop_inputs h (fn, sn, r) ps) \<subseteq> set S"
    and "set (tree_inputs h (map (leaf_hash h) ds)) \<subseteq> set S"
    and "set (map (\<lambda>d. 0x00 # d) ds) \<subseteq> set S"
    and "\<not> collision h S"
  shows "r \<in> set (tree_nodes h (map (leaf_hash h) ds))"
  using assms
proof (induction ps arbitrary: fn sn r)
  case Nil
  then show ?case by simp
next
  case (Cons p ps)
  let ?N = "set (tree_nodes h (map (leaf_hash h) ds))"
  let ?x = "step_input (fn, sn, r) p"
  from Cons.prems(1) have sn: "sn \<noteq> 0" by (cases "sn = 0") (simp_all add: inclusion_step_eq)
  obtain fn' sn' where nx: "next_index fn sn = (fn', sn')" by fastforce
  have "inclusion_loop h (fn', sn', h ?x) ps = Some (f, s, root)"
    using Cons.prems(1) sn by (simp add: inclusion_step_eq nx)
  moreover have "set (loop_inputs h (fn', sn', h ?x) ps) \<subseteq> set S" and x: "?x \<in> set S"
    using Cons.prems(4) sn by (simp_all add: inclusion_step_eq nx)
  ultimately have "h ?x \<in> ?N"
    using Cons.IH Cons.prems(2,5-7) digest_length by blast
  then consider d where "d \<in> set ds" "h ?x = leaf_hash h d"
    | "h ?x = h []" "[] \<in> set S"
    | l r' where "l \<in> ?N" "r' \<in> ?N" "h ?x = h (0x01 # l @ r')" "0x01 # l @ r' \<in> set S"
    using tree_nodes_cases [of "h ?x" h "map (leaf_hash h) ds"] Cons.prems(5)
    unfolding set_map by blast
  then show ?case
  proof cases
    case 1
    then have "?x = 0x00 # d"
      using no_collisionD [OF Cons.prems(7) _ x, of "0x00 # d"] Cons.prems(6)
      by (auto simp: leaf_hash_def)
    then show ?thesis by (auto simp: step_input_def split: if_splits)
  next
    case 2
    then have "?x = []" using no_collisionD [OF Cons.prems(7)] x by blast
    then show ?thesis by (auto simp: step_input_def split: if_splits)
  next
    case 3
    then have eq: "?x = 0x01 # l @ r'" using no_collisionD [OF Cons.prems(7)] x by blast
    have "length l = 32" "length r' = 32"
      using 3(1,2) by (simp_all only: leaf_tree_nodes_length)
    moreover have "p @ r = l @ r' \<or> r @ p = l @ r'"
      using eq by (simp add: step_input_def split: if_splits)
    ultimately have "r = l \<or> r = r'"
      using Cons.prems(3) by (metis append_eq_append_conv)
    with 3(1,2) show ?thesis by blast
  qed
qed

text \<open>A leaf that verifies under the root of an honest tree is one of its leaves.\<close>

lemma leaf_in_tree:
  assumes "leaf_hash h d \<in> set (tree_nodes h (map (leaf_hash h) ds))"
    and "0x00 # d \<in> set S"
    and "set (tree_inputs h (map (leaf_hash h) ds)) \<subseteq> set S"
    and "set (map (\<lambda>d. 0x00 # d) ds) \<subseteq> set S"
    and "\<not> collision h S"
  shows "d \<in> set ds"
proof -
  have eq: "0x00 # d = y" if "h (0x00 # d) = h y" "y \<in> set S" for y
    using no_collisionD [OF assms(5) that(1) assms(2) that(2)] .
  consider d' where "d' \<in> set ds" "leaf_hash h d = leaf_hash h d'"
    | "leaf_hash h d = h []" "[] \<in> set S"
    | l r where "leaf_hash h d = h (0x01 # l @ r)" "0x01 # l @ r \<in> set S"
    using tree_nodes_cases [OF assms(1)] assms(3) unfolding set_map by blast
  then show ?thesis
  proof cases
    case 1
    then show ?thesis using eq [of "0x00 # d'"] assms(4) by (auto simp: leaf_hash_def)
  next
    case 2
    then show ?thesis using eq [of "[]"] by (simp add: leaf_hash_def)
  next
    case 3
    then show ?thesis using eq [of "0x01 # l @ r"] by (simp add: leaf_hash_def)
  qed
qed

lemma verify_inclusion_member:
  assumes "verify_inclusion h (leaf_hash h d) i n path (merkle_root h (map (leaf_hash h) ds))"
    and "\<not> collision h (audit_inputs h ds d i n path)"
  shows "d \<in> set ds"
proof -
  let ?S = "audit_inputs h ds d i n path"
  obtain fn where
    "inclusion_loop h (nat i, nat (n - 1), leaf_hash h d) path
       = Some (fn, 0, merkle_root h (map (leaf_hash h) ds))"
    using assms(1) unfolding verify_inclusion_iff by blast
  moreover have S: "set (tree_inputs h (map (leaf_hash h) ds)) \<subseteq> set ?S"
    "set (map (\<lambda>d. 0x00 # d) ds) \<subseteq> set ?S"
    "set (loop_inputs h (nat i, nat (n - 1), leaf_hash h d) path) \<subseteq> set ?S"
    "0x00 # d \<in> set ?S"
    by (auto simp: audit_inputs_def)
  ultimately have "leaf_hash h d \<in> set (tree_nodes h (map (leaf_hash h) ds))"
    using loop_stays_in_tree merkle_root_in_nodes leaf_hash_length assms(2) by blast
  then show ?thesis by (rule leaf_in_tree [OF _ S(4) S(1) S(2) assms(2)])
qed

end

section \<open>The length of an accepted path\<close>

lemma strip_loop_le: "snd (strip_loop fn sn) \<le> sn"
proof (induction fn sn rule: strip_loop.induct)
  case (1 fn sn)
  then show ?case by (subst strip_loop.simps) (auto intro: le_trans)
qed

lemma next_index_halves: "2 * snd (next_index fn sn) \<le> sn"
  using strip_loop_le [of fn sn] by (auto simp: next_index_def split: prod.splits)

lemma inclusion_loop_length:
  "inclusion_loop h (fn, sn, r) path = Some st \<Longrightarrow> path \<noteq> [] \<Longrightarrow> 2 ^ length path \<le> 2 * sn"
proof (induction path arbitrary: fn sn r)
  case Nil
  then show ?case by simp
next
  case (Cons p ps)
  from Cons.prems(1) have sn: "sn \<noteq> 0" by (cases "sn = 0") (simp_all add: inclusion_step_eq)
  obtain fn' sn' where nx: "next_index fn sn = (fn', sn')" by fastforce
  have run: "inclusion_loop h (fn', sn', h (step_input (fn, sn, r) p)) ps = Some st"
    using Cons.prems(1) sn by (simp add: inclusion_step_eq nx)
  show ?case
  proof (cases "ps = []")
    case True
    then show ?thesis using sn by simp
  next
    case False
    then show ?thesis
      using Cons.IH [OF run] next_index_halves [of fn sn] by (simp add: nx)
  qed
qed

text \<open>The strings hashed by a proof at position \<open>i\<close> and by the honest one for that position.\<close>

definition position_inputs ::
  "(bytes \<Rightarrow> bytes) \<Rightarrow> bytes list \<Rightarrow> bytes \<Rightarrow> int \<Rightarrow> bytes list \<Rightarrow> bytes list" where
  "position_inputs h ds d i path =
     (0x00 # d) # (0x00 # ds ! nat i)
       # loop_inputs h (nat i, nat (int (length ds) - 1), leaf_hash h d) path
       @ loop_inputs h (nat i, nat (int (length ds) - 1), leaf_hash h (ds ! nat i))
           (audit_path_rec h (nat i) (map (leaf_hash h) ds))"

lemma verify_inclusion_position:
  assumes "digest32 h"
    and "verify_inclusion h (leaf_hash h d) i (int (length ds)) path
           (merkle_root h (map (leaf_hash h) ds))"
    and "\<not> collision h (position_inputs h ds d i path)"
  shows "nat i < length ds \<and> d = ds ! nat i \<and> audit_path h i (map (leaf_hash h) ds) = Inr path"
proof -
  let ?xs = "map (leaf_hash h) ds" and ?d = "ds ! nat i"
  have i: "0 \<le> i" "nat i < length ?xs"
    using assms(2) by (auto simp: verify_inclusion_iff)
  then have "verify_inclusion h (leaf_hash h ?d) i (int (length ds)) (audit_path_rec h (nat i) ?xs)
      (merkle_root h ?xs)"
    using verify_inclusion_audit_path [OF i(2), of h] by simp
  moreover have "\<not> collision h
      (loop_inputs h (nat i, nat (int (length ds) - 1), leaf_hash h d) path
       @ loop_inputs h (nat i, nat (int (length ds) - 1), leaf_hash h ?d) (audit_path_rec h (nat i) ?xs))"
    using assms(3) by (auto simp: position_inputs_def collision_def)
  ultimately have leaf: "leaf_hash h d = leaf_hash h ?d" and path: "path = audit_path_rec h (nat i) ?xs"
    using digest32.verify_inclusion_binding [OF assms(1,2)] digest32.leaf_hash_length [OF assms(1)]
    by blast+
  have "0x00 # d = 0x00 # ?d"
    by (rule no_collisionD [OF assms(3) leaf [unfolded leaf_hash_def]]) (simp_all add: position_inputs_def)
  with i path show ?thesis by (simp add: audit_path_def)
qed

lemma verify_inclusion_of_audit_path:
  assumes "audit_path h m leaves = Inr path"
  shows "verify_inclusion h (leaves ! nat m) m (int (length leaves)) path (merkle_root h leaves)"
proof -
  have m: "0 \<le> m" "nat m < length leaves" and path: "path = audit_path_rec h (nat m) leaves"
    using assms by (auto simp: audit_path_def split: if_splits)
  show ?thesis
    using verify_inclusion_audit_path [OF m(2), of h] m(1) unfolding path by simp
qed

section \<open>Properties\<close>

text \<open>
  C19: completeness of inclusion proofs.  Whatever path \<open>audit_path\<close> returns for a leaf of a
  tree of any size, \<open>verify_inclusion\<close> accepts it for that leaf, index, leaf count and root:
  the bottom-up loop with its index arithmetic retraces the top-down split.
\<close>

theorem audit_path_verifies:
  assumes "audit_path h m leaves = Inr path"
  shows "verify_inclusion h (leaves ! nat m) m (int (length leaves)) path (merkle_root h leaves)"
  using assms by (rule verify_inclusion_of_audit_path)

theorem audit_path_verifies_witness:
  "verify_inclusion toy_hash [3] 2 3 [merkle_root toy_hash [[1], [2]]] (merkle_root toy_hash [[1], [2], [3]])"
proof -
  have "audit_path toy_hash 2 [[1], [2], [3]] = Inr [merkle_root toy_hash [[1], [2]]]"
    by code_simp
  from audit_path_verifies [OF this] show ?thesis by simp
qed

text \<open>
  C20: soundness by position.  For a 32-byte digest and a tree of the leaves \<open>ds\<close>: if a proof
  for index \<open>i\<close> and the true leaf count is accepted under the root, the leaf proved is the
  leaf at position \<open>i\<close> and the path is the one \<open>audit_path\<close> builds, unless two of the strings
  hashed along the two paths collide.
\<close>

theorem inclusion_position_sound:
  assumes "digest32 h"
    and "verify_inclusion h (leaf_hash h d) i (int (length ds)) path
           (merkle_root h (map (leaf_hash h) ds))"
    and "\<not> collision h (position_inputs h ds d i path)"
  shows "nat i < length ds \<and> d = ds ! nat i \<and> audit_path h i (map (leaf_hash h) ds) = Inr path"
  using assms by (rule verify_inclusion_position)

theorem inclusion_position_sound_witness:
  "audit_path toy_hash 1 (map (leaf_hash toy_hash) [[1], [2], [3]])
     = Inr [leaf_hash toy_hash [1], leaf_hash toy_hash [3]]"
proof -
  have "verify_inclusion toy_hash (leaf_hash toy_hash [2]) 1 (int (length [[1], [2], [3]]))
      [leaf_hash toy_hash [1], leaf_hash toy_hash [3]]
      (merkle_root toy_hash (map (leaf_hash toy_hash) [[1], [2], [3]]))"
    by code_simp
  moreover have "\<not> collision toy_hash (position_inputs toy_hash [[1], [2], [3]] [2] 1
      [leaf_hash toy_hash [1], leaf_hash toy_hash [3]])"
    by code_simp
  ultimately show ?thesis
    using inclusion_position_sound [OF toy_hash.digest32_axioms] by blast
qed

text \<open>
  C21: membership whatever the claimed shape.  For a 32-byte digest, if a proof for ANY index
  and ANY leaf count is accepted under the root of the tree of the leaves \<open>ds\<close>, the leaf
  proved is one of \<open>ds\<close>, unless two of the strings hashed collide; in particular an interior
  node cannot be passed off as a leaf, nor a leaf of another tree.
\<close>

theorem inclusion_membership_sound:
  assumes "digest32 h"
    and "verify_inclusion h (leaf_hash h d) i n path (merkle_root h (map (leaf_hash h) ds))"
    and "\<not> collision h (audit_inputs h ds d i n path)"
  shows "d \<in> set ds"
  using assms by (rule digest32.verify_inclusion_member)

theorem inclusion_membership_sound_witness:
  "[2] \<in> set [[1], [2 :: byte], [3]]
   \<and> verify_inclusion toy_hash (leaf_hash toy_hash [2]) 1 4
      [leaf_hash toy_hash [1], leaf_hash toy_hash [3]]
      (merkle_root toy_hash (map (leaf_hash toy_hash) [[1], [2], [3]]))"
proof -
  have "verify_inclusion toy_hash (leaf_hash toy_hash [2]) 1 4
      [leaf_hash toy_hash [1], leaf_hash toy_hash [3]]
      (merkle_root toy_hash (map (leaf_hash toy_hash) [[1], [2], [3]]))"
    by code_simp
  moreover have "\<not> collision toy_hash (audit_inputs toy_hash [[1], [2], [3]] [2] 1 4
      [leaf_hash toy_hash [1], leaf_hash toy_hash [3]])"
    by code_simp
  ultimately show ?thesis
    using inclusion_membership_sound [OF toy_hash.digest32_axioms] by blast
qed

text \<open>
  C39: the work of a verification is logarithmic in the claimed size.  An accepted nonempty
  path of \<open>k\<close> hashes needs \<open>2 ^ k \<le> 2 * (total_leaves - 1)\<close>: a padded path is refused.
\<close>

theorem inclusion_path_bound:
  assumes "verify_inclusion h leaf i n path root"
  shows "path = [] \<or> 2 ^ length path \<le> 2 * (n - 1)"
proof (cases "path = []")
  case False
  obtain fn where "0 \<le> i" "i < n"
    "inclusion_loop h (nat i, nat (n - 1), leaf) path = Some (fn, 0, root)"
    using assms by (auto simp: verify_inclusion_iff)
  with inclusion_loop_length [OF this(3) False] have "int (2 ^ length path) \<le> int (2 * nat (n - 1))"
    by (simp only: of_nat_le_iff)
  with \<open>0 \<le> i\<close> \<open>i < n\<close> show ?thesis by simp
qed simp

theorem inclusion_path_bound_witness:
  "(2 :: int) ^ length [[1 :: byte], [3]] \<le> 2 * (3 - 1)"
proof -
  have "verify_inclusion toy_hash [2] 1 3 [[1], [3]] (merkle_root toy_hash [[1], [2], [3]])"
    by code_simp
  from inclusion_path_bound [OF this] show ?thesis by simp
qed

text \<open>
  the split point.  From two leaves on, \<open>_largest_pow2_less_than n\<close> is the power of two
  with \<open>k < n \<le> 2 k\<close>; below, it is 0.
\<close>

lemma split_point:
  "if n < 2 then largest_pow2_less_than n = 0
   else \<exists>a. largest_pow2_less_than n = 2 ^ a \<and> 2 ^ a < n \<and> n \<le> 2 * 2 ^ a"
proof (cases "n < 2")
  case False
  then obtain a where "largest_pow2_less_than n = 2 ^ a" "2 ^ a < n" "n \<le> 2 ^ Suc a"
    using largest_pow2_spec [of n] by auto
  with False show ?thesis by (intro exI [of _ a] if_bool_eq_conj [THEN iffD2]) auto
qed (simp add: largest_pow2_less_than_def)

end
