(* ===== verification/Crypto.thy ===== *)
theory Crypto
  imports Canonicalize Bytes_Hex Merkle
begin

text \<open>
  \<open>hash.py\<close>, \<open>sign.py\<close> and \<open>verify.py\<close>, and the packages the kernel calls.  The code
  outside the repository is gathered in the record \<open>kernel\<close>: \<open>jcs.canonicalize\<close>, PyNaCl's
  Ed25519, the RSA-PSS of \<open>cryptography\<close>, and the interpreter's hash function, JSON parser
  and text conversions.  Nothing is assumed of its fields; what a property relies on is
  one of the contracts defined at the end, as a hypothesis.
\<close>

section \<open>The environment\<close>

text \<open>
  The outcome of \<open>key.verify(...)\<close> for an RSA key: it returns, raises \<open>InvalidSignature\<close>, or
  raises something else.
\<close>

datatype rsa_outcome = RsaVerified | RsaInvalidSignature | RsaOtherException

record kernel =
  k_sha256 :: "bytes \<Rightarrow> bytes"
    \<comment> \<open>\<open>hashlib.sha256(data).digest()\<close>\<close>
  k_jcs :: "json \<Rightarrow> exc + bytes"
    \<comment> \<open>\<open>jcs.canonicalize(obj)\<close>, or the exception it raises\<close>
  k_json_loads :: "bytes \<Rightarrow> json option"
    \<comment> \<open>\<open>json.loads(data)\<close>, \<open>None\<close> when it raises\<close>
  k_ed_public :: "bytes \<Rightarrow> bytes"
    \<comment> \<open>\<open>bytes(SigningKey(seed).verify_key)\<close>\<close>
  k_ed_sign :: "bytes \<Rightarrow> bytes \<Rightarrow> bytes"
    \<comment> \<open>\<open>SigningKey(seed).sign(message).signature\<close>\<close>
  k_ed_verify :: "bytes \<Rightarrow> bytes \<Rightarrow> bytes \<Rightarrow> bool"
    \<comment> \<open>\<open>VerifyKey(public_key).verify(message, signature)\<close> returns\<close>
  k_rsa_import :: "nat \<Rightarrow> nat \<Rightarrow> exc option"
    \<comment> \<open>the exception \<open>RSAPublicNumbers(e, n).public_key()\<close> raises, if any (arguments \<open>n e\<close>)\<close>
  k_rsa_verify :: "nat \<Rightarrow> nat \<Rightarrow> nat \<Rightarrow> bytes \<Rightarrow> bytes \<Rightarrow> rsa_outcome"
    \<comment> \<open>PSS with MGF1-SHA-256 and SHA-256 (arguments \<open>n e salt_length signature message\<close>)\<close>
  k_repr :: "json \<Rightarrow> string"
    \<comment> \<open>\<open>repr(v)\<close>, used in error texts\<close>
  k_str_exc :: "exc \<Rightarrow> string"
    \<comment> \<open>\<open>str(exc)\<close>, used in error texts\<close>

section \<open>hash.py\<close>

definition sha256_hex :: "kernel \<Rightarrow> bytes \<Rightarrow> string" where
  "sha256_hex K data = hex_encode (k_sha256 K data)"

lemma lower_sha256_hex [simp]: "lower (sha256_hex K data) = sha256_hex K data"
  by (simp add: sha256_hex_def)

lemma sha256_hex_inject: "sha256_hex K a = sha256_hex K b \<longleftrightarrow> k_sha256 K a = k_sha256 K b"
  by (simp add: sha256_hex_def hex.enc_inject)

text \<open>\<open>sha256_hex(canonical_json(v))\<close>, the expression every hash binding computes.\<close>

definition canonical :: "kernel \<Rightarrow> json \<Rightarrow> exc + bytes" where
  "canonical K v = canonical_json (k_jcs K) v"

definition canonical_hash :: "kernel \<Rightarrow> json \<Rightarrow> exc + string" where
  "canonical_hash K v = map_sum id (sha256_hex K) (canonical K v)"

lemma canonical_hash_Inr:
  "canonical_hash K v = Inr s \<longleftrightarrow> (\<exists>b. canonical K v = Inr b \<and> s = sha256_hex K b)"
  by (simp add: canonical_hash_def result_simps)

section \<open>sign.py\<close>

text \<open>A \<open>SigningKey\<close> is its 32-byte seed.\<close>

definition signing_key_from_seed_hex :: "string \<Rightarrow> exc + bytes" where
  "signing_key_from_seed_hex seed_hex =
     ebind (fromhex seed_hex)
       (\<lambda>seed. if length seed \<noteq> 32 then Inl ValueError else Inr seed)"

definition public_key_hex :: "kernel \<Rightarrow> bytes \<Rightarrow> string" where
  "public_key_hex K key = hex_encode (k_ed_public K key)"

definition sign :: "kernel \<Rightarrow> bytes \<Rightarrow> bytes \<Rightarrow> bytes" where
  "sign K message key = k_ed_sign K key message"

section \<open>verify.py\<close>

text \<open>\<open>bytes.fromhex(v)\<close> for a value of any type: only a string can be decoded.\<close>

fun py_fromhex :: "json \<Rightarrow> exc + bytes" where
  "py_fromhex (JStr s) = fromhex s"
| "py_fromhex v = Inl TypeError"

lemma py_fromhex_error: "py_fromhex v = Inl e \<Longrightarrow> e = ValueError \<or> e = TypeError"
  by (cases v) (auto dest: fromhex_error)

definition verify_signature :: "kernel \<Rightarrow> bytes \<Rightarrow> json \<Rightarrow> json \<Rightarrow> bool" where
  "verify_signature K message signature_hex pub_hex =
     (case ebind (py_fromhex signature_hex)
             (\<lambda>signature. ebind (py_fromhex pub_hex)
               (\<lambda>public_key. Inr (signature, public_key))) of
        Inl e \<Rightarrow> False
      | Inr (signature, public_key) \<Rightarrow>
          if length signature \<noteq> 64 \<or> length public_key \<noteq> 32 then False
          else k_ed_verify K public_key message signature)"

lemma verify_signature_iff:
  "verify_signature K m sig pub \<longleftrightarrow>
     (\<exists>s p. py_fromhex sig = Inr s \<and> py_fromhex pub = Inr p
        \<and> length s = 64 \<and> length p = 32 \<and> k_ed_verify K p m s)"
  by (auto simp: verify_signature_def ebind_def split: sum.splits)

lemma verify_signature_strings:
  "verify_signature K m sig pub \<Longrightarrow> is_str sig \<and> is_str pub"
  by (cases sig; cases pub) (auto simp: verify_signature_iff)

section \<open>Documented contracts of the packages\<close>

text \<open>RFC 8032: sizes, and a signature verifies under its key.\<close>

definition ed25519_contract :: "kernel \<Rightarrow> bool" where
  "ed25519_contract K \<longleftrightarrow>
     (\<forall>seed m. length seed = 32 \<longrightarrow>
        length (k_ed_public K seed) = 32 \<and> length (k_ed_sign K seed m) = 64
        \<and> k_ed_verify K (k_ed_public K seed) m (k_ed_sign K seed m))"

lemma verify_own_signature:
  assumes "ed25519_contract K" and "length key = 32"
  shows "verify_signature K m (JStr (hex_encode (sign K m key))) (JStr (public_key_hex K key))"
  using assms by (simp add: verify_signature_iff ed25519_contract_def sign_def public_key_hex_def
      fromhex_hex_encode)

text \<open>
  RFC 8785: the serializer returns on a value only if it returns on the values inside it.
\<close>

definition jcs_closed :: "kernel \<Rightarrow> bool" where
  "jcs_closed K \<longleftrightarrow>
     (\<forall>v b c. k_jcs K v = Inr b \<longrightarrow> c \<in> set (children v) \<longrightarrow> (\<exists>b'. k_jcs K c = Inr b'))"

lemma canonical_closed:
  assumes "jcs_closed K" and "canonical K v = Inr b" and "c \<in> set (children v)"
  obtains b' where "canonical K c = Inr b'"
proof -
  from assms(2) have "k_jcs K v = Inr b" and depth: "depth v \<le> MAX_CANONICAL_DEPTH"
    by (simp_all add: canonical_def canonical_json_Inr)
  with assms(1,3) obtain b' where "k_jcs K c = Inr b'" unfolding jcs_closed_def by blast
  moreover have "depth c \<le> MAX_CANONICAL_DEPTH"
    using depth_child [OF assms(3)] depth by simp
  ultimately have "canonical K c = Inr b'" by (simp add: canonical_def canonical_json_Inr)
  then show thesis by (rule that)
qed

end
