(* ===== verification/Witness_Env.thy ===== *)
theory Witness_Env
  imports Crypto
begin

text \<open>
  A small concrete environment on which the properties with hypotheses are applied: a hash
  that keeps the first 32 bytes of its input, a serializer that writes every value down, a
  signature that repeats the key and the message.  It satisfies the contracts of
  \<open>Crypto\<close>; it is no model of the real packages.
\<close>

definition toy_text :: "string \<Rightarrow> bytes" where
  "toy_text s = map (\<lambda>c. byte_of (of_char c)) s"

fun toy_jcs :: "json \<Rightarrow> bytes" where
  "toy_jcs JNull = [110]"
| "toy_jcs (JBool b) = [if b then 116 else 102]"
| "toy_jcs (JInt i) = [105, word_of_int i]"
| "toy_jcs (JFloat w) = [100, ucast w]"
| "toy_jcs (JStr s) = 34 # toy_text s @ [34]"
| "toy_jcs (JList xs) = 91 # concat (map toy_jcs xs) @ [93]"
| "toy_jcs (JDict d) = 123 # concat (map (\<lambda>(k, v). toy_text k @ 58 # toy_jcs v) d) @ [125]"

definition toy_sign :: "bytes \<Rightarrow> bytes \<Rightarrow> bytes" where
  "toy_sign seed m = take 64 (seed @ m @ replicate 64 0)"

definition toy :: kernel where
  "toy =
     \<lparr> k_sha256 = toy_hash,
       k_jcs = (\<lambda>v. Inr (toy_jcs v)),
       k_json_loads = (\<lambda>b. Some (JDict [(''event'', JDict [(''merkle_root'', JStr (hex_encode b))])])),
       k_ed_public = (\<lambda>seed. seed),
       k_ed_sign = toy_sign,
       k_ed_verify = (\<lambda>p m s. s = toy_sign p m),
       k_rsa_import = (\<lambda>n e. None),
       k_rsa_verify = (\<lambda>n e salt s m. if s = m then RsaVerified else RsaInvalidSignature),
       k_repr = (\<lambda>v. case v of JStr s \<Rightarrow> [CHR 0x27] @ s @ [CHR 0x27] | _ \<Rightarrow> ''None''),
       k_str_exc = (\<lambda>e. ''error'') \<rparr>"

lemma toy_fields [simp]:
  "k_sha256 toy = toy_hash" "k_jcs toy v = Inr (toy_jcs v)"
  "k_ed_public toy = (\<lambda>seed. seed)" "k_ed_sign toy = toy_sign"
  "k_ed_verify toy = (\<lambda>p m s. s = toy_sign p m)"
  "k_json_loads toy b = Some (JDict [(''event'', JDict [(''merkle_root'', JStr (hex_encode b))])])"
  "k_rsa_import toy n e = None"
  "k_rsa_verify toy n e salt s m = (if s = m then RsaVerified else RsaInvalidSignature)"
  by (simp_all add: toy_def)

lemma toy_ed25519: "ed25519_contract toy"
  by (auto simp: ed25519_contract_def toy_sign_def min_def)

lemma toy_jcs_closed: "jcs_closed toy"
  by (simp add: jcs_closed_def)

text \<open>The published test seed of the corpus.\<close>

definition toy_seed :: bytes where
  "toy_seed = concat (replicate 4 [0x01, 0x23, 0x45, 0x67, 0x89, 0xAB, 0xCD, 0xEF])"

lemma length_toy_seed [simp]: "length toy_seed = 32"
  by (simp add: toy_seed_def eval_nat_numeral)

end
