(* ===== verification/Envelope.thy ===== *)
theory Envelope
  imports Witness_Env
begin

text \<open>
  \<open>envelope.py\<close>: the accepted \<open>spec_version\<close> registry, the signed scope of an envelope, the
  content hashes it commits to, verification and signing.  Error texts are constructors of
  \<open>env_note\<close>, one per message of the source, carrying the value interpolated.
\<close>

section \<open>The accepted majors\<close>

definition ACCEPTED_SPEC_VERSIONS :: "string list" where
  "ACCEPTED_SPEC_VERSIONS = [''ario.agent/v1'', ''ario.mlflow/v1'', ''ario.events/v1'']"

definition UNSIGNED_FIELDS :: "string list" where
  "UNSIGNED_FIELDS = [''signature'', ''co_signatures'']"

definition matches_major :: "string \<Rightarrow> string \<Rightarrow> bool" where
  "matches_major spec_version major =
     (if spec_version = major then True
      else let prefix = major @ ''.''
           in if \<not> starts_with prefix spec_version then False
              else let minor = drop (length prefix) spec_version
                   in minor \<noteq> [] \<and> list_all is_digit minor)"

fun spec_version_supported :: "json \<Rightarrow> bool" where
  "spec_version_supported (JStr s) = list_ex (matches_major s) ACCEPTED_SPEC_VERSIONS"
| "spec_version_supported v = False"

lemma matches_major_iff:
  "matches_major s major \<longleftrightarrow>
     s = major \<or> (\<exists>minor. s = major @ ''.'' @ minor \<and> minor \<noteq> [] \<and> (\<forall>c \<in> set minor. is_digit c))"
  by (auto simp: matches_major_def Let_def starts_with_iff list_all_iff)

section \<open>The signed scope\<close>

definition strips_annotations :: "items \<Rightarrow> bool" where
  "strips_annotations envelope =
     (case dget envelope ''spec_version'' of
        JNull \<Rightarrow> True
      | JStr s \<Rightarrow> matches_major s ''ario.mlflow/v1''
      | _ \<Rightarrow> False)"

definition envelope_for_signature :: "items \<Rightarrow> items" where
  "envelope_for_signature envelope =
     (let strip = strips_annotations envelope
      in filter (\<lambda>(k, v). k \<notin> set UNSIGNED_FIELDS \<and> \<not> (strip \<and> starts_with ''_'' k)) envelope)"

section \<open>Content hashes\<close>

datatype content_role = Asset | Baseline | Observed

text \<open>\<open>[(role, d["hash"])]\<close> when \<open>d\<close> is a dict with a string \<open>hash\<close>.\<close>

definition role_hash :: "content_role \<Rightarrow> json \<Rightarrow> (content_role \<times> string) list" where
  "role_hash role v =
     (case v of
        JDict d \<Rightarrow> (case dget d ''hash'' of JStr s \<Rightarrow> [(role, s)] | _ \<Rightarrow> [])
      | _ \<Rightarrow> [])"

definition content_hashes :: "items \<Rightarrow> (content_role \<times> string) list" where
  "content_hashes envelope =
     (case dget envelope ''payload'' of
        JDict payload \<Rightarrow>
          (let event_type = dget envelope ''event_type''
           in if event_type = JStr ''asset_registered'' then role_hash Asset (JDict payload)
              else if event_type = JStr ''asset_missing''
              then role_hash Baseline (dget payload ''baseline'')
              else if event_type = JStr ''tamper_detected''
              then role_hash Observed (dget payload ''observed'')
                   @ role_hash Baseline (dget payload ''baseline'')
              else [])
      | _ \<Rightarrow> [])"

section \<open>verify_envelope\<close>

datatype env_note =
    EnvelopeNotObject
  | MissingSpecVersion
  | UnsupportedSpecVersion json
  | MissingPayloadHash
  | PayloadNotCanonicalizable
  | PayloadHashMismatch
  | SignatureFailed
  | ContentHashUnmatched

record verification_result =
  vr_ok :: bool
  vr_spec_version_ok :: bool
  vr_payload_hash_ok :: "bool option"
  vr_signature_ok :: bool
  vr_content_hash_ok :: "bool option"
  vr_content_role :: "content_role option"
  vr_legacy_envelope :: bool
  vr_errors :: "env_note list"

text \<open>Step 1: the registry, or the legacy rule for an absent \<open>spec_version\<close>.\<close>

definition check_spec_version :: "items \<Rightarrow> bool \<Rightarrow> bool \<times> bool \<times> env_note list" where
  "check_spec_version envelope allow_legacy =
     (let spec_version = dget envelope ''spec_version'';
          legacy = (spec_version = JNull)
      in if legacy
         then (allow_legacy, legacy, if allow_legacy then [] else [MissingSpecVersion])
         else let sv_ok = spec_version_supported spec_version
              in (sv_ok, legacy, if sv_ok then [] else [UnsupportedSpecVersion spec_version]))"

text \<open>Step 2: the payload binding; \<open>None\<close> when there is nothing to compare the hash with.\<close>

definition check_payload ::
  "kernel \<Rightarrow> items \<Rightarrow> bytes option \<Rightarrow> bool option \<times> env_note list" where
  "check_payload K envelope payload_bytes =
     (case dget envelope ''payload_hash'' of
        JStr stored_hash \<Rightarrow>
          (let (inline_checks, inline_errors) =
                 (if has_key ''payload'' envelope
                  then (case canonical_hash K (dget envelope ''payload'') of
                          Inr computed \<Rightarrow> ([computed = stored_hash], [])
                        | Inl e \<Rightarrow> ([False], [PayloadNotCanonicalizable]))
                  else ([], []));
               checks = inline_checks
                 @ (case payload_bytes of
                      None \<Rightarrow> []
                    | Some pb \<Rightarrow> [sha256_hex K pb = stored_hash]);
               payload_hash_ok = (if checks = [] then None else Some (list_all id checks))
           in (payload_hash_ok,
               inline_errors
                 @ (if payload_hash_ok = Some False \<and> PayloadNotCanonicalizable \<notin> set inline_errors
                    then [PayloadHashMismatch] else [])))
      | _ \<Rightarrow> (Some False, [MissingPayloadHash]))"

text \<open>Step 3: the signature over the canonical signed scope; any exception is a failure.\<close>

definition check_signature :: "kernel \<Rightarrow> items \<Rightarrow> bool" where
  "check_signature K envelope =
     (case canonical K (JDict (envelope_for_signature envelope)) of
        Inl e \<Rightarrow> False
      | Inr message \<Rightarrow>
          verify_signature K message
            (dget_default envelope ''signature'' (JStr []))
            (dget_default envelope ''public_key'' (JStr [])))"

text \<open>Step 4: the first committed hash equal to the wanted one, compared in lower case.\<close>

definition check_content :: "items \<Rightarrow> string option \<Rightarrow> bool option \<times> content_role option" where
  "check_content envelope expected =
     (case expected of
        None \<Rightarrow> (None, None)
      | Some e \<Rightarrow>
          (let wanted = lower e
           in case find (\<lambda>(role, candidate). lower candidate = wanted) (content_hashes envelope) of
                None \<Rightarrow> (Some False, None)
              | Some (role, _) \<Rightarrow> (Some True, Some role)))"

definition verify_envelope ::
  "kernel \<Rightarrow> json \<Rightarrow> bytes option \<Rightarrow> string option \<Rightarrow> bool \<Rightarrow> verification_result" where
  "verify_envelope K envelope payload_bytes expected_content_hash allow_legacy =
     (case envelope of
        JDict env \<Rightarrow>
          (let (spec_version_ok, legacy, errors1) = check_spec_version env allow_legacy;
               (payload_hash_ok, errors2) = check_payload K env payload_bytes;
               signature_ok = check_signature K env;
               errors3 = (if signature_ok then [] else [SignatureFailed]);
               (content_hash_ok, content_role) = check_content env expected_content_hash;
               errors4 = (if content_hash_ok = Some False then [ContentHashUnmatched] else [])
           in \<lparr> vr_ok = spec_version_ok \<and> signature_ok \<and> payload_hash_ok \<noteq> Some False,
                vr_spec_version_ok = spec_version_ok,
                vr_payload_hash_ok = payload_hash_ok,
                vr_signature_ok = signature_ok,
                vr_content_hash_ok = content_hash_ok,
                vr_content_role = content_role,
                vr_legacy_envelope = legacy,
                vr_errors = errors1 @ errors2 @ errors3 @ errors4 \<rparr>)
      | _ \<Rightarrow>
          \<lparr> vr_ok = False, vr_spec_version_ok = False, vr_payload_hash_ok = None,
            vr_signature_ok = False,
            vr_content_hash_ok = (if expected_content_hash = None then None else Some False),
            vr_content_role = None, vr_legacy_envelope = False,
            vr_errors = [EnvelopeNotObject] \<rparr>)"

section \<open>sign_envelope\<close>

definition sign_envelope :: "kernel \<Rightarrow> items \<Rightarrow> bytes \<Rightarrow> exc + items" where
  "sign_envelope K envelope key =
     (if has_key ''signature'' envelope then Inl ValueError
      else ebind
        (if has_key ''payload'' envelope
         then ebind (canonical_hash K (dget envelope ''payload''))
           (\<lambda>computed.
              let env = dsetdefault ''payload_hash'' (JStr computed) envelope
              in if dget env ''payload_hash'' \<noteq> JStr computed then Inl ValueError else Inr env)
         else if \<not> has_key ''payload_hash'' envelope then Inl ValueError
         else Inr envelope)
        (\<lambda>env.
           let expected_pub = public_key_hex K key;
               env = dsetdefault ''public_key'' (JStr expected_pub) env
           in if dget env ''public_key'' \<noteq> JStr expected_pub then Inl ValueError
              else ebind (canonical K (JDict (envelope_for_signature env)))
                (\<lambda>message. Inr (dput ''signature'' (JStr (hex_encode (sign K message key))) env))))"

section \<open>Lemmas\<close>

lemma dget_default_dget: "dget d k \<noteq> JNull \<Longrightarrow> dget_default d k v = dget d k"
  by (auto simp: dget_def dget_default_def split: option.splits)

lemma check_payload_ok:
  "fst (check_payload K env pb) \<noteq> Some False \<longleftrightarrow>
     (\<exists>stored. dget env ''payload_hash'' = JStr stored
        \<and> (has_key ''payload'' env \<longrightarrow> canonical_hash K (dget env ''payload'') = Inr stored)
        \<and> (\<forall>b. pb = Some b \<longrightarrow> sha256_hex K b = stored))"
  by (auto simp: check_payload_def Let_def list_all_iff split: json.splits sum.splits option.splits)

lemma check_payload_None:
  "fst (check_payload K env pb) = None \<longleftrightarrow>
     is_str (dget env ''payload_hash'') \<and> \<not> has_key ''payload'' env \<and> pb = None"
  by (auto simp: check_payload_def Let_def split: json.splits sum.splits option.splits)

lemma check_spec_version_ok:
  "fst (check_spec_version env legacy) \<longleftrightarrow>
     (if dget env ''spec_version'' = JNull then legacy
      else spec_version_supported (dget env ''spec_version''))"
  by (simp add: check_spec_version_def Let_def)

lemma verify_envelope_fields:
  "vr_ok (verify_envelope K (JDict env) pb e legacy) \<longleftrightarrow>
     fst (check_spec_version env legacy) \<and> check_signature K env
     \<and> fst (check_payload K env pb) \<noteq> Some False"
  "vr_payload_hash_ok (verify_envelope K (JDict env) pb e legacy) = fst (check_payload K env pb)"
  "vr_signature_ok (verify_envelope K (JDict env) pb e legacy) = check_signature K env"
  "vr_spec_version_ok (verify_envelope K (JDict env) pb e legacy) = fst (check_spec_version env legacy)"
  "vr_content_hash_ok (verify_envelope K (JDict env) pb e legacy) = fst (check_content env e)"
  "vr_content_role (verify_envelope K (JDict env) pb e legacy) = snd (check_content env e)"
  by (simp_all add: verify_envelope_def Let_def case_prod_beta)

lemma verify_envelope_not_dict:
  "\<not> is_dict v \<Longrightarrow> \<not> vr_ok (verify_envelope K v pb e legacy)"
  by (cases v) (auto simp: verify_envelope_def)

text \<open>Reading a missing \<open>signature\<close> or \<open>public_key\<close> as the empty string never helps it verify.\<close>

lemma py_fromhex_default:
  "py_fromhex (dget_default env k (JStr [])) = Inr b \<and> length b = Suc n \<longleftrightarrow>
   py_fromhex (dget env k) = Inr b \<and> length b = Suc n"
  by (auto simp: dget_def dget_default_def split: option.splits)

lemma check_signature_iff:
  "check_signature K env \<longleftrightarrow>
     (\<exists>message s p. canonical K (JDict (envelope_for_signature env)) = Inr message
        \<and> py_fromhex (dget env ''signature'') = Inr s \<and> length s = 64
        \<and> py_fromhex (dget env ''public_key'') = Inr p \<and> length p = 32
        \<and> k_ed_verify K p message s)"
proof (cases "canonical K (JDict (envelope_for_signature env))")
  case (Inr message)
  have "check_signature K env \<longleftrightarrow>
      (\<exists>s p. (py_fromhex (dget_default env ''signature'' (JStr [])) = Inr s \<and> length s = Suc 63)
        \<and> (py_fromhex (dget_default env ''public_key'' (JStr [])) = Inr p \<and> length p = Suc 31)
        \<and> k_ed_verify K p message s)"
    by (auto simp: check_signature_def verify_signature_iff Inr)
  also have "\<dots> \<longleftrightarrow>
      (\<exists>s p. (py_fromhex (dget env ''signature'') = Inr s \<and> length s = Suc 63)
        \<and> (py_fromhex (dget env ''public_key'') = Inr p \<and> length p = Suc 31)
        \<and> k_ed_verify K p message s)"
    unfolding py_fromhex_default ..
  finally show ?thesis by (simp add: Inr)
qed (simp add: check_signature_def)

text \<open>What a positive verdict says, with every check spelt out.\<close>

lemma verify_envelope_ok:
  "vr_ok (verify_envelope K (JDict env) pb e legacy) \<longleftrightarrow>
     (if dget env ''spec_version'' = JNull then legacy
      else spec_version_supported (dget env ''spec_version''))
     \<and> (\<exists>stored. dget env ''payload_hash'' = JStr stored
        \<and> (has_key ''payload'' env \<longrightarrow> canonical_hash K (dget env ''payload'') = Inr stored)
        \<and> (\<forall>b. pb = Some b \<longrightarrow> sha256_hex K b = stored))
     \<and> (\<exists>message s p. canonical K (JDict (envelope_for_signature env)) = Inr message
        \<and> py_fromhex (dget env ''signature'') = Inr s \<and> length s = 64
        \<and> py_fromhex (dget env ''public_key'') = Inr p \<and> length p = 32
        \<and> k_ed_verify K p message s)"
  unfolding verify_envelope_fields check_spec_version_ok check_payload_ok check_signature_iff
  by blast

section \<open>The signed scope under updates\<close>

text \<open>The keys whose change can move an envelope between the stripping and the full scope.\<close>

lemma strips_annotations_cong:
  "dget a ''spec_version'' = dget b ''spec_version'' \<Longrightarrow> strips_annotations a = strips_annotations b"
  by (simp add: strips_annotations_def)

lemma scope_append_new:
  assumes "k \<noteq> ''spec_version''" and "\<not> has_key k env"
  shows "envelope_for_signature (env @ [(k, v)]) =
    envelope_for_signature env
      @ (if k \<in> set UNSIGNED_FIELDS \<or> strips_annotations env \<and> starts_with ''_'' k then [] else [(k, v)])"
proof -
  have "dget (env @ [(k, v)]) ''spec_version'' = dget env ''spec_version''"
    using assms(1) by (simp add: dget_def map_add_def split: option.splits)
  then have "strips_annotations (env @ [(k, v)]) = strips_annotations env"
    by (rule strips_annotations_cong)
  then show ?thesis by (simp add: envelope_for_signature_def Let_def)
qed

lemma scope_put_unsigned:
  assumes "k \<in> set UNSIGNED_FIELDS"
  shows "envelope_for_signature (dput k v env) = envelope_for_signature env"
proof -
  have "strips_annotations (dput k v env) = strips_annotations env"
    using assms by (intro strips_annotations_cong) (auto simp: UNSIGNED_FIELDS_def)
  then show ?thesis
    unfolding envelope_for_signature_def Let_def using assms
    by (simp only:) (rule filter_dput_out, simp)
qed

lemma dget_scope:
  "dget (envelope_for_signature env) k =
     (if k \<in> set UNSIGNED_FIELDS \<or> strips_annotations env \<and> starts_with ''_'' k then JNull else dget env k)"
  unfolding envelope_for_signature_def Let_def
  by (subst dget_filter) auto

section \<open>Signing\<close>

text \<open>What a successful \<open>sign_envelope\<close> returns.\<close>

lemma sign_envelope_Inr:
  assumes "sign_envelope K envelope key = Inr signed_env"
  obtains env message where
    "signed_env = dput ''signature'' (JStr (hex_encode (sign K message key))) env"
    "canonical K (JDict (envelope_for_signature env)) = Inr message"
    "dget env ''public_key'' = JStr (public_key_hex K key)"
    "has_key ''payload_hash'' env"
    "has_key ''payload'' env \<longrightarrow>
       (\<exists>c. canonical_hash K (dget env ''payload'') = Inr c \<and> dget env ''payload_hash'' = JStr c)"
    "\<forall>k. k \<noteq> ''payload_hash'' \<and> k \<noteq> ''public_key'' \<longrightarrow> map_of env k = map_of envelope k"
    "has_key ''payload_hash'' envelope \<longrightarrow> dget env ''payload_hash'' = dget envelope ''payload_hash''"
proof -
  have put: "dget (dsetdefault k v d) k' = (if k = k' \<and> \<not> has_key k d then v else dget d k')"
    "has_key k' (dsetdefault k v d) \<longleftrightarrow> k' = k \<or> has_key k' d"
    "map_of (dsetdefault k v d) k' = (if k = k' \<and> \<not> has_key k d then Some v else map_of d k')"
    for k v d k'
    by (auto simp: dsetdefault_def map_of_dput)
  show thesis
    using assms
    by (auto simp: sign_envelope_def Let_def result_simps put split: if_splits intro!: that)
qed

text \<open>A producer's output passes the verifier of the same environment.\<close>

lemma sign_envelope_verifies:
  assumes "ed25519_contract K" and "length key = 32"
    and "sign_envelope K envelope key = Inr signed_env"
    and "spec_version_supported (dget envelope ''spec_version'')"
    and "has_key ''payload'' envelope \<or> is_str (dget envelope ''payload_hash'')"
  shows "vr_ok (verify_envelope K (JDict signed_env) None e legacy)"
proof -
  obtain env message where s: "signed_env = dput ''signature'' (JStr (hex_encode (sign K message key))) env"
    and m: "canonical K (JDict (envelope_for_signature env)) = Inr message"
    and pub: "dget env ''public_key'' = JStr (public_key_hex K key)"
    and hash: "has_key ''payload_hash'' env"
    and payload: "has_key ''payload'' env \<longrightarrow>
       (\<exists>c. canonical_hash K (dget env ''payload'') = Inr c \<and> dget env ''payload_hash'' = JStr c)"
    and keep: "\<forall>k. k \<noteq> ''payload_hash'' \<and> k \<noteq> ''public_key'' \<longrightarrow> map_of env k = map_of envelope k"
    and hash_keep: "has_key ''payload_hash'' envelope \<longrightarrow>
       dget env ''payload_hash'' = dget envelope ''payload_hash''"
    using assms(3) by (rule sign_envelope_Inr)
  have sv: "dget env ''spec_version'' = dget envelope ''spec_version''"
    and pl: "has_key ''payload'' env \<longleftrightarrow> has_key ''payload'' envelope"
    using keep [rule_format, of "''spec_version''"] keep [rule_format, of "''payload''"]
    by (simp_all add: dget_def has_key_def)
  have "\<exists>stored. dget env ''payload_hash'' = JStr stored
      \<and> (has_key ''payload'' env \<longrightarrow> canonical_hash K (dget env ''payload'') = Inr stored)"
  proof (cases "has_key ''payload'' env")
    case False
    then have str: "is_str (dget envelope ''payload_hash'')" using assms(5) pl by simp
    then have "has_key ''payload_hash'' envelope" by (intro dget_has_key) auto
    with str hash_keep False show ?thesis by (auto simp: is_str_iff)
  qed (use payload in blast)
  moreover have "check_signature K signed_env"
  proof -
    have "canonical K (JDict (envelope_for_signature signed_env)) = Inr message"
      using m by (simp add: s scope_put_unsigned UNSIGNED_FIELDS_def)
    moreover have "dget signed_env ''signature'' = JStr (hex_encode (sign K message key))"
      "dget signed_env ''public_key'' = JStr (public_key_hex K key)"
      using pub by (simp_all add: s)
    ultimately show ?thesis
      using assms(1,2) by (auto simp: check_signature_iff sign_def public_key_hex_def
          fromhex_hex_encode ed25519_contract_def)
  qed
  moreover have "dget envelope ''spec_version'' \<noteq> JNull"
    using assms(4) by auto
  ultimately show ?thesis
    using assms(4) by (simp add: verify_envelope_fields check_spec_version_ok check_payload_ok s sv)
qed

section \<open>Properties\<close>

text \<open>An inline-payload envelope before signing, and the signed one.\<close>

definition toy_unsigned :: "json \<Rightarrow> items" where
  "toy_unsigned payload =
     [(''spec_version'', JStr ''ario.agent/v1''), (''event_type'', JStr ''asset_registered''),
      (''payload'', payload)]"

lemma toy_signs:
  assumes "depth payload \<le> 100"
  shows "\<exists>ph pk s. sign_envelope toy (toy_unsigned payload) toy_seed =
    Inr (toy_unsigned payload @ [(''payload_hash'', JStr ph), (''public_key'', JStr pk), (''signature'', JStr s)])"
proof -
  have 1: "depth payload \<le> MAX_CANONICAL_DEPTH" using assms by (simp add: MAX_CANONICAL_DEPTH_def)
  have 2: "depth (JDict [(''spec_version'', JStr a), (''event_type'', JStr t), (''payload'', payload), (''payload_hash'', JStr b), (''public_key'', JStr c)])
     \<le> MAX_CANONICAL_DEPTH" for a b c t
    using assms unfolding MAX_CANONICAL_DEPTH_def
    by (intro le_trans [OF depth_dict_le [THEN iffD2, of _ 100]]) auto
  show ?thesis using canonical_json_shallow [OF 1] canonical_json_shallow [OF 2]
  by (simp add: sign_envelope_def toy_unsigned_def has_key_def dget_def dput_def canonical_hash_def
      canonical_def  dsetdefault_def 
      envelope_for_signature_def strips_annotations_def UNSIGNED_FIELDS_def starts_with_def
      matches_major_def Let_def)
qed

lemma toy_verifies:
  assumes "depth payload \<le> 100"
  shows "\<exists>ph pk s. vr_ok (verify_envelope toy
    (JDict (toy_unsigned payload
       @ [(''payload_hash'', JStr ph), (''public_key'', JStr pk), (''signature'', JStr s)])) None e legacy)"
proof -
  have "spec_version_supported (dget (toy_unsigned payload) ''spec_version'')"
    "has_key ''payload'' (toy_unsigned payload)"
    by (simp_all add: toy_unsigned_def dget_def has_key_def ACCEPTED_SPEC_VERSIONS_def matches_major_def)
  then show ?thesis
    using toy_signs [OF assms] sign_envelope_verifies [OF toy_ed25519 length_toy_seed] by blast
qed

definition toy_envelope :: items where
  "toy_envelope = toy_unsigned (JInt 5)"


lemma toy_envelope_fields [simp]:
  "dget toy_envelope ''spec_version'' = JStr ''ario.agent/v1''"
  "has_key ''payload'' toy_envelope"
  by (simp_all add: toy_envelope_def toy_unsigned_def dget_def has_key_def)



text \<open>
  C16: the verdict is exactly the conjunction of the three cryptographic checks.  \<open>ok\<close> holds iff
  the version is registered (or absent and legacy envelopes are allowed), \<open>payload_hash\<close> is a
  string equal to the hash of every available payload, and the 64-byte signature verifies
  under the 32-byte key over the canonical signed scope.  The expected content hash plays no part.
\<close>

theorem verify_envelope_verdict:
  "vr_ok (verify_envelope K (JDict env) payload_bytes expected allow_legacy) \<longleftrightarrow>
     (if dget env ''spec_version'' = JNull then allow_legacy
      else spec_version_supported (dget env ''spec_version''))
     \<and> (\<exists>stored. dget env ''payload_hash'' = JStr stored
        \<and> (has_key ''payload'' env \<longrightarrow> canonical_hash K (dget env ''payload'') = Inr stored)
        \<and> (\<forall>b. payload_bytes = Some b \<longrightarrow> sha256_hex K b = stored))
     \<and> (\<exists>message s p. canonical K (JDict (envelope_for_signature env)) = Inr message
        \<and> py_fromhex (dget env ''signature'') = Inr s \<and> length s = 64
        \<and> py_fromhex (dget env ''public_key'') = Inr p \<and> length p = 32
        \<and> k_ed_verify K p message s)"
  by (rule verify_envelope_ok)

theorem verify_envelope_verdict_witness:
  "\<not> vr_ok (verify_envelope toy (JDict toy_envelope) None None True)"
  unfolding verify_envelope_verdict by (simp add: toy_envelope_def toy_unsigned_def dget_def)

text \<open>
  C18: an annotation added after signing.  Appending a fresh key \<open>_k\<close> changes the signed scope
  of an envelope exactly when its profile has no annotation convention: for mlflow and legacy
  envelopes the whole verdict is unchanged, for every other profile the key enters the scope.
\<close>

theorem annotation_injection:
  assumes "\<not> has_key (CHR ''_'' # k) env"
  shows "envelope_for_signature (env @ [(CHR ''_'' # k, v)]) =
           envelope_for_signature env @ (if strips_annotations env then [] else [(CHR ''_'' # k, v)])
         \<and> (strips_annotations env \<longrightarrow>
             verify_envelope K (JDict (env @ [(CHR ''_'' # k, v)])) pb e legacy
               = verify_envelope K (JDict env) pb e legacy)"
proof (intro conjI impI)
  let ?env = "env @ [(CHR ''_'' # k, v)]"
  show scope: "envelope_for_signature ?env =
      envelope_for_signature env @ (if strips_annotations env then [] else [(CHR ''_'' # k, v)])"
    using scope_append_new [OF _ assms, of v] by (simp add: UNSIGNED_FIELDS_def starts_with_def)
  have same: "map_of ?env k' = map_of env k'" if "\<not> starts_with ''_'' k'" for k'
    using that by (auto simp: map_add_def starts_with_def split: option.splits)
  have reads: "map_of ?env ''spec_version'' = map_of env ''spec_version''"
    "map_of ?env ''payload'' = map_of env ''payload''"
    "map_of ?env ''payload_hash'' = map_of env ''payload_hash''"
    "map_of ?env ''signature'' = map_of env ''signature''"
    "map_of ?env ''public_key'' = map_of env ''public_key''"
    "map_of ?env ''event_type'' = map_of env ''event_type''"
    by (rule same, simp add: starts_with_def)+
  assume strip: "strips_annotations env"
  have "check_signature K ?env = check_signature K env"
    unfolding check_signature_def dget_default_def scope reads by (simp add: strip)
  moreover have "check_payload K ?env pb = check_payload K env pb"
    unfolding check_payload_def dget_def has_key_def reads ..
  moreover have "check_spec_version ?env legacy = check_spec_version env legacy"
    unfolding check_spec_version_def dget_def reads ..
  moreover have "content_hashes ?env = content_hashes env"
    unfolding content_hashes_def dget_def reads ..
  then have "check_content ?env e = check_content env e"
    unfolding check_content_def by (simp only:)
  ultimately show "verify_envelope K (JDict ?env) pb e legacy = verify_envelope K (JDict env) pb e legacy"
    by (simp add: verify_envelope_def)
qed

theorem annotation_injection_witness:
  "envelope_for_signature (toy_envelope @ [(''_tx_id'', JNull)])
     = envelope_for_signature toy_envelope @ [(''_tx_id'', JNull)]"
  using annotation_injection [of "''tx_id''" toy_envelope JNull]
  by (simp add: strips_annotations_def matches_major_def starts_with_def has_key_def toy_envelope_def toy_unsigned_def dget_def)

text \<open>
  The grammar of the registry.  A version is accepted iff it is a string made of one of
  the three majors, alone or followed by a dot and a nonempty run of decimal digits; so
  \<open>ario.agent/v10\<close>, \<open>ario.agent/v1.\<close> and \<open>ario.agent/v1.x\<close> are refused.
\<close>

lemma spec_version_grammar:
  "spec_version_supported v \<longleftrightarrow>
     (\<exists>major \<in> {''ario.agent/v1'', ''ario.mlflow/v1'', ''ario.events/v1''}.
        v = JStr major
        \<or> (\<exists>minor. v = JStr (major @ ''.'' @ minor) \<and> minor \<noteq> [] \<and> set minor \<subseteq> set ''0123456789''))"
proof (cases "is_str v")
  case True
  then obtain s where v: "v = JStr s" by (auto simp: is_str_iff)
  have digits: "(\<forall>c \<in> set minor. is_digit c) \<longleftrightarrow> set minor \<subseteq> set ''0123456789''" for minor
    unfolding is_digit_def by blast
  have majors: "set ACCEPTED_SPEC_VERSIONS = {''ario.agent/v1'', ''ario.mlflow/v1'', ''ario.events/v1''}"
    by (simp add: ACCEPTED_SPEC_VERSIONS_def)
  show ?thesis
    unfolding v spec_version_supported.simps list_ex_iff matches_major_iff digits majors json.inject ..
next
  case False
  then have "\<not> spec_version_supported v" and "v \<noteq> JStr s" for s by (cases v; simp)+
  then show ?thesis by blast
qed

text \<open>
  The content bind reports the role of the first committed hash equal to the wanted one in
  lower case, and reports nothing when no hash was asked for.
\<close>

lemma content_bind:
  "let r = verify_envelope K (JDict env) pb expected legacy
   in (vr_content_hash_ok r = None \<longleftrightarrow> expected = None)
      \<and> (vr_content_hash_ok r = Some True \<longleftrightarrow>
           (\<exists>e role h. expected = Some e \<and> (role, h) \<in> set (content_hashes env) \<and> lower h = lower e))
      \<and> (vr_content_role r = None \<longleftrightarrow> vr_content_hash_ok r \<noteq> Some True)"
proof (cases expected)
  case (Some e)
  let ?P = "\<lambda>(role, candidate). lower candidate = lower e"
  show ?thesis
  proof (cases "find ?P (content_hashes env)")
    case None
    then have "\<not> (\<exists>role h. (role, h) \<in> set (content_hashes env) \<and> lower h = lower e)"
      by (auto simp: find_None_iff)
    with None show ?thesis by (auto simp: Let_def verify_envelope_fields check_content_def Some)
  next
    case (Some x)
    then have "x \<in> set (content_hashes env)" "?P x"
      unfolding find_Some_iff by (metis nth_mem)+
    then have "\<exists>role h. (role, h) \<in> set (content_hashes env) \<and> lower h = lower e"
      by (cases x) auto
    with Some show ?thesis
      by (cases x) (auto simp: Let_def verify_envelope_fields check_content_def \<open>expected = Some e\<close>)
  qed
qed (simp add: Let_def verify_envelope_fields check_content_def)

end
