(* ===== verification/Proof_Bundle.thy ===== *)
theory Proof_Bundle
  imports Envelope
begin

text \<open>
  \<open>bundle.py\<close>: verification of an \<open>ario.agent.proof/v1\<close> inclusion-proof bundle, which carries
  one leaf, its audit path and the signed checkpoint envelope that commits to the Merkle root.
\<close>

section \<open>Results\<close>

definition BUNDLE_SPEC_VERSION :: string where
  "BUNDLE_SPEC_VERSION = ''ario.agent.proof/v1''"

datatype bundle_note =
    BundleNotObject
  | BundleTooDeep
  | UnsupportedBundleVersion json
  | MissingCheckpointEnvelope
  | MissingLeaf
  | MissingCheckpointTxId
  | EnvelopeNote env_note
  | CheckpointEnvelopeFailed
  | LeafNotCanonicalizable
  | CheckpointPayloadShape
  | LeafCountType
  | ProofFieldsMalformed
  | PathDoesNotReconstructRoot

record bundle_result =
  br_ok :: bool
  br_spec_version_ok :: bool
  br_envelope :: "verification_result option"
  br_inclusion_ok :: bool
  br_errors :: "bundle_note list"

definition fail_bundle ::
  "bundle_note list \<Rightarrow> bool \<Rightarrow> verification_result option \<Rightarrow> bundle_result" where
  "fail_bundle errors spec_version_ok envelope =
     \<lparr> br_ok = False, br_spec_version_ok = spec_version_ok, br_envelope = envelope,
       br_inclusion_ok = False, br_errors = errors \<rparr>"

section \<open>verify_proof_bundle\<close>

text \<open>
  The \<open>try\<close> block that decodes the root, the path and the index.  Its handler catches
  \<open>TypeError\<close> and \<open>ValueError\<close>, the only exceptions the block can raise.
\<close>

definition proof_fields :: "json \<Rightarrow> json \<Rightarrow> json \<Rightarrow> exc + (bytes \<times> bytes list \<times> int)" where
  "proof_fields root_hex path_value leaf_index =
     ebind (py_fromhex root_hex)
       (\<lambda>expected_root. ebind (ebind (py_iter path_value) (emap py_fromhex))
         (\<lambda>path.
            if length expected_root \<noteq> 32 \<or> list_ex (\<lambda>h. length h \<noteq> 32) path then Inl ValueError
            else case leaf_index of
              JInt i \<Rightarrow> Inr (expected_root, path, i)
            | _ \<Rightarrow> Inl ValueError))"

text \<open>Steps 1 to 4, once the shape of the bundle is known.\<close>

definition check_proof :: "kernel \<Rightarrow> items \<Rightarrow> items \<Rightarrow> items \<Rightarrow> bundle_result" where
  "check_proof K bundle envelope leaf =
     (let env_result = verify_envelope K (JDict envelope) None None False;
          errors = map EnvelopeNote (vr_errors env_result)
            @ (if vr_ok env_result then [] else [CheckpointEnvelopeFailed]);
          fail = (\<lambda>note. fail_bundle (errors @ [note]) True (Some env_result))
      in case canonical K (JDict leaf) of
           Inl exc \<Rightarrow> fail LeafNotCanonicalizable
         | Inr leaf_bytes \<Rightarrow>
             (case dget envelope ''payload'' of
                JDict payload \<Rightarrow>
                  (case dget payload ''leaf_count'' of
                     JInt leaf_count \<Rightarrow>
                       (case proof_fields (dget payload ''merkle_root'') (dget bundle ''audit_path'')
                               (dget bundle ''leaf_index'') of
                          Inl exc \<Rightarrow> fail ProofFieldsMalformed
                        | Inr (expected_root, path, leaf_index) \<Rightarrow>
                            (let inclusion_ok =
                                   verify_inclusion (k_sha256 K) (leaf_hash (k_sha256 K) leaf_bytes)
                                     leaf_index leaf_count path expected_root
                             in \<lparr> br_ok = vr_ok env_result \<and> inclusion_ok,
                                  br_spec_version_ok = True,
                                  br_envelope = Some env_result,
                                  br_inclusion_ok = inclusion_ok,
                                  br_errors = errors
                                    @ (if inclusion_ok then [] else [PathDoesNotReconstructRoot]) \<rparr>))
                   | _ \<Rightarrow> fail LeafCountType)
              | _ \<Rightarrow> fail CheckpointPayloadShape))"

definition verify_proof_bundle :: "kernel \<Rightarrow> json \<Rightarrow> bundle_result" where
  "verify_proof_bundle K bundle =
     (case bundle of
        JDict b \<Rightarrow>
          (if exceeds_depth bundle MAX_CANONICAL_DEPTH then fail_bundle [BundleTooDeep] False None
           else if dget b ''spec_version'' \<noteq> JStr BUNDLE_SPEC_VERSION
           then fail_bundle [UnsupportedBundleVersion (dget b ''spec_version'')] False None
           else case dget b ''checkpoint_envelope'' of
             JDict envelope \<Rightarrow>
               (case dget b ''leaf'' of
                  JDict leaf \<Rightarrow>
                    (case dget b ''checkpoint_tx_id'' of
                       JStr tx_id \<Rightarrow>
                         (if tx_id = [] then fail_bundle [MissingCheckpointTxId] True None
                          else check_proof K b envelope leaf)
                     | _ \<Rightarrow> fail_bundle [MissingCheckpointTxId] True None)
                | _ \<Rightarrow> fail_bundle [MissingLeaf] True None)
           | _ \<Rightarrow> fail_bundle [MissingCheckpointEnvelope] True None)
      | _ \<Rightarrow> fail_bundle [BundleNotObject] False None)"

section \<open>Lemmas\<close>

lemma fail_bundle_simps [simp]:
  "\<not> br_ok (fail_bundle ns s e)" "\<not> br_inclusion_ok (fail_bundle ns s e)"
  "br_errors (fail_bundle ns s e) = ns"
  by (simp_all add: fail_bundle_def)

lemma py_iter_error: "py_iter v = Inl e \<Longrightarrow> e = TypeError"
  by (cases v) auto

text \<open>Nothing but the two exceptions the handler names leaves the \<open>try\<close> block.\<close>

lemma proof_fields_error:
  assumes "proof_fields r p i = Inl e"
  shows "e = ValueError \<or> e = TypeError"
proof -
  have path: "emap py_fromhex xs = Inl e \<Longrightarrow> e = ValueError \<or> e = TypeError" for xs
    using emap_Inl py_fromhex_error by blast
  show ?thesis
    using assms unfolding proof_fields_def
    by (cases i) (auto simp: ebind_Inl_iff dest: py_fromhex_error py_iter_error path split: if_splits)
qed

lemma proof_fields_Inr:
  "proof_fields r p i = Inr (root, path, n) \<longleftrightarrow>
     py_fromhex r = Inr root \<and> length root = 32
     \<and> (\<exists>hs. py_iter p = Inr hs \<and> list_all2 (\<lambda>h b. py_fromhex h = Inr b \<and> length b = 32) hs path)
     \<and> i = JInt n"
proof -
  have "list_all2 (\<lambda>h b. py_fromhex h = Inr b \<and> length b = 32) hs path \<longleftrightarrow>
      list_all2 (\<lambda>h b. py_fromhex h = Inr b) hs path \<and> \<not> list_ex (\<lambda>h. length h \<noteq> 32) path" for hs
    by (induction hs path rule: list_induct2') auto
  then show ?thesis
    by (cases i) (auto simp: proof_fields_def result_simps)
qed

lemma check_proof_ok:
  "br_ok (check_proof K b env leaf) \<longleftrightarrow>
     vr_ok (verify_envelope K (JDict env) None None False)
     \<and> (\<exists>leaf_bytes payload n root path i.
          canonical K (JDict leaf) = Inr leaf_bytes
          \<and> dget env ''payload'' = JDict payload \<and> dget payload ''leaf_count'' = JInt n
          \<and> proof_fields (dget payload ''merkle_root'') (dget b ''audit_path'')
               (dget b ''leaf_index'') = Inr (root, path, i)
          \<and> verify_inclusion (k_sha256 K) (leaf_hash (k_sha256 K) leaf_bytes) i n path root)"
  unfolding check_proof_def Let_def
  by (auto split: sum.splits json.splits)

lemma verify_proof_bundle_ok:
  "br_ok (verify_proof_bundle K v) \<longleftrightarrow>
     (\<exists>b env leaf tx_id. v = JDict b \<and> depth v \<le> MAX_CANONICAL_DEPTH
        \<and> dget b ''spec_version'' = JStr BUNDLE_SPEC_VERSION
        \<and> dget b ''checkpoint_envelope'' = JDict env \<and> dget b ''leaf'' = JDict leaf
        \<and> dget b ''checkpoint_tx_id'' = JStr tx_id \<and> tx_id \<noteq> []
        \<and> br_ok (check_proof K b env leaf))"
  unfolding verify_proof_bundle_def
  by (auto simp: exceeds_depth_iff split: json.splits)

section \<open>Bundles of an honest producer\<close>

text \<open>The bundle the agent emits for a leaf: the fields \<open>verify_proof_bundle\<close> reads.\<close>

definition make_bundle :: "string \<Rightarrow> items \<Rightarrow> items \<Rightarrow> int \<Rightarrow> bytes list \<Rightarrow> items" where
  "make_bundle tx_id envelope leaf i path =
     [(''spec_version'', JStr BUNDLE_SPEC_VERSION), (''checkpoint_tx_id'', JStr tx_id),
      (''checkpoint_envelope'', JDict envelope), (''leaf'', JDict leaf),
      (''leaf_index'', JInt i), (''audit_path'', JList (map (\<lambda>p. JStr (hex_encode p)) path))]"

lemma dget_make_bundle [simp]:
  "dget (make_bundle t env leaf i path) ''spec_version'' = JStr BUNDLE_SPEC_VERSION"
  "dget (make_bundle t env leaf i path) ''checkpoint_tx_id'' = JStr t"
  "dget (make_bundle t env leaf i path) ''checkpoint_envelope'' = JDict env"
  "dget (make_bundle t env leaf i path) ''leaf'' = JDict leaf"
  "dget (make_bundle t env leaf i path) ''leaf_index'' = JInt i"
  "dget (make_bundle t env leaf i path) ''audit_path'' = JList (map (\<lambda>p. JStr (hex_encode p)) path)"
  by (simp_all add: make_bundle_def dget_def)

lemma make_bundle_accepted:
  assumes "digest32 (k_sha256 K)"
    and "vr_ok (verify_envelope K (JDict env) None None False)"
    and "dget env ''payload'' = JDict payload"
    and "dget payload ''merkle_root'' =
           JStr (hex_encode (merkle_root (k_sha256 K) (map (leaf_hash (k_sha256 K)) ds)))"
    and "dget payload ''leaf_count'' = JInt (int (length ds))"
    and "canonical K (JDict leaf) = Inr (ds ! nat i)"
    and "audit_path (k_sha256 K) i (map (leaf_hash (k_sha256 K)) ds) = Inr path"
    and "depth (JDict (make_bundle tx_id env leaf i path)) \<le> MAX_CANONICAL_DEPTH" and "tx_id \<noteq> []"
  shows "br_ok (verify_proof_bundle K (JDict (make_bundle tx_id env leaf i path)))"
proof -
  let ?h = "k_sha256 K" and ?xs = "map (leaf_hash (k_sha256 K)) ds"
  have i: "nat i < length ds" and path: "path = audit_path_rec ?h (nat i) ?xs"
    using assms(7) by (auto simp: audit_path_def split: if_splits)
  have len: "\<forall>x \<in> set ?xs. length x = 32"
    using digest32.leaf_hash_length [OF assms(1)] by auto
  have root: "length (merkle_root ?h ?xs) = 32"
    using digest32.merkle_root_length [OF assms(1)] len by blast
  have "list_all2 (\<lambda>h b. py_fromhex h = Inr b \<and> length b = 32) (map (\<lambda>p. JStr (hex_encode p)) path) path"
    using digest32.audit_path_length [OF assms(1) len, of "nat i"] path
    by (auto simp: list_all2_map1 list_all2_same fromhex_hex_encode)
  then have "proof_fields (dget payload ''merkle_root'')
      (dget (make_bundle tx_id env leaf i path) ''audit_path'')
      (dget (make_bundle tx_id env leaf i path) ''leaf_index'') = Inr (merkle_root ?h ?xs, path, i)"
    using root assms(4)
    by (auto simp: proof_fields_Inr fromhex_hex_encode)
  moreover have "verify_inclusion ?h (leaf_hash ?h (ds ! nat i)) i (int (length ds)) path (merkle_root ?h ?xs)"
    using verify_inclusion_of_audit_path [OF assms(7)] i by simp
  ultimately show ?thesis
    using assms by (auto simp: verify_proof_bundle_ok check_proof_ok)
qed

text \<open>A two-leaf checkpoint in the toy environment, and the bundle of its second leaf.\<close>

definition toy_leaf :: "int \<Rightarrow> items" where
  "toy_leaf i = [(''id'', JInt i)]"

definition toy_leaf_bytes :: "bytes list" where
  "toy_leaf_bytes = [toy_jcs (JDict (toy_leaf 1)), toy_jcs (JDict (toy_leaf 2))]"

definition toy_root :: string where
  "toy_root = hex_encode (merkle_root toy_hash (map (leaf_hash toy_hash) toy_leaf_bytes))"

definition toy_payload :: items where
  "toy_payload = [(''merkle_root'', JStr toy_root), (''leaf_count'', JInt 2)]"

lemma toy_payload_simps [simp]:
  "dget toy_payload ''merkle_root'' = JStr toy_root" "dget toy_payload ''leaf_count'' = JInt 2"
  by (simp_all add: toy_payload_def dget_def)

definition toy_path :: "bytes list" where
  "toy_path = [leaf_hash toy_hash (toy_leaf_bytes ! 0)]"

lemma toy_audit_path: "audit_path toy_hash 1 (map (leaf_hash toy_hash) toy_leaf_bytes) = Inr toy_path"
  by code_simp

lemma length_toy_leaf_bytes: "length toy_leaf_bytes = 2"
  by (simp add: toy_leaf_bytes_def)

lemma toy_proof_fields:
  "\<exists>root. proof_fields (JStr toy_root) (JList (map (\<lambda>p. JStr (hex_encode p)) toy_path)) (JInt 1)
     = Inr (root, toy_path, 1)"
proof -
  have "length (merkle_root toy_hash (map (leaf_hash toy_hash) toy_leaf_bytes)) = 32"
    by (rule toy_hash.merkle_root_length) (auto simp: toy_hash.leaf_hash_length)
  moreover have "list_all2 (\<lambda>h p. py_fromhex h = Inr p \<and> length p = 32)
      (map (\<lambda>p. JStr (hex_encode p)) toy_path) toy_path"
    by (simp add: toy_path_def fromhex_hex_encode)
  ultimately show ?thesis
    unfolding proof_fields_Inr toy_root_def py_fromhex.simps py_iter.simps fromhex_hex_encode by blast
qed

lemma toy_checkpoint_verifies:
  "\<exists>env. vr_ok (verify_envelope toy (JDict env) None None False)
     \<and> dget env ''payload'' = JDict toy_payload \<and> depth (JDict env) \<le> 10"
proof -
  have d: "depth (JDict toy_payload) \<le> 1" by (simp add: toy_payload_def)
  then obtain ph pk s where "vr_ok (verify_envelope toy
    (JDict (toy_unsigned (JDict toy_payload)
       @ [(''payload_hash'', JStr ph), (''public_key'', JStr pk), (''signature'', JStr s)])) None None False)"
    (is "vr_ok (verify_envelope toy (JDict ?env) _ _ _)")
    using toy_verifies [of "JDict toy_payload"] by fastforce
  moreover have "dget ?env ''payload'' = JDict toy_payload" by (simp add: toy_unsigned_def dget_def)
  moreover have "depth (JDict ?env) \<le> 10"
    using d by (simp add: toy_unsigned_def del: depth.simps)  (simp add: toy_payload_def)
  ultimately show ?thesis by blast
qed

lemma toy_bundle_fits:
  assumes "depth (JDict env) \<le> 10"
  shows "depth (JDict (make_bundle ''tx'' env (toy_leaf 2) 1 toy_path)) \<le> MAX_CANONICAL_DEPTH"
proof -
  have "depth (JDict (toy_leaf 2)) \<le> 1" by (simp add: toy_leaf_def)
  moreover have "depth (JList (map (\<lambda>p. JStr (hex_encode p)) toy_path)) \<le> 1" by (simp add: toy_path_def)
  ultimately show ?thesis
    using assms unfolding MAX_CANONICAL_DEPTH_def make_bundle_def
    by (intro le_trans [OF depth_dict_le [THEN iffD2, of _ 10]]) (auto simp del: depth.simps(1,2))
qed

lemma toy_bundle_accepted:
  assumes "vr_ok (verify_envelope toy (JDict env) None None False)"
    and "dget env ''payload'' = JDict toy_payload" and "depth (JDict env) \<le> 10"
  shows "br_ok (verify_proof_bundle toy (JDict (make_bundle ''tx'' env (toy_leaf 2) 1 toy_path)))"
proof -
  have "canonical toy (JDict (toy_leaf 2)) = Inr (toy_leaf_bytes ! nat 1)"
    by (simp add: canonical_def canonical_json_shallow toy_leaf_def toy_leaf_bytes_def MAX_CANONICAL_DEPTH_def)
  then show ?thesis
    using make_bundle_accepted [of toy env toy_payload toy_leaf_bytes "toy_leaf 2" 1 toy_path "''tx''"]
      assms toy_hash.digest32_axioms toy_audit_path toy_bundle_fits
    by (simp add: toy_root_def toy_leaf_bytes_def)
qed

section \<open>Properties\<close>

text \<open>
  C22: what a positive verdict on a proof bundle says.  \<open>ok\<close> holds iff the bundle is at most 128
  levels deep, has the right version, a checkpoint envelope, a leaf and a nonempty transaction
  id; the envelope verifies with no external payload; its inline payload gives an integer leaf
  count and a 32-byte root; the index is an integer, every path entry decodes to 32 bytes; and
  the path leads from the hash of the canonical leaf to the root.
\<close>

theorem proof_bundle_verdict:
  "br_ok (verify_proof_bundle K v) \<longleftrightarrow>
     (\<exists>b env leaf tx_id leaf_bytes payload n root path i.
        v = JDict b \<and> depth v \<le> 128 \<and> dget b ''spec_version'' = JStr ''ario.agent.proof/v1''
        \<and> dget b ''checkpoint_envelope'' = JDict env \<and> dget b ''leaf'' = JDict leaf
        \<and> dget b ''checkpoint_tx_id'' = JStr tx_id \<and> tx_id \<noteq> []
        \<and> vr_ok (verify_envelope K (JDict env) None None False)
        \<and> canonical K (JDict leaf) = Inr leaf_bytes
        \<and> dget env ''payload'' = JDict payload \<and> dget payload ''leaf_count'' = JInt n
        \<and> py_fromhex (dget payload ''merkle_root'') = Inr root \<and> length root = 32
        \<and> dget b ''leaf_index'' = JInt i
        \<and> (\<exists>hs. py_iter (dget b ''audit_path'') = Inr hs
             \<and> list_all2 (\<lambda>h p. py_fromhex h = Inr p \<and> length p = 32) hs path)
        \<and> verify_inclusion (k_sha256 K) (leaf_hash (k_sha256 K) leaf_bytes) i n path root)"
  unfolding verify_proof_bundle_ok check_proof_ok proof_fields_Inr BUNDLE_SPEC_VERSION_def
    MAX_CANONICAL_DEPTH_def
  by blast

text \<open>
  C23: the leaf of an accepted bundle is the leaf of the checkpoint at the claimed index.  If
  the verified envelope carries the root and the leaf count of a tree over the leaves \<open>ds\<close>
  and the digest has 32 bytes, then the canonical bytes of the bundle's leaf are the entry of
  \<open>ds\<close> at \<open>leaf_index\<close> and the path is the one the producer computes, unless two strings
  hashed by the two paths collide.
\<close>

theorem proof_bundle_leaf:
  assumes "digest32 (k_sha256 K)"
    and "br_ok (verify_proof_bundle K (JDict b))"
    and "dget b ''checkpoint_envelope'' = JDict env" and "dget env ''payload'' = JDict payload"
    and "dget payload ''merkle_root'' =
           JStr (hex_encode (merkle_root (k_sha256 K) (map (leaf_hash (k_sha256 K)) ds)))"
    and "dget payload ''leaf_count'' = JInt (int (length ds))"
  shows "\<exists>i leaf_bytes root path.
     proof_fields (dget payload ''merkle_root'') (dget b ''audit_path'') (dget b ''leaf_index'')
       = Inr (root, path, i)
     \<and> canonical K (dget b ''leaf'') = Inr leaf_bytes
     \<and> (0 \<le> i \<and> nat i < length ds \<and> leaf_bytes = ds ! nat i
          \<and> audit_path (k_sha256 K) i (map (leaf_hash (k_sha256 K)) ds) = Inr path
        \<or> collision (k_sha256 K) (position_inputs (k_sha256 K) ds leaf_bytes i path))"
proof -
  let ?h = "k_sha256 K"
  let ?root = "merkle_root ?h (map (leaf_hash ?h) ds)"
  obtain leaf where leaf: "dget b ''leaf'' = JDict leaf" and ok: "br_ok (check_proof K b env leaf)"
    using assms(2,3) by (auto simp: verify_proof_bundle_ok)
  obtain leaf_bytes root path i where
    lb: "canonical K (JDict leaf) = Inr leaf_bytes"
    and fields: "proof_fields (dget payload ''merkle_root'') (dget b ''audit_path'')
        (dget b ''leaf_index'') = Inr (root, path, i)"
    and incl: "verify_inclusion ?h (leaf_hash ?h leaf_bytes) i (int (length ds)) path root"
    using ok assms(4,6) by (auto simp: check_proof_ok)
  have root: "root = ?root"
    using fields assms(5) by (simp add: proof_fields_Inr fromhex_hex_encode)
  have "0 \<le> i" using incl by (simp add: verify_inclusion_iff)
  then have "0 \<le> i \<and> nat i < length ds \<and> leaf_bytes = ds ! nat i
          \<and> audit_path ?h i (map (leaf_hash ?h) ds) = Inr path
        \<or> collision ?h (position_inputs ?h ds leaf_bytes i path)"
    using verify_inclusion_position [OF assms(1) incl [unfolded root]] by blast
  with fields leaf lb show ?thesis by auto
qed

theorem proof_bundle_leaf_witness:
  "\<exists>env leaf_bytes.
     (leaf_bytes = toy_leaf_bytes ! 1 \<and> audit_path toy_hash 1 (map (leaf_hash toy_hash) toy_leaf_bytes) = Inr toy_path
      \<or> collision toy_hash (position_inputs toy_hash toy_leaf_bytes leaf_bytes 1 toy_path))
     \<and> br_ok (verify_proof_bundle toy (JDict (make_bundle ''tx'' env (toy_leaf 2) 1 toy_path)))"
proof -
  obtain env where env: "vr_ok (verify_envelope toy (JDict env) None None False)"
    "dget env ''payload'' = JDict toy_payload" "depth (JDict env) \<le> 10"
    using toy_checkpoint_verifies by blast
  note ok = toy_bundle_accepted [OF env]
  have dg: "digest32 (k_sha256 toy)" using toy_hash.digest32_axioms by simp
  obtain leaf_bytes where
    "leaf_bytes = toy_leaf_bytes ! 1 \<and> audit_path toy_hash 1 (map (leaf_hash toy_hash) toy_leaf_bytes) = Inr toy_path
      \<or> collision toy_hash (position_inputs toy_hash toy_leaf_bytes leaf_bytes 1 toy_path)"
    using toy_proof_fields proof_bundle_leaf [OF dg ok _ env(2), of toy_leaf_bytes]
    by (auto simp: length_toy_leaf_bytes toy_root_def) blast+
  with ok show ?thesis by blast
qed

text \<open>
  Every honest bundle is accepted.  A checkpoint envelope that verifies and carries the
  root and leaf count of a tree, together with the canonical leaf at some index and the path
  \<open>audit_path\<close> returns for it in hexadecimal, makes a bundle whose verdict is \<open>ok\<close>.
\<close>

lemma honest_bundle_accepted:
  assumes "digest32 (k_sha256 K)"
    and "vr_ok (verify_envelope K (JDict env) None None False)"
    and "dget env ''payload'' = JDict payload"
    and "dget payload ''merkle_root'' =
           JStr (hex_encode (merkle_root (k_sha256 K) (map (leaf_hash (k_sha256 K)) ds)))"
    and "dget payload ''leaf_count'' = JInt (int (length ds))"
    and "canonical K (JDict leaf) = Inr (ds ! nat i)"
    and "audit_path (k_sha256 K) i (map (leaf_hash (k_sha256 K)) ds) = Inr path"
    and "depth (JDict (make_bundle tx_id env leaf i path)) \<le> MAX_CANONICAL_DEPTH" and "tx_id \<noteq> []"
  shows "br_ok (verify_proof_bundle K (JDict (make_bundle tx_id env leaf i path)))"
  using assms by (rule make_bundle_accepted)

lemma honest_bundle_accepted_witness:
  "\<exists>env. br_ok (verify_proof_bundle toy (JDict (make_bundle ''tx'' env (toy_leaf 2) 1 toy_path)))"
proof -
  obtain env where env: "vr_ok (verify_envelope toy (JDict env) None None False)"
    "dget env ''payload'' = JDict toy_payload" "depth (JDict env) \<le> 10"
    using toy_checkpoint_verifies by blast
  have "canonical toy (JDict (toy_leaf 2)) = Inr (toy_leaf_bytes ! nat 1)"
    by (simp add: canonical_def canonical_json_shallow toy_leaf_def toy_leaf_bytes_def MAX_CANONICAL_DEPTH_def)
  then show ?thesis
    using honest_bundle_accepted [of toy env toy_payload toy_leaf_bytes "toy_leaf 2" 1 toy_path "''tx''"]
      env toy_hash.digest32_axioms toy_audit_path toy_bundle_fits
    by (auto simp: toy_root_def toy_leaf_bytes_def)
qed

end
