(* ===== verification/Rsa_Pss.thy ===== *)
theory Rsa_Pss
  imports Witness_Env
begin

text \<open>
  \<open>rsa_pss.py\<close>: strict hexadecimal and base64url decoding, import of an RSA public key from a
  JWK, verification of an RSA-PSS-SHA-256 signature with the pinned salt length and public
  exponent, and the derivation of an operator address from a modulus.  The base64 routines
  of the Python standard library are modelled here; the RSA operations of \<open>cryptography\<close> are
  fields of the environment.
\<close>

section \<open>base64 of the standard library\<close>

text \<open>The value of a character of the standard alphabet (\<open>A-Z a-z 0-9 + /\<close>).\<close>

definition b64_val :: "char \<Rightarrow> nat option" where
  "b64_val c =
     (let n = (of_char c :: nat)
      in if 65 \<le> n \<and> n \<le> 90 then Some (n - 65)
         else if 97 \<le> n \<and> n \<le> 122 then Some (n - 71)
         else if 48 \<le> n \<and> n \<le> 57 then Some (n + 4)
         else if n = 43 then Some 62
         else if n = 47 then Some 63
         else None)"

text \<open>The character of a 6-bit value in the URL-safe alphabet (\<open>- _\<close> for \<open>+ /\<close>).\<close>

definition b64url_char :: "nat \<Rightarrow> char" where
  "b64url_char v =
     char_of (if v < 26 then v + 65 else if v < 52 then v + 71 else if v < 62 then v - 4
              else if v = 62 then 45 else 95)"

definition urlsafe_translate :: "char \<Rightarrow> char" where
  "urlsafe_translate c = (if c = CHR ''-'' then CHR ''+'' else if c = CHR ''_'' then CHR ''/'' else c)"

text \<open>
  \<open>binascii.a2b_base64\<close> in its lenient mode: characters outside the alphabet are skipped, a
  sufficient run of \<open>=\<close> stops the input, and an unfinished group is an error.  The state is
  the position in the group of four, the bits left over, and the pads seen.
\<close>

fun a2b_base64 :: "nat \<Rightarrow> nat \<Rightarrow> nat \<Rightarrow> string \<Rightarrow> exc + bytes" where
  "a2b_base64 quad_pos leftchar pads [] = (if quad_pos \<noteq> 0 then Inl BinasciiError else Inr [])"
| "a2b_base64 quad_pos leftchar pads (c # cs) =
     (if c = CHR ''=''
      then (if 2 \<le> quad_pos \<and> 4 \<le> quad_pos + (pads + 1) then Inr []
            else a2b_base64 quad_pos leftchar (if 2 \<le> quad_pos then pads + 1 else pads) cs)
      else case b64_val c of
        None \<Rightarrow> a2b_base64 quad_pos leftchar pads cs
      | Some v \<Rightarrow>
          (if quad_pos = 0 then a2b_base64 1 v 0 cs
           else if quad_pos = 1
           then ebind (a2b_base64 2 (v mod 16) 0 cs)
                  (\<lambda>bs. Inr (byte_of (leftchar * 4 + v div 16) # bs))
           else if quad_pos = 2
           then ebind (a2b_base64 3 (v mod 4) 0 cs)
                  (\<lambda>bs. Inr (byte_of (leftchar * 16 + v div 4) # bs))
           else ebind (a2b_base64 0 0 0 cs)
                  (\<lambda>bs. Inr (byte_of (leftchar * 64 + v) # bs))))"

definition urlsafe_b64decode :: "string \<Rightarrow> exc + bytes" where
  "urlsafe_b64decode s = a2b_base64 0 0 0 (map urlsafe_translate s)"

fun urlsafe_b64encode :: "bytes \<Rightarrow> string" where
  "urlsafe_b64encode [] = []"
| "urlsafe_b64encode [a] =
     [b64url_char (unat a div 4), b64url_char (unat a mod 4 * 16), CHR ''='', CHR ''='']"
| "urlsafe_b64encode [a, b] =
     [b64url_char (unat a div 4), b64url_char (unat a mod 4 * 16 + unat b div 16),
      b64url_char (unat b mod 16 * 4), CHR ''='']"
| "urlsafe_b64encode (a # b # c # bs) =
     b64url_char (unat a div 4) # b64url_char (unat a mod 4 * 16 + unat b div 16)
     # b64url_char (unat b mod 16 * 4 + unat c div 64) # b64url_char (unat c mod 64)
     # urlsafe_b64encode bs"

text \<open>\<open>s.rstrip("=")\<close>.\<close>

definition rstrip_pad :: "string \<Rightarrow> string" where
  "rstrip_pad s = rev (dropWhile (\<lambda>c. c = CHR ''='') (rev s))"

section \<open>The decoders of rsa_pss.py\<close>

text \<open>
  \<open>re.match\<close> of \<open>^[class]*$\<close>: all characters in the class, where \<open>$\<close> also matches before a
  final newline.
\<close>

definition re_star_match :: "(char \<Rightarrow> bool) \<Rightarrow> string \<Rightarrow> bool" where
  "re_star_match cls s \<longleftrightarrow>
     list_all cls s \<or> (s \<noteq> [] \<and> last s = CHR 0x0A \<and> list_all cls (butlast s))"

definition is_b64url :: "char \<Rightarrow> bool" where
  "is_b64url c \<longleftrightarrow> b64_val (urlsafe_translate c) \<noteq> None \<and> c \<noteq> CHR ''+'' \<and> c \<noteq> CHR ''/''"

fun strict_hex_to_bytes :: "json \<Rightarrow> exc + bytes" where
  "strict_hex_to_bytes (JStr hex_str) =
     (if odd (length hex_str) then Inl (MalformedRsaError OddLengthHex)
      else if \<not> re_star_match (\<lambda>c. hex_val c \<noteq> None) hex_str
      then Inl (MalformedRsaError NonHexCharacters)
      else fromhex hex_str)"
| "strict_hex_to_bytes v = Inl (MalformedRsaError SignatureNotString)"

fun base64url_to_bytes :: "json \<Rightarrow> exc + bytes" where
  "base64url_to_bytes (JStr b64url) =
     (if \<not> re_star_match is_b64url b64url then Inl (MalformedRsaError NonBase64Url)
      else let rem = length b64url mod 4
           in if rem = 1 then Inl (MalformedRsaError InvalidBase64Length)
              else urlsafe_b64decode (b64url @ replicate (if rem = 0 then 0 else 4 - rem) (CHR ''='')))"
| "base64url_to_bytes v = Inl (MalformedRsaError NonBase64Url)"

definition bytes_to_base64url :: "bytes \<Rightarrow> string" where
  "bytes_to_base64url data = rstrip_pad (urlsafe_b64encode data)"

text \<open>\<open>int.from_bytes(bs, "big")\<close>.\<close>

definition from_bytes_big :: "bytes \<Rightarrow> nat" where
  "from_bytes_big bs = foldl (\<lambda>n b. 256 * n + unat b) 0 bs"

section \<open>Keys and verification\<close>

definition RSA_PSS_SALT_LENGTH :: nat where
  "RSA_PSS_SALT_LENGTH = 32"

definition RSA_PUBLIC_EXPONENT :: nat where
  "RSA_PUBLIC_EXPONENT = 65537"

text \<open>A JWK with \<open>kty = "RSA"\<close> and string \<open>n\<close>, \<open>e\<close>.\<close>

definition is_rsa_jwk :: "json \<Rightarrow> bool" where
  "is_rsa_jwk v =
     (case v of
        JDict d \<Rightarrow> dget d ''kty'' = JStr ''RSA'' \<and> is_str (dget d ''n'') \<and> is_str (dget d ''e'')
      | _ \<Rightarrow> False)"

text \<open>An exception inside the \<open>try\<close>: the kernel's own class passes, the rest is wrapped.\<close>

fun wrap_key_error :: "exc \<Rightarrow> exc" where
  "wrap_key_error (MalformedRsaError r) = MalformedRsaError r"
| "wrap_key_error e = MalformedRsaError (InPublicKey e)"

definition rsa_public_key_from_jwk :: "kernel \<Rightarrow> json \<Rightarrow> exc + (nat \<times> nat)" where
  "rsa_public_key_from_jwk K public_key =
     (case public_key of
        JDict d \<Rightarrow>
          (if \<not> is_rsa_jwk public_key then Inl (MalformedRsaError NotRsaJwk)
           else case
             ebind (base64url_to_bytes (dget d ''n''))
               (\<lambda>n_bytes. ebind (base64url_to_bytes (dget d ''e''))
                 (\<lambda>e_bytes.
                    let n = from_bytes_big n_bytes; e = from_bytes_big e_bytes
                    in if n = 0 \<or> e = 0 then Inl ValueError
                       else case k_rsa_import K n e of None \<Rightarrow> Inr (n, e) | Some exc \<Rightarrow> Inl exc)) of
             Inl exc \<Rightarrow> Inl (wrap_key_error exc)
           | Inr key \<Rightarrow> Inr key)
      | _ \<Rightarrow> Inl (MalformedRsaError NotRsaJwk))"

definition jwk_public_exponent :: "json \<Rightarrow> nat option" where
  "jwk_public_exponent public_key =
     (case public_key of
        JDict d \<Rightarrow>
          (if \<not> is_str (dget d ''e'') then None
           else case base64url_to_bytes (dget d ''e'') of
             Inl exc \<Rightarrow> None
           | Inr raw \<Rightarrow> (if raw = [] then None else Some (from_bytes_big raw)))
      | _ \<Rightarrow> None)"

fun wrap_signature_error :: "exc \<Rightarrow> exc" where
  "wrap_signature_error (MalformedRsaError r) = MalformedRsaError (InSignatureHex r)"
| "wrap_signature_error e = e"

definition verify_rsa_pss_sha256 :: "kernel \<Rightarrow> bytes \<Rightarrow> json \<Rightarrow> json \<Rightarrow> exc + bool" where
  "verify_rsa_pss_sha256 K payload_bytes signature_hex public_key =
     (case strict_hex_to_bytes signature_hex of
        Inl exc \<Rightarrow> Inl (wrap_signature_error exc)
      | Inr signature \<Rightarrow>
          (let exponent = jwk_public_exponent public_key
           in if exponent \<noteq> None \<and> exponent \<noteq> Some RSA_PUBLIC_EXPONENT then Inr False
              else ebind (rsa_public_key_from_jwk K public_key)
                (\<lambda>(n, e). Inr (k_rsa_verify K n e RSA_PSS_SALT_LENGTH signature payload_bytes
                                 = RsaVerified))))"

definition derive_operator_address :: "kernel \<Rightarrow> json \<Rightarrow> exc + string" where
  "derive_operator_address K n_base64url =
     ebind (base64url_to_bytes n_base64url)
       (\<lambda>modulus. Inr (bytes_to_base64url (k_sha256 K modulus)))"

section \<open>base64url round trip\<close>

lemma char_eq_of_char: "c = d \<longleftrightarrow> (of_char c :: nat) = of_char d"
  by (metis char_of_char)

lemma b64_val_translate:
  "b64_val (urlsafe_translate c) =
     (if (of_char c :: nat) = 45 then Some 62 else if (of_char c :: nat) = 95 then Some 63 else b64_val c)"
  by (auto simp: urlsafe_translate_def char_eq_of_char [of c] b64_val_def)

lemma of_char_b64url:
  "v < 64 \<Longrightarrow> (of_char (b64url_char v) :: nat) =
     (if v < 26 then v + 65 else if v < 52 then v + 71 else if v < 62 then v - 4
      else if v = 62 then 45 else 95)"
  by (simp add: b64url_char_def)

lemma b64_char_val [simp]:
  assumes "v < 64"
  shows "b64_val (urlsafe_translate (b64url_char v)) = Some v"
proof -
  consider "v < 26" | "26 \<le> v" "v < 52" | "52 \<le> v" "v < 62" | "v = 62" | "v = 63"
    using assms by linarith
  then show ?thesis
    unfolding b64_val_translate unfolding b64_val_def Let_def of_char_b64url [OF assms]
    by cases auto
qed

lemma b64_val_pad: "b64_val c = Some v \<Longrightarrow> c \<noteq> CHR ''=''"
  by (auto simp: b64_val_def Let_def)

lemma b64url_char_not [simp]:
  "v < 64 \<Longrightarrow> b64url_char v \<noteq> CHR ''=''"
  "v < 64 \<Longrightarrow> is_b64url (b64url_char v)"
proof -
  assume v: "v < 64"
  then have "b64_val (urlsafe_translate (b64url_char v)) = Some v" by simp
  then show "b64url_char v \<noteq> CHR ''=''" by (auto simp: urlsafe_translate_def b64_val_def)
  have "(of_char (b64url_char v) :: nat) \<noteq> of_char (CHR ''+'')"
    "(of_char (b64url_char v) :: nat) \<noteq> of_char (CHR ''/'')"
    using v by (auto simp: b64url_char_def)
  then have "b64url_char v \<noteq> CHR ''+''" "b64url_char v \<noteq> CHR ''/''" by metis+
  then show "is_b64url (b64url_char v)" using v by (simp add: is_b64url_def)
qed

lemma a2b_group:
  assumes "b64_val c0 = Some v0" "b64_val c1 = Some v1" "b64_val c2 = Some v2" "b64_val c3 = Some v3"
  shows "a2b_base64 0 l p (c0 # c1 # c2 # c3 # s) =
    ebind (a2b_base64 0 0 0 s)
      (\<lambda>bs. Inr (byte_of (v0 * 4 + v1 div 16) # byte_of (v1 mod 16 * 16 + v2 div 4)
                  # byte_of (v2 mod 4 * 64 + v3) # bs))"
  using assms by (cases "a2b_base64 0 0 0 s") (auto dest: b64_val_pad)

lemma a2b_group3:
  assumes "b64_val c0 = Some v0" "b64_val c1 = Some v1" "b64_val c2 = Some v2"
  shows "a2b_base64 0 l p [c0, c1, c2, CHR ''=''] =
    Inr [byte_of (v0 * 4 + v1 div 16), byte_of (v1 mod 16 * 16 + v2 div 4)]"
  using assms by (auto dest: b64_val_pad)

lemma a2b_group2:
  assumes "b64_val c0 = Some v0" "b64_val c1 = Some v1"
  shows "a2b_base64 0 l p [c0, c1, CHR ''='', CHR ''=''] = Inr [byte_of (v0 * 4 + v1 div 16)]"
  using assms by (auto dest: b64_val_pad)

text \<open>Splitting bytes into 6-bit values and joining them again.\<close>

lemma sextets_lt [simp]:
  "unat (a :: byte) div 4 < 64"
  "unat (a :: byte) mod 4 * 16 + unat (b :: byte) div 16 < 64"
  "unat (a :: byte) mod 4 * 16 < 64"
  "unat (b :: byte) mod 16 * 4 + unat (c :: byte) div 64 < 64"
  "unat (b :: byte) mod 16 * 4 < 64"
  "unat (c :: byte) mod 64 < 64"
proof -
  have lt: "unat a div 4 < 64" "unat b div 16 < 16" "unat c div 64 < 4"
    using unat_byte_lt [of a] unat_byte_lt [of b] unat_byte_lt [of c] by linarith+
  have md: "unat a mod 4 < 4" "unat b mod 16 < 16" "unat c mod 64 < 64"
    by simp_all
  show "unat a div 4 < 64" "unat a mod 4 * 16 + unat b div 16 < 64" "unat a mod 4 * 16 < 64"
    "unat b mod 16 * 4 + unat c div 64 < 64" "unat b mod 16 * 4 < 64" "unat c mod 64 < 64"
    using lt md by linarith+
qed

lemma sextets_join:
  "byte_of (unat a div 4 * 4 + (unat a mod 4 * 16 + unat b div 16) div 16) = a"
  "byte_of (unat a div 4 * 4 + unat a mod 4 * 16 div 16) = a"
  "byte_of ((unat a mod 4 * 16 + unat b div 16) mod 16 * 16 + (unat b mod 16 * 4 + unat c div 64) div 4) = b"
  "byte_of ((unat a mod 4 * 16 + unat b div 16) mod 16 * 16 + unat b mod 16 * 4 div 4) = b"
  "byte_of ((unat b mod 16 * 4 + unat c div 64) mod 4 * 64 + unat c mod 64) = c"
proof -
  have lt: "unat b div 16 < 16" "unat c div 64 < 4"
    using unat_byte_lt [of b] unat_byte_lt [of c] by linarith+
  have "unat a div 4 * 4 + (unat a mod 4 * 16 + unat b div 16) div 16 = unat a"
    "unat a div 4 * 4 + unat a mod 4 * 16 div 16 = unat a"
    "(unat a mod 4 * 16 + unat b div 16) mod 16 * 16 + (unat b mod 16 * 4 + unat c div 64) div 4 = unat b"
    "(unat a mod 4 * 16 + unat b div 16) mod 16 * 16 + unat b mod 16 * 4 div 4 = unat b"
    "(unat b mod 16 * 4 + unat c div 64) mod 4 * 64 + unat c mod 64 = unat c"
    using lt by simp_all
  then show
    "byte_of (unat a div 4 * 4 + (unat a mod 4 * 16 + unat b div 16) div 16) = a"
    "byte_of (unat a div 4 * 4 + unat a mod 4 * 16 div 16) = a"
    "byte_of ((unat a mod 4 * 16 + unat b div 16) mod 16 * 16 + (unat b mod 16 * 4 + unat c div 64) div 4) = b"
    "byte_of ((unat a mod 4 * 16 + unat b div 16) mod 16 * 16 + unat b mod 16 * 4 div 4) = b"
    "byte_of ((unat b mod 16 * 4 + unat c div 64) mod 4 * 64 + unat c mod 64) = c"
    by (simp_all only: byte_of_unat)
qed

lemma urlsafe_translate_pad [simp]: "urlsafe_translate (CHR ''='') = CHR ''=''"
  by (simp add: urlsafe_translate_def)

lemma urlsafe_b64decode_encode: "urlsafe_b64decode (urlsafe_b64encode bs) = Inr bs"
  unfolding urlsafe_b64decode_def
proof (induction bs rule: urlsafe_b64encode.induct)
  case (4 a b c bs)
  then show ?case
    by (simp only: urlsafe_b64encode.simps list.map a2b_group b64_char_val sextets_lt sextets_join
        ebind_simps)
qed (simp_all del: a2b_base64.simps(2) add: a2b_group2 a2b_group3 sextets_join)

text \<open>
  The unpadded encoding is padded again by the decoder: it restores exactly what
  \<open>rstrip\<close> removed.
\<close>

lemma rstrip_pad_snoc [simp]:
  "rstrip_pad (s @ [CHR ''='']) = rstrip_pad s"
  "c \<noteq> CHR ''='' \<Longrightarrow> rstrip_pad (s @ [c]) = s @ [c]"
  by (simp_all add: rstrip_pad_def)

lemma rstrip_pad_none:
  assumes "list_all (\<lambda>c. c \<noteq> CHR ''='') s"
  shows "rstrip_pad s = s"
proof (cases s rule: rev_cases)
  case Nil
  then show ?thesis by (simp add: rstrip_pad_def)
next
  case (snoc t c)
  then show ?thesis using assms by simp
qed

fun unpadded :: "bytes \<Rightarrow> string" where
  "unpadded [] = []"
| "unpadded [a] = [b64url_char (unat a div 4), b64url_char (unat a mod 4 * 16)]"
| "unpadded [a, b] =
     [b64url_char (unat a div 4), b64url_char (unat a mod 4 * 16 + unat b div 16),
      b64url_char (unat b mod 16 * 4)]"
| "unpadded (a # b # c # bs) =
     b64url_char (unat a div 4) # b64url_char (unat a mod 4 * 16 + unat b div 16)
     # b64url_char (unat b mod 16 * 4 + unat c div 64) # b64url_char (unat c mod 64)
     # unpadded bs"

lemma unpadded_chars: "list_all is_b64url (unpadded bs)"
  by (induction bs rule: unpadded.induct) auto

lemma period3: "Suc (Suc (Suc n)) mod 3 = n mod 3"
  by presburger

lemma period4: "Suc (Suc (Suc (Suc n))) mod 4 = n mod 4"
  by presburger

lemma unpadded_length: "length (unpadded bs) mod 4 = (if length bs mod 3 = 0 then 0 else Suc (length bs mod 3))"
proof (induction bs rule: unpadded.induct)
  case (4 a b c bs)
  then show ?case by (simp only: unpadded.simps list.size(4) add_Suc_right add_0_right period3 period4)
qed simp_all

lemma encode_unpadded:
  "urlsafe_b64encode bs =
     unpadded bs @ replicate (if length bs mod 3 = 0 then 0 else 3 - length bs mod 3) (CHR ''='')"
proof (induction bs rule: unpadded.induct)
  case (4 a b c bs)
  have "length (a # b # c # bs) mod 3 = length bs mod 3" by (simp add: period3)
  with 4 show ?case by (simp only: urlsafe_b64encode.simps unpadded.simps append_Cons)
next
  case (2 a)
  then show ?case by (simp add: numeral_2_eq_2)
qed simp_all

lemma rstrip_pad_replicate: "rstrip_pad (s @ replicate n (CHR ''='')) = rstrip_pad s"
  by (induction n) (simp_all add: replicate_append_same [symmetric] flip: append_assoc)

lemma is_b64url_not_pad: "is_b64url c \<Longrightarrow> c \<noteq> CHR ''=''"
  by (auto simp: is_b64url_def b64_val_def)

lemma bytes_to_base64url_unpadded: "bytes_to_base64url bs = unpadded bs"
proof -
  have "list_all (\<lambda>c. c \<noteq> CHR ''='') (unpadded bs)"
    using unpadded_chars [of bs] by (auto simp: list_all_iff dest: is_b64url_not_pad)
  then have "rstrip_pad (unpadded bs) = unpadded bs" by (rule rstrip_pad_none)
  then show ?thesis
    unfolding bytes_to_base64url_def encode_unpadded rstrip_pad_replicate .
qed

lemma re_star_match_all: "list_all cls s \<Longrightarrow> re_star_match cls s"
  by (simp add: re_star_match_def)

lemma base64url_round_trip: "base64url_to_bytes (JStr (bytes_to_base64url bs)) = Inr bs"
proof -
  let ?s = "unpadded bs" and ?r = "length bs mod 3"
  have "?r < 3" by simp
  then have "length ?s mod 4 \<noteq> 1"
    and "(if length ?s mod 4 = 0 then 0 else 4 - length ?s mod 4) = (if ?r = 0 then 0 else 3 - ?r)"
    by (auto simp: unpadded_length)
  then show ?thesis
    using urlsafe_b64decode_encode [of bs] re_star_match_all [OF unpadded_chars [of bs]]
    unfolding bytes_to_base64url_unpadded base64url_to_bytes.simps Let_def encode_unpadded
    by (simp del: unpadded.simps)
qed

interpretation base64url: codec bytes_to_base64url "\<lambda>s. base64url_to_bytes (JStr s)"
  by unfold_locales (rule base64url_round_trip)

section \<open>How the decoders fail\<close>

text \<open>The list of \<open>n\<close> pads the decoder adds for a string of length \<open>l\<close>.\<close>

definition pads_for :: "nat \<Rightarrow> string" where
  "pads_for l = replicate (if l mod 4 = 0 then 0 else 4 - l mod 4) (CHR ''='')"

lemma pads_for_simps:
  "pads_for (Suc (Suc (Suc (Suc n)))) = pads_for n"
  "pads_for 0 = []"
  "pads_for (Suc (Suc 0)) = [CHR ''='', CHR ''='']"
  "pads_for (Suc (Suc (Suc 0))) = [CHR ''='']"
  by (simp_all add: pads_for_def period4 numeral_2_eq_2)

lemma translate_pads [simp]: "map urlsafe_translate (pads_for n) = pads_for n"
  by (simp add: pads_for_def)

text \<open>Induction over groups of four characters.\<close>

lemma group4_induct [case_names Nil One Two Three Group]:
  assumes "P []" and "\<And>a. P [a]" and "\<And>a b. P [a, b]" and "\<And>a b c. P [a, b, c]"
    and "\<And>a b c d s. P s \<Longrightarrow> P (a # b # c # d # s)"
  shows "P s"
proof (induction s rule: length_induct)
  case (1 s)
  consider "s = []" | a where "s = [a]" | a b where "s = [a, b]" | a b c where "s = [a, b, c]"
    | a b c d t where "s = a # b # c # d # t"
    by (metis list.exhaust)
  then show ?case using assms 1 by cases auto
qed

lemma b64url_Some: "is_b64url c \<Longrightarrow> \<exists>v. b64_val (urlsafe_translate c) = Some v"
  by (auto simp: is_b64url_def)

lemma a2b_returns:
  "list_all is_b64url s \<Longrightarrow> length s mod 4 \<noteq> 1 \<Longrightarrow>
   \<exists>bs. a2b_base64 0 0 0 (map urlsafe_translate s @ pads_for (length s)) = Inr bs"
proof (induction s rule: group4_induct)
  case (Two a b)
  then show ?case by (auto simp: pads_for_simps dest!: b64url_Some dest: b64_val_pad)
next
  case (Three a b c)
  then show ?case by (auto simp: pads_for_simps dest!: b64url_Some dest: b64_val_pad)
next
  case (Group a b c d s)
  then obtain bs where "a2b_base64 0 0 0 (map urlsafe_translate s @ pads_for (length s)) = Inr bs"
    by (auto simp: period4)
  with Group.prems(1) show ?case
    by (auto simp: a2b_group pads_for_simps simp del: a2b_base64.simps(2) dest!: b64url_Some)
qed (simp_all add: pads_for_simps)

lemma b64_val_newline [simp]: "b64_val (CHR 0x0A) = None"
  by (simp add: b64_val_def)

lemma translate_newline [simp]: "urlsafe_translate (CHR 0x0A) = CHR 0x0A"
  by (simp add: urlsafe_translate_def)

lemma a2b_newline:
  "list_all is_b64url s \<Longrightarrow> length s mod 4 \<noteq> 0 \<Longrightarrow>
   a2b_base64 0 0 0 (map urlsafe_translate s @ CHR 0x0A # pads_for (Suc (length s))) = Inl BinasciiError"
proof (induction s rule: group4_induct)
  case (Group a b c d s)
  then have "a2b_base64 0 0 0 (map urlsafe_translate s @ CHR 0x0A # pads_for (Suc (length s)))
      = Inl BinasciiError"
    by (auto simp: period4)
  with Group.prems(1) show ?case
    by (auto simp: a2b_group pads_for_simps simp del: a2b_base64.simps(2) dest!: b64url_Some)
qed (auto simp: pads_for_simps dest!: b64url_Some dest: b64_val_pad)

lemma not_b64url_newline: "\<not> is_b64url (CHR 0x0A)"
  by (simp add: is_b64url_def)

lemma re_star_match_iff:
  "re_star_match cls s \<longleftrightarrow> list_all cls s \<or> (\<exists>t. s = t @ [CHR 0x0A] \<and> list_all cls t)"
  by (cases s rule: rev_cases) (auto simp: re_star_match_def)

text \<open>
  On a string the base64url decoder returns, raises the kernel's own error, or, for a text of
  the alphabet followed by a newline, lets the library's \<open>binascii.Error\<close> through.
\<close>

lemma base64url_unclassified:
  "base64url_to_bytes (JStr s) = Inl e \<and> \<not> is_malformed_rsa e \<longleftrightarrow>
     e = BinasciiError \<and> (\<exists>t. s = t @ [CHR 0x0A] \<and> list_all is_b64url t \<and> length t mod 4 \<noteq> 0)"
proof -
  have dec: "re_star_match is_b64url s \<Longrightarrow> length s mod 4 \<noteq> 1 \<Longrightarrow> base64url_to_bytes (JStr s)
      = a2b_base64 0 0 0 (map urlsafe_translate s @ pads_for (length s))"
    by (simp add: Let_def urlsafe_b64decode_def pads_for_def)
  consider "\<not> re_star_match is_b64url s" | "re_star_match is_b64url s" "length s mod 4 = 1"
    | "list_all is_b64url s" "length s mod 4 \<noteq> 1"
    | t where "s = t @ [CHR 0x0A]" "list_all is_b64url t" "length s mod 4 \<noteq> 1"
    unfolding re_star_match_iff by blast
  then show ?thesis
  proof cases
    case 1
    then show ?thesis by (auto simp: re_star_match_iff)
  next
    case 2
    have "length t mod 4 = 0" if "s = t @ [CHR 0x0A]" for t using 2 that by simp presburger
    with 2 show ?thesis by auto
  next
    case 3
    then have "\<exists>bs. base64url_to_bytes (JStr s) = Inr bs"
      using dec a2b_returns by (simp add: re_star_match_iff del: base64url_to_bytes.simps)
    with 3 show ?thesis using not_b64url_newline by (auto simp del: base64url_to_bytes.simps)
  next
    case 4
    then have "length t mod 4 \<noteq> 0" by simp presburger
    with 4 dec a2b_newline [of t] show ?thesis
      by (auto simp: re_star_match_iff simp del: base64url_to_bytes.simps)
  qed
qed

lemma fromhex_pair:
  assumes "hex_val c \<noteq> None" and "hex_val d \<noteq> None"
  shows "\<exists>x. fromhex (c # d # cs) = ebind (fromhex cs) (\<lambda>bs. Inr (x # bs))"
proof -
  obtain t b where "hex_val c = Some t" "hex_val d = Some b" using assms by auto
  then have "fromhex (c # d # cs) = ebind (fromhex cs) (\<lambda>bs. Inr (byte_of (16 * t + b) # bs))"
    by (simp add: hex_val_not_space)
  then show ?thesis by blast
qed

lemma fromhex_digits: "list_all (\<lambda>c. hex_val c \<noteq> None) s \<Longrightarrow> even (length s) \<Longrightarrow> \<exists>bs. fromhex s = Inr bs"
proof (induction s rule: fromhex.induct)
  case (3 c d cs)
  then obtain bs where "fromhex cs = Inr bs" by (auto dest: hex_val_not_space)
  with 3 show ?case by (auto dest: hex_val_not_space)
qed simp_all

lemma hex_val_newline [simp]: "hex_val (CHR 0x0A) = None"
  by (simp add: hex_val_def)

lemma fromhex_newline:
  "list_all (\<lambda>c. hex_val c \<noteq> None) t \<Longrightarrow> odd (length t) \<Longrightarrow> fromhex (t @ [CHR 0x0A]) = Inl ValueError"
proof (induction t rule: fromhex.induct)
  case (3 c d cs)
  then have "fromhex (cs @ [CHR 0x0A]) = Inl ValueError" by (auto dest: hex_val_not_space)
  moreover obtain x where
    "fromhex (c # d # (cs @ [CHR 0x0A])) = ebind (fromhex (cs @ [CHR 0x0A])) (\<lambda>bs. Inr (x # bs))"
    using "3.prems" fromhex_pair [of c d] by auto
  ultimately show ?case by simp
qed (auto dest: hex_val_not_space)

lemma strict_hex_unclassified:
  "strict_hex_to_bytes v = Inl e \<and> \<not> is_malformed_rsa e \<longleftrightarrow>
     e = ValueError \<and> (\<exists>t. v = JStr (t @ [CHR 0x0A]) \<and> list_all (\<lambda>c. hex_val c \<noteq> None) t \<and> odd (length t))"
proof (cases v)
  case (JStr s)
  show ?thesis
  proof (cases "even (length s) \<and> re_star_match (\<lambda>c. hex_val c \<noteq> None) s")
    case True
    from True consider "list_all (\<lambda>c. hex_val c \<noteq> None) s"
      | t where "s = t @ [CHR 0x0A]" "list_all (\<lambda>c. hex_val c \<noteq> None) t"
      unfolding re_star_match_iff by blast
    then show ?thesis
    proof cases
      case 1
      then show ?thesis using True fromhex_digits [OF 1] by (auto simp: JStr)
    next
      case 2
      then show ?thesis using True fromhex_newline [of t] by (auto simp: JStr)
    qed
  next
    case False
    then show ?thesis by (auto simp: JStr re_star_match_iff)
  qed
qed auto

lemma from_bytes_big_Nil [simp]: "from_bytes_big [] = 0"
  by (simp add: from_bytes_big_def)

lemma key_error_classified:
  "rsa_public_key_from_jwk K pk = Inl e \<Longrightarrow> is_malformed_rsa e"
proof -
  have "is_malformed_rsa (wrap_key_error e)" for e by (cases e) auto
  then show "rsa_public_key_from_jwk K pk = Inl e \<Longrightarrow> is_malformed_rsa e"
    unfolding rsa_public_key_from_jwk_def by (auto split: json.splits if_splits sum.splits)
qed

lemma verify_rsa_unclassified:
  "verify_rsa_pss_sha256 K message sig_hex pk = Inl e \<and> \<not> is_malformed_rsa e \<longleftrightarrow>
     e = ValueError
     \<and> (\<exists>t. sig_hex = JStr (t @ [CHR 0x0A]) \<and> list_all (\<lambda>c. hex_val c \<noteq> None) t \<and> odd (length t))"
proof (cases "strict_hex_to_bytes sig_hex")
  case (Inl x)
  have "wrap_signature_error x = e \<and> \<not> is_malformed_rsa e \<longleftrightarrow> x = e \<and> \<not> is_malformed_rsa e"
    by (cases x) auto
  moreover have "\<not> is_malformed_rsa e \<longleftrightarrow> \<not> is_malformed_rsa x" if "x = e" using that by simp
  ultimately show ?thesis
    using strict_hex_unclassified [of sig_hex e] Inl
    by (auto simp: verify_rsa_pss_sha256_def)
next
  case (Inr s)
  then have "\<not> (e = ValueError
     \<and> (\<exists>t. sig_hex = JStr (t @ [CHR 0x0A]) \<and> list_all (\<lambda>c. hex_val c \<noteq> None) t \<and> odd (length t)))"
    using strict_hex_unclassified [of sig_hex ValueError] by auto
  moreover have "is_malformed_rsa e" if "verify_rsa_pss_sha256 K message sig_hex pk = Inl e"
    using that Inr by (auto simp: verify_rsa_pss_sha256_def Let_def ebind_Inl_iff dest: key_error_classified split: if_splits)
  ultimately show ?thesis by blast
qed

lemma rsa_accepts_iff:
  "verify_rsa_pss_sha256 K message sig_hex (JDict d) = Inr True \<longleftrightarrow>
     (\<exists>s n_bytes e_bytes. strict_hex_to_bytes sig_hex = Inr s
        \<and> dget d ''kty'' = JStr ''RSA''
        \<and> base64url_to_bytes (dget d ''n'') = Inr n_bytes
        \<and> base64url_to_bytes (dget d ''e'') = Inr e_bytes
        \<and> 0 < from_bytes_big n_bytes \<and> from_bytes_big e_bytes = 65537
        \<and> k_rsa_import K (from_bytes_big n_bytes) 65537 = None
        \<and> k_rsa_verify K (from_bytes_big n_bytes) 65537 32 s message = RsaVerified)"
proof -
  have str: "base64url_to_bytes v = Inr b \<Longrightarrow> is_str v" for v b by (cases v) auto
  have ne: "from_bytes_big b = 65537 \<Longrightarrow> b \<noteq> []" for b by (auto simp: from_bytes_big_def)
  have exp: "jwk_public_exponent (JDict d) =
      (case base64url_to_bytes (dget d ''e'') of Inl e \<Rightarrow> None
       | Inr raw \<Rightarrow> if raw = [] then None else Some (from_bytes_big raw))"
    by (auto simp: jwk_public_exponent_def dest: str split: sum.splits)
  have key: "rsa_public_key_from_jwk K (JDict d) = Inr key \<longleftrightarrow>
      (\<exists>nb eb. dget d ''kty'' = JStr ''RSA'' \<and> base64url_to_bytes (dget d ''n'') = Inr nb
         \<and> base64url_to_bytes (dget d ''e'') = Inr eb
         \<and> 0 < from_bytes_big nb \<and> 0 < from_bytes_big eb
         \<and> k_rsa_import K (from_bytes_big nb) (from_bytes_big eb) = None
         \<and> key = (from_bytes_big nb, from_bytes_big eb))" for key
    unfolding rsa_public_key_from_jwk_def is_rsa_jwk_def json.case
    by (cases "base64url_to_bytes (dget d ''n'')"; cases "base64url_to_bytes (dget d ''e'')")
      (auto simp: Let_def dest: str split: option.splits if_splits)
  show ?thesis
    unfolding verify_rsa_pss_sha256_def exp
    by (cases "strict_hex_to_bytes sig_hex"; cases "base64url_to_bytes (dget d ''e'')")
      (auto simp: RSA_PUBLIC_EXPONENT_def RSA_PSS_SALT_LENGTH_def Let_def ebind_Inr_iff key dest: ne split: if_splits)
qed

section \<open>Properties\<close>

text \<open>
  C36: when an RSA-PSS attestation signature is accepted.  The answer is \<open>True\<close> iff the
  signature is strict hex, the key is an RSA JWK whose parts decode, whose modulus is positive
  and imports, whose public exponent is exactly 65537, and the pinned verification (salt length
  32) returns.  In particular no key with another exponent (such as 1) is ever accepted.
\<close>

theorem rsa_accepts:
  "verify_rsa_pss_sha256 K message sig_hex (JDict d) = Inr True \<longleftrightarrow>
     (\<exists>s n_bytes e_bytes. strict_hex_to_bytes sig_hex = Inr s
        \<and> dget d ''kty'' = JStr ''RSA''
        \<and> base64url_to_bytes (dget d ''n'') = Inr n_bytes
        \<and> base64url_to_bytes (dget d ''e'') = Inr e_bytes
        \<and> 0 < from_bytes_big n_bytes \<and> from_bytes_big e_bytes = 65537
        \<and> k_rsa_import K (from_bytes_big n_bytes) 65537 = None
        \<and> k_rsa_verify K (from_bytes_big n_bytes) 65537 32 s message = RsaVerified)"
  by (rule rsa_accepts_iff)

text \<open>
  C37: the exception that escapes the malformed-input contract.  \<open>verify_rsa_pss_sha256\<close> raises
  something that is no \<open>MalformedRsaError\<close> iff the signature is an odd run of hexadecimal
  digits followed by one newline, which the pattern \<open>^[0-9a-fA-F]*$\<close> lets through to
  \<open>bytes.fromhex\<close>; then it raises \<open>ValueError\<close>, whatever the key and the payload.
\<close>

theorem rsa_unclassified_exception:
  "verify_rsa_pss_sha256 K message sig_hex pk = Inl e \<and> \<not> is_malformed_rsa e \<longleftrightarrow>
     e = ValueError
     \<and> (\<exists>t. sig_hex = JStr (t @ [CHR 0x0A]) \<and> list_all (\<lambda>c. hex_val c \<noteq> None) t \<and> odd (length t))"
  by (rule verify_rsa_unclassified)

text \<open>
  An operator address names one modulus.  Two moduli with the same derived address decode
  to bytes with the same hash: the base64url text loses nothing of the digest.
\<close>

lemma operator_address_binding:
  assumes "derive_operator_address K n = Inr address"
    and "derive_operator_address K n' = Inr address"
  shows "\<exists>m m'. base64url_to_bytes n = Inr m \<and> base64url_to_bytes n' = Inr m'
           \<and> k_sha256 K m = k_sha256 K m'"
  using assms by (auto simp: derive_operator_address_def result_simps base64url.enc_inject)

lemma operator_address_binding_witness:
  "derive_operator_address toy (JStr ''AQ'') = derive_operator_address toy (JStr ''AR'')
   \<and> (\<exists>m m'. base64url_to_bytes (JStr ''AQ'') = Inr m \<and> base64url_to_bytes (JStr ''AR'') = Inr m'
           \<and> k_sha256 toy m = k_sha256 toy m')"
proof -
  have "base64url_to_bytes (JStr ''AQ'') = Inr [1]" "base64url_to_bytes (JStr ''AR'') = Inr [1]" 
    by code_simp+
  then show ?thesis
    using operator_address_binding [of toy "JStr ''AQ''" "bytes_to_base64url (toy_hash [1])" "JStr ''AR''"]
    by (auto simp: derive_operator_address_def)
qed

text \<open>
  Base64url round trip, for every byte string: the unpadded encoding passes the pattern
  and the length check, is padded back, and decodes to the bytes encoded.
\<close>

lemma base64url_codec:
  "base64url_to_bytes (JStr (bytes_to_base64url bs)) = Inr bs"
  by (rule base64url_round_trip)

end
