(* ===== verification/Evidence_Types.thy ===== *)
theory Evidence_Types
  imports Rsa_Pss Envelope
begin

text \<open>
  The result types of \<open>evidence.py\<close>, the constants, \<open>exit_code\<close> and the small helpers.  The
  notes attached to one checkpoint, event or attestation are constructors, one per message;
  the notes of a whole bundle are texts, because \<open>exit_code\<close> searches them.
\<close>

section \<open>Constants\<close>

definition ACCEPTED_EVIDENCE_MAJORS :: "string list" where
  "ACCEPTED_EVIDENCE_MAJORS = [''ario.evidence/v1'']"

definition ANCHOR_TRACE_BODY_TYPE :: string where
  "ANCHOR_TRACE_BODY_TYPE = ''ario.anchor.trace/v1''"

definition EXPORT_BODY_TYPE :: string where
  "EXPORT_BODY_TYPE = ''ario.evidence.export/v1''"

definition VERDICT_SCHEMA_VERSION :: string where
  "VERDICT_SCHEMA_VERSION = ''ario.evidence.verdict/v1''"

definition UNDETERMINED_MARKERS :: "string list" where
  "UNDETERMINED_MARKERS = [''unreachable'', ''could not be re-fetched'', ''unavailable offline'']"

section \<open>Outcomes and statuses\<close>

text \<open>One gateway's finding; the order is the order of severity of the rollup.\<close>

datatype outcome = Unreachable | Confirm | Mismatch

fun severity :: "outcome \<Rightarrow> nat" where
  "severity Unreachable = 0"
| "severity Confirm = 1"
| "severity Mismatch = 2"

instantiation outcome :: linorder
begin

definition less_eq_outcome :: "outcome \<Rightarrow> outcome \<Rightarrow> bool" where
  "less_eq_outcome a b \<longleftrightarrow> severity a \<le> severity b"

definition less_outcome :: "outcome \<Rightarrow> outcome \<Rightarrow> bool" where
  "less_outcome a b \<longleftrightarrow> severity a < severity b"

instance
proof
  fix a b :: outcome
  show "a \<le> b \<Longrightarrow> b \<le> a \<Longrightarrow> a = b"
    by (cases a; cases b) (simp_all add: less_eq_outcome_def)
qed (auto simp: less_eq_outcome_def less_outcome_def)

end

fun outcome_text :: "outcome \<Rightarrow> string" where
  "outcome_text Unreachable = ''unreachable''"
| "outcome_text Confirm = ''confirm''"
| "outcome_text Mismatch = ''mismatch''"

datatype status = Verified | Partial | Failed | Malformed

fun status_text :: "status \<Rightarrow> string" where
  "status_text Verified = ''verified''"
| "status_text Partial = ''partial''"
| "status_text Failed = ''failed''"
| "status_text Malformed = ''malformed''"

section \<open>Results\<close>

record per_gateway_outcome =
  pg_gateway :: string
  pg_outcome :: outcome

record on_chain_result =
  oc_rollup :: outcome
  oc_on_chain_ok :: "bool option"
  oc_per_gateway :: "per_gateway_outcome list"

datatype checkpoint_note =
    MissingTxId
  | DuplicateTxId string
  | CpRecordNotHex exc
  | CpSignatureFailed
  | CpRecordUnbound
  | CpRecordMissing
  | CpRootMismatch json json
  | CpRecordNotJson
  | OnChainMismatch json
  | OnChainUnreachable json

record checkpoint_result =
  cr_tx_id :: string
  cr_envelope_ok :: bool
  cr_merkle_root_ok :: bool
  cr_on_chain_ok :: "bool option"
  cr_on_chain :: "on_chain_result option"
  cr_ok :: bool
  cr_errors :: "checkpoint_note list"

datatype event_note =
    EvRecordNotHex exc
  | EvSignatureFailed
  | EvRecordUnbound
  | MissingInclusion
  | UnresolvedCheckpoint json
  | InclusionNotReconstructed
  | LeafHashMismatch
  | InclusionError exc
  | ContentNotHex exc
  | SideContentNotHex string exc
  | ContentDisagreement
  | ContentUncommitted
  | ContentMismatch string "string list"

record event_result =
  ev_event_id :: string
  ev_envelope_ok :: bool
  ev_payload_binding_ok :: "bool option"
  ev_inclusion_ok :: bool
  ev_checkpoint_bound :: bool
  ev_content_ok :: "bool option"
  ev_ok :: bool
  ev_errors :: "event_note list"

datatype attestation_note =
    AttSignatureFailed
  | AttAddressUnbound string string
  | AttUnresolvedCheckpoint string
  | AttDataHashUnbound string string
  | AttContentHashError exc
  | SubjectRefNotObject
  | SubjectRefMalformed

record attestation_result =
  at_checkpoint_tx_id :: string
  at_operator :: string
  at_gateway :: "string option"
  at_signature_ok :: bool
  at_operator_address_bound :: bool
  at_data_hash_bound :: bool
  at_checkpoint_resolved :: bool
  at_level :: "int option"
  at_subject_ref_ok :: "bool option"
  at_ok :: bool
  at_errors :: "attestation_note list"

record export_result =
  xr_source_linkage_ok :: bool
  xr_source_status :: status
  xr_verdict_agreement_ok :: bool
  xr_attestations :: "attestation_result list"
  xr_verdict :: items
  xr_status :: status

record evidence_result =
  er_status :: status
  er_spec_version_ok :: bool
  er_body_hash_ok :: bool
  er_signature_ok :: bool
  er_body_type :: "string option"
  er_on_chain_checked :: bool
  er_checkpoints :: "checkpoint_result list"
  er_events :: "event_result list"
  er_asserted_status :: "string option"
  er_export :: "export_result option"
  er_errors :: "string list"

text \<open>\<open>EvidenceBundleResult.exit_code\<close>.\<close>

definition exit_code :: "evidence_result \<Rightarrow> int" where
  "exit_code r =
     (if er_status r = Failed then 1
      else if er_status r = Malformed then 2
      else if er_status r = Partial
              \<and> list_ex (\<lambda>e. list_ex (\<lambda>marker. occurs_in marker e) UNDETERMINED_MARKERS) (er_errors r)
      then 3
      else 0)"

section \<open>Helpers\<close>

definition matches_evidence_major :: "json \<Rightarrow> bool" where
  "matches_evidence_major spec_version =
     (case spec_version of
        JStr s \<Rightarrow>
          s \<noteq> []
          \<and> list_ex
              (\<lambda>major. s = major
                \<or> (let prefix = major @ ''.'' in
                   starts_with prefix s
                   \<and> (let minor = drop (length prefix) s in minor \<noteq> [] \<and> list_all is_digit minor)))
              ACCEPTED_EVIDENCE_MAJORS
      | _ \<Rightarrow> False)"

definition malformed :: "string \<Rightarrow> bool \<Rightarrow> evidence_result" where
  "malformed error spec_version_ok =
     \<lparr> er_status = Malformed, er_spec_version_ok = spec_version_ok, er_body_hash_ok = False,
       er_signature_ok = False, er_body_type = None, er_on_chain_checked = False,
       er_checkpoints = [], er_events = [], er_asserted_status = None, er_export = None,
       er_errors = [error] \<rparr>"

definition get_event_id :: "json \<Rightarrow> string" where
  "get_event_id env =
     (case env of
        JDict d \<Rightarrow> (case dget d ''event_id'' of JStr s \<Rightarrow> s | _ \<Rightarrow> ''<unknown>'')
      | _ \<Rightarrow> ''<unknown>'')"

text \<open>\<open>_hex_to_bytes\<close> on a value of any type.\<close>

fun hex_value_to_bytes :: "json \<Rightarrow> exc + bytes" where
  "hex_value_to_bytes (JStr h) = hex_to_bytes h"
| "hex_value_to_bytes v = Inl ValueError"

lemma hex_value_error: "hex_value_to_bytes v = Inl e \<Longrightarrow> e = ValueError"
  by (cases v) (auto dest: hex_to_bytes_error)

lemma hex_value_str: "hex_value_to_bytes v = Inr b \<Longrightarrow> is_str v"
  by (cases v) auto

text \<open>
  \<open>str(exc)\<close> in a message: the texts of the kernel's own exceptions, the environment's for
  the rest.
\<close>

fun reason_text :: "kernel \<Rightarrow> rsa_reason \<Rightarrow> string"
  and exc_text :: "kernel \<Rightarrow> exc \<Rightarrow> string" where
  "reason_text K SignatureNotString = ''signature is not a string''"
| "reason_text K OddLengthHex = ''odd-length hex string''"
| "reason_text K NonHexCharacters = ''non-hex characters''"
| "reason_text K NonBase64Url = ''non-base64url characters''"
| "reason_text K InvalidBase64Length = ''invalid base64url length''"
| "reason_text K NotRsaJwk = ''malformed RSA public key: not a {kty:RSA,n,e} JWK''"
| "reason_text K (InSignatureHex r) = ''malformed signature hex: '' @ reason_text K r"
| "reason_text K (InPublicKey e) = ''malformed RSA public key: '' @ exc_text K e"
| "exc_text K (MalformedRsaError r) = reason_text K r"
| "exc_text K CanonicalDepthError =
     ''input nesting exceeds the 128-level canonicalization depth bound''"
| "exc_text K e = k_str_exc K e"

text \<open>The decimal numeral of a count.\<close>

fun dec_text :: "nat \<Rightarrow> string" where
  "dec_text n = (if n < 10 then [char_of (48 + n)] else dec_text (n div 10) @ [char_of (48 + n mod 10)])"

declare dec_text.simps [simp del]

text \<open>The em dash of the messages, in UTF-8.\<close>

definition em_dash :: string where
  "em_dash = [CHR 0xE2, CHR 0x80, CHR 0x94]"

section \<open>Lemmas\<close>

lemma matches_evidence_major_iff:
  "matches_evidence_major v \<longleftrightarrow>
     (\<exists>s. v = JStr s \<and> matches_major s ''ario.evidence/v1'')"
  by (auto simp: matches_evidence_major_def ACCEPTED_EVIDENCE_MAJORS_def matches_major_def Let_def
      starts_with_def split: json.splits)

lemma malformed_simps [simp]:
  "er_status (malformed e s) = Malformed" "er_errors (malformed e s) = [e]"
  "er_export (malformed e s) = None"
  by (simp_all add: malformed_def)

lemma exit_code_range: "exit_code r \<in> {0, 1, 2, 3}"
  by (simp add: exit_code_def)

end
