(* ===== verification/On_Chain.thy ===== *)
theory On_Chain
  imports Evidence_Types
begin

text \<open>
  The optional on-chain re-fetch of \<open>evidence.py\<close>: \<open>_probe_gateway\<close>, \<open>_rollup_on_chain\<close> and
  \<open>_refetch_checkpoint\<close>.  The caller's \<open>fetch_impl\<close> acts on the outside world, so it is a
  function of a world state that returns the bytes, if any, and the next state; \<open>None\<close> is
  both a raise and a \<open>None\<close>.  The gateways are asked one after the other.
\<close>

type_synonym 'w fetch = "'w \<Rightarrow> string \<Rightarrow> bytes option \<times> 'w"

text \<open>\<open>gateway.rstrip("/")\<close>.\<close>

definition rstrip_slash :: "string \<Rightarrow> string" where
  "rstrip_slash s = rev (dropWhile (\<lambda>c. c = CHR ''/'') (rev s))"

text \<open>\<open>str(cp.get("tx_id", ""))\<close>; \<open>str\<close> and \<open>repr\<close> agree on everything but a string.\<close>

definition tx_text :: "kernel \<Rightarrow> items \<Rightarrow> string" where
  "tx_text K cp = (case dget_default cp ''tx_id'' (JStr []) of JStr s \<Rightarrow> s | v \<Rightarrow> k_repr K v)"

definition gateway_url :: "kernel \<Rightarrow> items \<Rightarrow> string \<Rightarrow> string" where
  "gateway_url K cp gateway = rstrip_slash gateway @ ''/'' @ tx_text K cp"

text \<open>What the bytes a gateway returned say about a checkpoint.\<close>

definition judge_bytes :: "kernel \<Rightarrow> string option \<Rightarrow> bytes option \<Rightarrow> outcome" where
  "judge_bytes K expected_hex fetched =
     (case fetched of
        None \<Rightarrow> Unreachable
      | Some on_chain_bytes \<Rightarrow>
          (case expected_hex of
             None \<Rightarrow> Mismatch
           | Some expected \<Rightarrow>
               (if hex_encode on_chain_bytes = expected then Confirm
                else case k_json_loads K on_chain_bytes of
                  None \<Rightarrow> Mismatch
                | Some parsed \<Rightarrow>
                    (case canonical K parsed of
                       Inl exc \<Rightarrow> Mismatch
                     | Inr c \<Rightarrow> if hex_encode c = expected then Confirm else Mismatch))))"

definition probe_gateway ::
  "kernel \<Rightarrow> 'w fetch \<Rightarrow> items \<Rightarrow> string option \<Rightarrow> string \<Rightarrow> 'w \<Rightarrow> outcome \<times> 'w" where
  "probe_gateway K fetch cp expected_hex gateway w =
     (case fetch w (gateway_url K cp gateway) of
        (fetched, w') \<Rightarrow> (judge_bytes K expected_hex fetched, w'))"

fun probe_gateways ::
  "kernel \<Rightarrow> 'w fetch \<Rightarrow> items \<Rightarrow> string option \<Rightarrow> string list \<Rightarrow> 'w
     \<Rightarrow> per_gateway_outcome list \<times> 'w" where
  "probe_gateways K fetch cp expected_hex [] w = ([], w)"
| "probe_gateways K fetch cp expected_hex (gw # gws) w =
     (case probe_gateway K fetch cp expected_hex gw w of
        (out, w') \<Rightarrow>
          (case probe_gateways K fetch cp expected_hex gws w' of
             (outs, w'') \<Rightarrow> (\<lparr> pg_gateway = gw, pg_outcome = out \<rparr> # outs, w'')))"

definition rollup_on_chain :: "per_gateway_outcome list \<Rightarrow> on_chain_result" where
  "rollup_on_chain per_gateway =
     (let rollup =
            (if list_ex (\<lambda>g. pg_outcome g = Mismatch) per_gateway then Mismatch
             else if list_ex (\<lambda>g. pg_outcome g = Confirm) per_gateway then Confirm
             else Unreachable);
          on_chain_ok =
            (if rollup = Mismatch then Some False else if rollup = Confirm then Some True else None)
      in \<lparr> oc_rollup = rollup, oc_on_chain_ok = on_chain_ok, oc_per_gateway = per_gateway \<rparr>)"

definition refetch_checkpoint ::
  "kernel \<Rightarrow> 'w fetch \<Rightarrow> string list \<Rightarrow> items \<Rightarrow> 'w
     \<Rightarrow> (on_chain_result \<times> bool \<times> checkpoint_note option) \<times> 'w" where
  "refetch_checkpoint K fetch gateways cp w =
     (let expected_hex =
            (case canonical K (dget cp ''envelope'') of Inl e \<Rightarrow> None | Inr b \<Rightarrow> Some (hex_encode b))
      in case probe_gateways K fetch cp expected_hex gateways w of
           (per_gateway, w') \<Rightarrow>
             (let on_chain = rollup_on_chain per_gateway;
                  rollup = oc_rollup on_chain;
                  error = (if rollup = Mismatch then Some (OnChainMismatch (dget cp ''tx_id''))
                           else if rollup = Unreachable then Some (OnChainUnreachable (dget cp ''tx_id''))
                           else None)
              in ((on_chain, rollup = Unreachable, error), w')))"

section \<open>Lemmas\<close>

text \<open>The rollup is the worst finding: the maximum in the order of severity.\<close>

lemma outcome_order [simp]:
  "Unreachable \<le> x" "x \<le> Mismatch" "\<not> Confirm \<le> Unreachable" "\<not> Mismatch \<le> Confirm"
  "\<not> Mismatch \<le> Unreachable" "Confirm \<le> x \<longleftrightarrow> x \<noteq> Unreachable"
  by (cases x; simp add: less_eq_outcome_def)+

lemma rollup_cases:
  "oc_rollup (rollup_on_chain gs) =
     (if Mismatch \<in> pg_outcome ` set gs then Mismatch
      else if Confirm \<in> pg_outcome ` set gs then Confirm else Unreachable)"
proof -
  have "list_ex (\<lambda>g. pg_outcome g = x) gs \<longleftrightarrow> x \<in> pg_outcome ` set gs" for x
    by (auto simp: list_ex_iff)
  then show ?thesis by (simp add: rollup_on_chain_def Let_def)
qed

lemma rollup_is_Max:
  "oc_rollup (rollup_on_chain gs) = Max (insert Unreachable (pg_outcome ` set gs))"
proof (rule Max_eqI [symmetric])
  fix y
  assume "y \<in> insert Unreachable (pg_outcome ` set gs)"
  then show "y \<le> oc_rollup (rollup_on_chain gs)"
    unfolding rollup_cases by (cases y) (auto simp only: outcome_order insert_iff simp_thms split: if_splits)
qed (simp_all add: rollup_cases)

lemma rollup_ok [simp]:
  "oc_on_chain_ok (rollup_on_chain gs) = Some False \<longleftrightarrow> oc_rollup (rollup_on_chain gs) = Mismatch"
  "oc_on_chain_ok (rollup_on_chain gs) = Some True \<longleftrightarrow> oc_rollup (rollup_on_chain gs) = Confirm"
  "oc_on_chain_ok (rollup_on_chain gs) = None \<longleftrightarrow> oc_rollup (rollup_on_chain gs) = Unreachable"
  by (simp_all add: rollup_on_chain_def Let_def)

text \<open>A gateway confirms a checkpoint only with bytes of the same canonical form.\<close>

lemma judge_confirm:
  "judge_bytes K (Some (hex_encode e)) fetched = Confirm \<longleftrightarrow>
     (\<exists>b. fetched = Some b
        \<and> (b = e \<or> (\<exists>parsed. k_json_loads K b = Some parsed \<and> canonical K parsed = Inr e)))"
  by (auto simp: judge_bytes_def hex.enc_inject split: option.splits sum.splits)

lemma judge_unreachable: "judge_bytes K expected fetched = Unreachable \<longleftrightarrow> fetched = None"
  by (auto simp: judge_bytes_def split: option.splits sum.splits)

text \<open>
  The world threaded through the probes: the answers are the ones of the fetches in the
  order of the gateways, each judged on its own.
\<close>

fun fetch_all :: "'w fetch \<Rightarrow> string list \<Rightarrow> 'w \<Rightarrow> bytes option list \<times> 'w" where
  "fetch_all fetch [] w = ([], w)"
| "fetch_all fetch (u # us) w =
     (case fetch w u of (r, w') \<Rightarrow> (case fetch_all fetch us w' of (rs, w'') \<Rightarrow> (r # rs, w'')))"

lemma length_fetch_all: "length (fst (fetch_all fetch us w)) = length us"
  by (induction us arbitrary: w) (auto simp: case_prod_beta)

lemma probe_gateways_fetches:
  "probe_gateways K fetch cp expected gws w =
     (case fetch_all fetch (map (gateway_url K cp) gws) w of
        (rs, w') \<Rightarrow>
          (map2 (\<lambda>gw r. \<lparr> pg_gateway = gw, pg_outcome = judge_bytes K expected r \<rparr>) gws rs, w'))"
  by (induction gws arbitrary: w) (auto simp: probe_gateway_def case_prod_beta)

definition expected_hex_of :: "kernel \<Rightarrow> items \<Rightarrow> string option" where
  "expected_hex_of K cp =
     (case canonical K (dget cp ''envelope'') of Inl e \<Rightarrow> None | Inr b \<Rightarrow> Some (hex_encode b))"

lemma refetch_rollup:
  "refetch_checkpoint K fetch gws cp w = ((on_chain, unavailable, note), w') \<Longrightarrow>
   \<exists>rs. fetch_all fetch (map (gateway_url K cp) gws) w = (rs, w')
     \<and> oc_rollup on_chain = Max (insert Unreachable (judge_bytes K (expected_hex_of K cp) ` set rs))
     \<and> on_chain = rollup_on_chain (map2 (\<lambda>gw r. \<lparr> pg_gateway = gw,
          pg_outcome = judge_bytes K (expected_hex_of K cp) r \<rparr>) gws rs)
     \<and> (unavailable \<longleftrightarrow> oc_rollup on_chain = Unreachable)
     \<and> (note = None \<longleftrightarrow> oc_rollup on_chain = Confirm)"
proof -
  assume r: "refetch_checkpoint K fetch gws cp w = ((on_chain, unavailable, note), w')"
  obtain rs w1 where f: "fetch_all fetch (map (gateway_url K cp) gws) w = (rs, w1)" by fastforce
  let ?J = "judge_bytes K (expected_hex_of K cp)"
  let ?gs = "map2 (\<lambda>gw r. \<lparr> pg_gateway = gw, pg_outcome = ?J r \<rparr>) gws rs"
  have "length rs = length gws" using length_fetch_all [of fetch "map (gateway_url K cp) gws" w] f by simp
  then have "pg_outcome ` set ?gs = ?J ` set rs"
    by (induction gws rs rule: list_induct2') auto
  moreover have "on_chain = rollup_on_chain ?gs" "w' = w1"
    "unavailable \<longleftrightarrow> oc_rollup (rollup_on_chain ?gs) = Unreachable"
    "note = None \<longleftrightarrow> oc_rollup (rollup_on_chain ?gs) = Confirm"
    using r f unfolding refetch_checkpoint_def Let_def probe_gateways_fetches expected_hex_of_def
    by (auto split: if_splits) (cases "oc_rollup (rollup_on_chain ?gs)"; simp add: expected_hex_of_def)
  ultimately show ?thesis using f rollup_is_Max [of ?gs] by simp
qed

section \<open>Properties\<close>

text \<open>The answers the gateways give for one checkpoint, in order.\<close>

definition answers :: "kernel \<Rightarrow> 'w fetch \<Rightarrow> string list \<Rightarrow> items \<Rightarrow> 'w \<Rightarrow> bytes option list" where
  "answers K fetch gateways cp w = fst (fetch_all fetch (map (gateway_url K cp) gateways) w)"

text \<open>The bytes are the canonical envelope, or JSON text with that canonical form.\<close>

definition same_envelope :: "kernel \<Rightarrow> bytes \<Rightarrow> bytes \<Rightarrow> bool" where
  "same_envelope K e b \<longleftrightarrow>
     b = e \<or> (\<exists>parsed. k_json_loads K b = Some parsed \<and> canonical K parsed = Inr e)"

lemma refetch_rollup_answers:
  "oc_rollup (fst (fst (refetch_checkpoint K fetch gateways cp w)))
     = Max (insert Unreachable (judge_bytes K (expected_hex_of K cp) ` set (answers K fetch gateways cp w)))"
proof -
  obtain oc u n w' where r: "refetch_checkpoint K fetch gateways cp w = ((oc, u, n), w')"
    by (metis surj_pair)
  then show ?thesis using refetch_rollup [OF r] unfolding answers_def by force
qed

text \<open>
  worst finding wins.  The rollup of a checkpoint is the maximum, in the order unreachable,
  confirm, mismatch, of what the answers of the gateways say, whatever the outside world does
  between the requests; with no gateway it is unreachable.
\<close>

lemma on_chain_worst_finding:
  "oc_rollup (fst (fst (refetch_checkpoint K fetch gateways cp w)))
     = Max (insert Unreachable (judge_bytes K (expected_hex_of K cp) ` set (answers K fetch gateways cp w)))"
  by (rule refetch_rollup_answers)

text \<open>
  C15: what a confirmed checkpoint means.  The rollup is \<open>confirm\<close> iff the checkpoint's
  envelope is canonicalizable, at least one gateway answered, and every gateway that answered
  returned the canonical envelope or JSON with the same canonical form.
\<close>

theorem on_chain_confirm:
  "oc_rollup (fst (fst (refetch_checkpoint K fetch gateways cp w))) = Confirm \<longleftrightarrow>
     (\<exists>e b. canonical K (dget cp ''envelope'') = Inr e
        \<and> Some b \<in> set (answers K fetch gateways cp w)
        \<and> list_all (\<lambda>r. case r of None \<Rightarrow> True | Some b \<Rightarrow> same_envelope K e b)
            (answers K fetch gateways cp w))"
proof -
  let ?rs = "answers K fetch gateways cp w" and ?J = "judge_bytes K (expected_hex_of K cp)"
  have Max: "Max (insert Unreachable S) = Confirm \<longleftrightarrow> Confirm \<in> S \<and> Mismatch \<notin> S" if "finite S" for S
    using that by (subst Max_eq_iff) (auto, metis outcome.exhaust outcome_order)
  have img: "x \<in> ?J ` set ?rs \<longleftrightarrow> (\<exists>r \<in> set ?rs. ?J r = x)" for x by blast
  have "Max (insert Unreachable (?J ` set ?rs)) = Confirm \<longleftrightarrow> Confirm \<in> ?J ` set ?rs \<and> Mismatch \<notin> ?J ` set ?rs"
    by (rule Max) simp
  also have "\<dots> \<longleftrightarrow> (\<exists>r \<in> set ?rs. ?J r = Confirm) \<and> (\<forall>r \<in> set ?rs. ?J r \<noteq> Mismatch)"
    unfolding img by blast
  also have "\<dots> \<longleftrightarrow> (\<exists>r \<in> set ?rs. ?J r = Confirm) \<and> (\<forall>b. Some b \<in> set ?rs \<longrightarrow> ?J (Some b) = Confirm)"
  proof -
    have J: "?J r \<noteq> Mismatch \<longleftrightarrow> (\<forall>b. r = Some b \<longrightarrow> ?J (Some b) = Confirm)" for r
      using judge_unreachable [of K "expected_hex_of K cp" r]
      by (cases r; cases "?J r") auto
    show ?thesis unfolding J by blast
  qed
  also have "\<dots> \<longleftrightarrow> (\<exists>e b. canonical K (dget cp ''envelope'') = Inr e \<and> Some b \<in> set ?rs
      \<and> (\<forall>b. Some b \<in> set ?rs \<longrightarrow> same_envelope K e b))"
  proof (cases "canonical K (dget cp ''envelope'')")
    case (Inl x)
    then have "?J r \<noteq> Confirm" for r by (auto simp: expected_hex_of_def judge_bytes_def split: option.splits)
    with Inl show ?thesis by auto
  next
    case (Inr e)
    then have J: "?J r = Confirm \<longleftrightarrow> (\<exists>b. r = Some b \<and> same_envelope K e b)" for r
      by (simp add: expected_hex_of_def judge_confirm same_envelope_def)
    show ?thesis unfolding J Inr by auto
  qed
  finally show ?thesis
    unfolding refetch_rollup_answers by (auto simp: list_all_iff split: option.splits)
qed

end
