(* ===== verification/Anchor_Trace.thy ===== *)
theory Anchor_Trace
  imports On_Chain
begin

text \<open>
  The \<open>ario.anchor.trace/v1\<close> body of \<open>evidence.py\<close> (\<open>_verify_anchor_trace\<close> and
  \<open>_evaluate_content\<close>): the pass over the checkpoints, which builds the map from transaction
  ids, the pass over the events, the optional on-chain pass and the rollup.  Reading a field of
  a body, checkpoint or event that is no dict raises \<open>AttributeError\<close>, which the source does
  not catch.
\<close>

section \<open>Records\<close>

text \<open>\<open>record_bytes\<close> of a checkpoint or event, and the exception the decoder raised.\<close>

definition decode_record :: "items \<Rightarrow> bytes option \<times> exc option" where
  "decode_record d =
     (case dget d ''record_bytes'' of
        JStr s \<Rightarrow> (case hex_to_bytes s of Inr b \<Rightarrow> (Some b, None) | Inl e \<Rightarrow> (None, Some e))
      | _ \<Rightarrow> (None, None))"

text \<open>\<open>record["event"][k]\<close> where both levels are dicts, \<open>None\<close> otherwise.\<close>

definition record_event_field :: "json \<Rightarrow> string \<Rightarrow> json" where
  "record_event_field record k =
     (case record of
        JDict r \<Rightarrow> (case dget r ''event'' of JDict e \<Rightarrow> dget e k | _ \<Rightarrow> JNull)
      | _ \<Rightarrow> JNull)"

section \<open>Checkpoints\<close>

text \<open>The dict \<open>by_tx_id\<close>, oldest entry first; a transaction id is entered once.\<close>

type_synonym checkpoint_map = "(string \<times> items) list"

definition register_checkpoint ::
  "checkpoint_map \<Rightarrow> items \<Rightarrow> checkpoint_map \<times> checkpoint_note list" where
  "register_checkpoint by_tx_id cp =
     (case dget cp ''tx_id'' of
        JStr tx_id \<Rightarrow>
          (if map_of by_tx_id tx_id \<noteq> None then (by_tx_id, [DuplicateTxId tx_id])
           else (by_tx_id @ [(tx_id, cp)], []))
      | _ \<Rightarrow> (by_tx_id, [MissingTxId]))"

text \<open>The root committed by the record, against the root the checkpoint claims.\<close>

definition check_committed_root ::
  "kernel \<Rightarrow> items \<Rightarrow> bytes option \<Rightarrow> bool \<times> checkpoint_note list" where
  "check_committed_root K cp record_bytes =
     (case record_bytes of
        None \<Rightarrow> (False, [])
      | Some rb \<Rightarrow>
          (case k_json_loads K rb of
             None \<Rightarrow> (False, [CpRecordNotJson])
           | Some record \<Rightarrow>
               (let committed_root = record_event_field record ''merkle_root'';
                    merkle_root_ok = is_str committed_root \<and> committed_root = dget cp ''merkle_root''
                in (merkle_root_ok,
                    if merkle_root_ok then []
                    else [CpRootMismatch (dget cp ''merkle_root'') committed_root]))))"

definition check_checkpoint :: "kernel \<Rightarrow> items \<Rightarrow> checkpoint_note list \<Rightarrow> checkpoint_result" where
  "check_checkpoint K cp tx_notes =
     (let (record_bytes, hex_error) = decode_record cp;
          hex_notes = (case hex_error of None \<Rightarrow> [] | Some e \<Rightarrow> [CpRecordNotHex e]);
          res = verify_envelope K (dget cp ''envelope'') record_bytes None False;
          envelope_ok = vr_ok res \<and> vr_payload_hash_ok res = Some True;
          env_notes =
            (if vr_signature_ok res then [] else [CpSignatureFailed])
            @ (if vr_payload_hash_ok res = Some False then [CpRecordUnbound] else [])
            @ (if vr_payload_hash_ok res = None then [CpRecordMissing] else []);
          (merkle_root_ok, root_notes) = check_committed_root K cp record_bytes
      in \<lparr> cr_tx_id = (case dget cp ''tx_id'' of JStr s \<Rightarrow> s | _ \<Rightarrow> []),
           cr_envelope_ok = envelope_ok,
           cr_merkle_root_ok = merkle_root_ok,
           cr_on_chain_ok = None,
           cr_on_chain = None,
           cr_ok = envelope_ok \<and> merkle_root_ok,
           cr_errors = tx_notes @ hex_notes @ env_notes @ root_notes \<rparr>)"

text \<open>\<open>for cp in body["checkpoints"]\<close>.\<close>

fun check_checkpoints ::
  "kernel \<Rightarrow> checkpoint_map \<Rightarrow> json list \<Rightarrow> exc + (checkpoint_map \<times> checkpoint_result list)" where
  "check_checkpoints K by_tx_id [] = Inr (by_tx_id, [])"
| "check_checkpoints K by_tx_id (JDict cp # cps) =
     (case register_checkpoint by_tx_id cp of
        (by_tx_id', tx_notes) \<Rightarrow>
          ebind (check_checkpoints K by_tx_id' cps)
            (\<lambda>(m, results). Inr (m, check_checkpoint K cp tx_notes # results)))"
| "check_checkpoints K by_tx_id (_ # cps) = Inl AttributeError"

section \<open>Inclusion of an event\<close>

text \<open>
  \<open>verify_inclusion\<close> on the index and the count as they stand in the JSON: integers (and
  booleans) take the loop; a float survives the comparisons and fails at the first bit
  operation; anything else cannot be compared.
\<close>

definition py_verify_inclusion ::
  "(bytes \<Rightarrow> bytes) \<Rightarrow> bytes \<Rightarrow> json \<Rightarrow> json \<Rightarrow> bytes list \<Rightarrow> bytes \<Rightarrow> exc + bool" where
  "py_verify_inclusion h leaf leaf_index total_leaves path expected_root =
     (case num_of leaf_index of
        None \<Rightarrow> Inl TypeError
      | Some i \<Rightarrow>
          if num_less i (NInt 0) then Inr False
          else (case num_of total_leaves of
             None \<Rightarrow> Inl TypeError
           | Some n \<Rightarrow>
               if num_le n i \<or> num_eq n (NInt 0) then Inr False
               else if num_eq n (NInt 1) then Inr (path = [] \<and> leaf = expected_root)
               else (case (i, n) of
                  (NInt i', NInt n') \<Rightarrow> Inr (verify_inclusion h leaf i' n' path expected_root)
                | _ \<Rightarrow> if path = [] then Inr False else Inl TypeError)))"

text \<open>\<open>incl.get("audit_path") or []\<close>, decoded entry by entry.\<close>

definition decode_audit_path :: "json \<Rightarrow> exc + bytes list" where
  "decode_audit_path v =
     ebind (py_iter (if py_truthy v then v else JList [])) (emap hex_value_to_bytes)"

text \<open>The first statement of the \<open>try\<close> block: the call of \<open>verify_inclusion\<close>.\<close>

definition inclusion_call :: "kernel \<Rightarrow> items \<Rightarrow> items \<Rightarrow> exc + bool" where
  "inclusion_call K incl cp =
     ebind (hex_value_to_bytes (dget incl ''leaf_hash''))
       (\<lambda>leaf. ebind (decode_audit_path (dget incl ''audit_path''))
         (\<lambda>path. ebind (hex_value_to_bytes (dget cp ''merkle_root''))
           (\<lambda>root. py_verify_inclusion (k_sha256 K) leaf
              (dget incl ''leaf_index'') (dget incl ''leaf_count'') path root)))"

text \<open>\<open>(incl.get("leaf_hash") or "").lower()\<close>, for the string the first statement decoded.\<close>

definition claimed_leaf_hex :: "items \<Rightarrow> string" where
  "claimed_leaf_hex incl = (case dget incl ''leaf_hash'' of JStr s \<Rightarrow> lower s | _ \<Rightarrow> [])"

text \<open>
  The whole block.  When the leaf hash cannot be recomputed the handler leaves
  \<open>inclusion_ok\<close> as the first statement set it.
\<close>

definition check_inclusion :: "kernel \<Rightarrow> json \<Rightarrow> items \<Rightarrow> items \<Rightarrow> bool \<times> event_note list" where
  "check_inclusion K envelope incl cp =
     (case inclusion_call K incl cp of
        Inl exc \<Rightarrow> (False, [InclusionError exc])
      | Inr inclusion_ok \<Rightarrow>
          (let notes = (if inclusion_ok then [] else [InclusionNotReconstructed])
           in case canonical K envelope of
                Inl exc \<Rightarrow> (inclusion_ok, notes @ [InclusionError exc])
              | Inr env_bytes \<Rightarrow>
                  (if hex_encode (leaf_hash (k_sha256 K) env_bytes) \<noteq> claimed_leaf_hex incl
                   then (False, notes @ [LeafHashMismatch])
                   else (inclusion_ok, notes))))"

section \<open>Content binding\<close>

text \<open>The side input \<open>content\<close>: raw bytes, or a string of hexadecimal digits, per event id.\<close>

datatype side_content = SideBytes bytes | SideHex string

type_synonym side_input = "(string \<times> side_content) list"

text \<open>The content hashes an event commits to: its record's, else its envelope's.\<close>

definition committed_hashes :: "kernel \<Rightarrow> items \<Rightarrow> bytes option \<Rightarrow> string list" where
  "committed_hashes K ev record_bytes =
     (let record_content_hash =
            (case record_bytes of
               None \<Rightarrow> None
             | Some rb \<Rightarrow>
                 (case k_json_loads K rb of
                    None \<Rightarrow> None
                  | Some record \<Rightarrow>
                      (case record_event_field record ''content_hash'' of
                         JStr ch \<Rightarrow> if ch = [] then None else Some (lower ch)
                       | _ \<Rightarrow> None)))
      in case record_content_hash of
           Some ch \<Rightarrow> [ch]
         | None \<Rightarrow>
             (case dget ev ''envelope'' of
                JDict env \<Rightarrow> map (\<lambda>(role, h). lower h) (content_hashes env)
              | _ \<Rightarrow> []))"

definition in_body_content :: "items \<Rightarrow> bytes option \<times> event_note list" where
  "in_body_content ev =
     (case dget ev ''content'' of
        JStr s \<Rightarrow> (case hex_to_bytes s of Inr b \<Rightarrow> (Some b, []) | Inl e \<Rightarrow> (None, [ContentNotHex e]))
      | _ \<Rightarrow> (None, []))"

definition supplied_content :: "side_input \<Rightarrow> string \<Rightarrow> bytes option \<times> event_note list" where
  "supplied_content content event_id =
     (case map_of content event_id of
        None \<Rightarrow> (None, [])
      | Some (SideBytes b) \<Rightarrow> (Some b, [])
      | Some (SideHex s) \<Rightarrow>
          (case hex_to_bytes s of Inr b \<Rightarrow> (Some b, []) | Inl e \<Rightarrow> (None, [SideContentNotHex event_id e])))"

definition evaluate_content ::
  "kernel \<Rightarrow> items \<Rightarrow> bytes option \<Rightarrow> string \<Rightarrow> side_input \<Rightarrow> bool option \<times> event_note list" where
  "evaluate_content K ev record_bytes event_id content =
     (let committed = committed_hashes K ev record_bytes;
          (in_body, notes1) = in_body_content ev;
          (side, notes2) = supplied_content content event_id;
          notes = notes1 @ notes2
      in if in_body \<noteq> None \<and> side \<noteq> None \<and> in_body \<noteq> side
         then (Some False, notes @ [ContentDisagreement])
         else case (if in_body \<noteq> None then in_body else side) of
           None \<Rightarrow> (None, notes)
         | Some disclosed \<Rightarrow>
             (if committed = [] then (None, notes @ [ContentUncommitted])
              else let got = sha256_hex K disclosed
                   in if got \<in> set committed then (Some True, notes)
                      else (Some False, notes @ [ContentMismatch got committed])))"

section \<open>Events\<close>

text \<open>\<open>by_tx_id.get(incl.get("checkpoint_tx_id"))\<close> where both tests of the source hold.\<close>

definition resolve_checkpoint :: "checkpoint_map \<Rightarrow> json \<Rightarrow> items option" where
  "resolve_checkpoint by_tx_id inclusion =
     (case inclusion of
        JDict incl \<Rightarrow>
          (case dget incl ''checkpoint_tx_id'' of JStr t \<Rightarrow> map_of by_tx_id t | _ \<Rightarrow> None)
      | _ \<Rightarrow> None)"

definition check_event :: "kernel \<Rightarrow> checkpoint_map \<Rightarrow> side_input \<Rightarrow> items \<Rightarrow> event_result" where
  "check_event K by_tx_id content ev =
     (let envelope = dget ev ''envelope'';
          event_id = get_event_id envelope;
          (record_bytes, hex_error) = decode_record ev;
          hex_notes = (case hex_error of None \<Rightarrow> [] | Some e \<Rightarrow> [EvRecordNotHex e]);
          res = verify_envelope K envelope record_bytes None False;
          env_notes =
            (if vr_signature_ok res then [] else [EvSignatureFailed])
            @ (if vr_payload_hash_ok res = Some False then [EvRecordUnbound] else []);
          inclusion = dget ev ''inclusion'';
          cp = resolve_checkpoint by_tx_id inclusion;
          bound_notes =
            (case inclusion of
               JDict incl \<Rightarrow>
                 (if cp = None then [UnresolvedCheckpoint (dget incl ''checkpoint_tx_id'')] else [])
             | _ \<Rightarrow> [MissingInclusion]);
          (inclusion_ok, incl_notes) =
            (case (inclusion, cp) of
               (JDict incl, Some c) \<Rightarrow> check_inclusion K envelope incl c
             | _ \<Rightarrow> (False, []));
          (content_ok, content_notes) = evaluate_content K ev record_bytes event_id content
      in \<lparr> ev_event_id = event_id,
           ev_envelope_ok = vr_ok res,
           ev_payload_binding_ok = vr_payload_hash_ok res,
           ev_inclusion_ok = inclusion_ok,
           ev_checkpoint_bound = (cp \<noteq> None),
           ev_content_ok = content_ok,
           ev_ok = vr_ok res \<and> inclusion_ok \<and> cp \<noteq> None \<and> content_ok \<noteq> Some False,
           ev_errors = hex_notes @ env_notes @ bound_notes @ incl_notes @ content_notes \<rparr>)"

text \<open>\<open>for ev in body["events"]\<close>.\<close>

fun check_events ::
  "kernel \<Rightarrow> checkpoint_map \<Rightarrow> side_input \<Rightarrow> json list \<Rightarrow> exc + event_result list" where
  "check_events K by_tx_id content [] = Inr []"
| "check_events K by_tx_id content (JDict ev # evs) =
     ebind (check_events K by_tx_id content evs)
       (\<lambda>results. Inr (check_event K by_tx_id content ev # results))"
| "check_events K by_tx_id content (_ # evs) = Inl AttributeError"

section \<open>The on-chain pass\<close>

definition recheck_checkpoint ::
  "kernel \<Rightarrow> 'w fetch \<Rightarrow> string list \<Rightarrow> checkpoint_map \<Rightarrow> checkpoint_result \<Rightarrow> 'w
     \<Rightarrow> (checkpoint_result \<times> bool) \<times> 'w" where
  "recheck_checkpoint K fetch gateways by_tx_id cpr w =
     (case map_of by_tx_id (cr_tx_id cpr) of
        None \<Rightarrow> ((cpr, False), w)
      | Some cp \<Rightarrow>
          (case refetch_checkpoint K fetch gateways cp w of
             ((on_chain, unavailable, error), w') \<Rightarrow>
               ((cpr \<lparr> cr_on_chain := Some on_chain,
                       cr_on_chain_ok := oc_on_chain_ok on_chain,
                       cr_errors := cr_errors cpr @ (case error of None \<Rightarrow> [] | Some n \<Rightarrow> [n]),
                       cr_ok := cr_envelope_ok cpr \<and> cr_merkle_root_ok cpr
                                \<and> oc_on_chain_ok on_chain \<noteq> Some False \<rparr>,
                 unavailable), w')))"

fun recheck_checkpoints ::
  "kernel \<Rightarrow> 'w fetch \<Rightarrow> string list \<Rightarrow> checkpoint_map \<Rightarrow> checkpoint_result list \<Rightarrow> 'w
     \<Rightarrow> (checkpoint_result list \<times> bool) \<times> 'w" where
  "recheck_checkpoints K fetch gateways by_tx_id [] w = (([], False), w)"
| "recheck_checkpoints K fetch gateways by_tx_id (cpr # cprs) w =
     (case recheck_checkpoint K fetch gateways by_tx_id cpr w of
        ((cpr', unavailable), w') \<Rightarrow>
          (case recheck_checkpoints K fetch gateways by_tx_id cprs w' of
             ((cprs', unavailable'), w'') \<Rightarrow> ((cpr' # cprs', unavailable \<or> unavailable'), w'')))"

section \<open>Rollup\<close>

definition trace_status ::
  "checkpoint_result list \<Rightarrow> event_result list \<Rightarrow> bool \<Rightarrow> status" where
  "trace_status checkpoints events gateway_unavailable =
     (let all_checkpoints_ok = checkpoints \<noteq> [] \<and> list_all cr_ok checkpoints;
          all_events_ok = list_all ev_ok events;
          any_hard_failure =
            list_ex (\<lambda>c. \<not> cr_ok c) checkpoints \<or> list_ex (\<lambda>e. \<not> ev_ok e) events;
          any_withheld_record = list_ex (\<lambda>e. ev_payload_binding_ok e = None) events
      in if any_hard_failure then Failed
         else if gateway_unavailable then Partial
         else if any_withheld_record then Partial
         else if all_checkpoints_ok \<and> all_events_ok then Verified
         else Partial)"

definition NO_FETCH_NOTE :: string where
  "NO_FETCH_NOTE = ''on-chain re-fetch requested but no fetch implementation is available''"

definition GATEWAY_NOTE :: string where
  "GATEWAY_NOTE =
     ''one or more checkpoints could not be re-fetched from the supplied gateways''"

definition verify_anchor_trace ::
  "kernel \<Rightarrow> 'w fetch option \<Rightarrow> string list \<Rightarrow> side_input \<Rightarrow> items \<Rightarrow> bool \<Rightarrow> string option
     \<Rightarrow> string list \<Rightarrow> 'w \<Rightarrow> exc + (evidence_result \<times> 'w)" where
  "verify_anchor_trace K fetch gateways content b spec_version_ok asserted_status errors w =
     (case dget b ''body'' of
        JDict body \<Rightarrow>
          (case (dget body ''checkpoints'', dget body ''events'') of
             (JList cps, JList evs) \<Rightarrow>
               ebind (check_checkpoints K [] cps)
                 (\<lambda>(by_tx_id, checkpoint_results).
                    ebind (check_events K by_tx_id content evs)
                      (\<lambda>event_results.
                         let on_chain_checked = (gateways \<noteq> []);
                             ((checkpoint_results, gateway_unavailable, fetch_notes), w) =
                               (if on_chain_checked
                                then (case fetch of
                                        None \<Rightarrow> ((checkpoint_results, True, [NO_FETCH_NOTE]), w)
                                      | Some f \<Rightarrow>
                                          (case recheck_checkpoints K f gateways by_tx_id checkpoint_results w of
                                             ((crs, unavailable), w') \<Rightarrow> ((crs, unavailable, []), w')))
                                else ((checkpoint_results, False, []), w));
                             status = trace_status checkpoint_results event_results gateway_unavailable;
                             any_hard_failure =
                               list_ex (\<lambda>c. \<not> cr_ok c) checkpoint_results
                               \<or> list_ex (\<lambda>e. \<not> ev_ok e) event_results
                         in Inr
                              (\<lparr> er_status = status, er_spec_version_ok = spec_version_ok,
                                 er_body_hash_ok = True, er_signature_ok = True,
                                 er_body_type = Some ANCHOR_TRACE_BODY_TYPE,
                                 er_on_chain_checked = on_chain_checked,
                                 er_checkpoints = checkpoint_results, er_events = event_results,
                                 er_asserted_status = asserted_status, er_export = None,
                                 er_errors = errors @ fetch_notes
                                   @ (if \<not> any_hard_failure \<and> gateway_unavailable
                                      then [GATEWAY_NOTE] else []) \<rparr>, w)))
           | _ \<Rightarrow>
               Inr (malformed
                 ''ario.anchor.trace/v1 body must have checkpoints[] and events[]'' True, w))
      | _ \<Rightarrow> Inl AttributeError)"

section \<open>Checkpoints: what a positive result says\<close>

text \<open>
  A checkpoint is bound when its envelope verifies with the record as the external payload,
  and the record commits to the root the checkpoint claims.
\<close>

definition checkpoint_bound :: "kernel \<Rightarrow> items \<Rightarrow> bool" where
  "checkpoint_bound K cp \<longleftrightarrow>
     (\<exists>rb record root.
        decode_record cp = (Some rb, None)
        \<and> vr_ok (verify_envelope K (dget cp ''envelope'') (Some rb) None False)
        \<and> k_json_loads K rb = Some record
        \<and> record_event_field record ''merkle_root'' = JStr root
        \<and> dget cp ''merkle_root'' = JStr root)"

lemma decode_record_cases:
  "decode_record d = (rb, err) \<Longrightarrow> rb = None \<or> err = None"
  by (auto simp: decode_record_def split: json.splits sum.splits)

lemma verify_envelope_bound:
  "vr_ok (verify_envelope K v (Some rb) None False) \<Longrightarrow>
   vr_payload_hash_ok (verify_envelope K v (Some rb) None False) = Some True"
proof -
  assume ok: "vr_ok (verify_envelope K v (Some rb) None False)"
  then obtain env where v: "v = JDict env"
    using verify_envelope_not_dict is_dict_iff by blast
  have "fst (check_payload K env (Some rb)) \<noteq> None" by (simp add: check_payload_None)
  with ok show ?thesis unfolding v verify_envelope_fields by auto
qed

lemma check_checkpoint_fields:
  "cr_ok (check_checkpoint K cp notes) \<longleftrightarrow>
     cr_envelope_ok (check_checkpoint K cp notes) \<and> cr_merkle_root_ok (check_checkpoint K cp notes)"
  "cr_envelope_ok (check_checkpoint K cp notes) \<longleftrightarrow>
     vr_ok (verify_envelope K (dget cp ''envelope'') (fst (decode_record cp)) None False)
     \<and> vr_payload_hash_ok (verify_envelope K (dget cp ''envelope'') (fst (decode_record cp)) None False)
         = Some True"
  "cr_merkle_root_ok (check_checkpoint K cp notes) \<longleftrightarrow>
     fst (check_committed_root K cp (fst (decode_record cp)))"
  "cr_tx_id (check_checkpoint K cp notes) = (case dget cp ''tx_id'' of JStr s \<Rightarrow> s | _ \<Rightarrow> [])"
  "cr_on_chain (check_checkpoint K cp notes) = None"
  by (simp_all add: check_checkpoint_def case_prod_beta Let_def)

lemma check_checkpoint_ok: "cr_ok (check_checkpoint K cp notes) \<longleftrightarrow> checkpoint_bound K cp"
proof (cases "fst (decode_record cp)")
  case None
  then have "\<not> checkpoint_bound K cp" by (auto simp: checkpoint_bound_def)
  with None show ?thesis by (simp add: check_checkpoint_fields check_committed_root_def)
next
  case (Some rb)
  then have d: "decode_record cp = (Some rb, None)"
    using decode_record_cases [of cp] by (cases "decode_record cp") auto
  have "fst (check_committed_root K cp (Some rb)) \<longleftrightarrow>
      (\<exists>record root. k_json_loads K rb = Some record
        \<and> record_event_field record ''merkle_root'' = JStr root \<and> dget cp ''merkle_root'' = JStr root)"
    by (auto simp: check_committed_root_def Let_def is_str_iff split: option.splits)
  then show ?thesis
    using verify_envelope_bound [of K "dget cp ''envelope''" rb]
    unfolding check_checkpoint_fields checkpoint_bound_def d by auto
qed

lemma register_keys:
  "register_checkpoint m cp = (m', notes) \<Longrightarrow>
   map_of m' t = (if dget cp ''tx_id'' = JStr t \<and> map_of m t = None then Some cp else map_of m t)"
  by (auto simp: register_checkpoint_def map_add_def split: json.splits if_splits option.splits)

text \<open>
  The pass returns iff every element is a dict; results correspond one to one, and the map it
  builds sends a transaction id to the first checkpoint that has it.
\<close>

definition first_with_tx :: "items list \<Rightarrow> string \<Rightarrow> items option" where
  "first_with_tx cps t = find (\<lambda>cp. dget cp ''tx_id'' = JStr t) cps"

lemma check_checkpoints_returns:
  "(\<exists>r. check_checkpoints K m cps = Inr r) \<longleftrightarrow> list_all is_dict cps"
proof (induction cps arbitrary: m)
  case (Cons v cps)
  then show ?case by (cases v) (auto simp: result_simps case_prod_beta)
qed simp

lemma check_checkpoints_raises:
  "check_checkpoints K m cps = Inl e \<Longrightarrow> e = AttributeError"
proof (induction cps arbitrary: m)
  case (Cons v cps)
  then show ?case by (cases v) (auto simp: ebind_Inl_iff case_prod_beta)
qed simp

lemma check_checkpoints_Inr:
  "check_checkpoints K m cps = Inr (m', rs) \<Longrightarrow>
   \<exists>ds. cps = map JDict ds
     \<and> list_all2 (\<lambda>cp r. \<exists>notes. r = check_checkpoint K cp notes) ds rs
     \<and> (\<forall>t. map_of m' t = (case map_of m t of Some c \<Rightarrow> Some c | None \<Rightarrow> first_with_tx ds t))"
proof (induction K m cps arbitrary: m' rs rule: check_checkpoints.induct)
  case (1 K m)
  then show ?case by (auto simp: first_with_tx_def split: option.splits)
next
  case (2 K m cp cps)
  obtain m1 ns where reg: "register_checkpoint m cp = (m1, ns)" by fastforce
  with "2.prems" obtain rs' where
    rec: "check_checkpoints K m1 cps = Inr (m', rs')" and rs: "rs = check_checkpoint K cp ns # rs'"
    by (auto simp: result_simps)
  from "2.IH" [OF reg [symmetric] rec] obtain ds where
    ds: "cps = map JDict ds" "list_all2 (\<lambda>cp r. \<exists>notes. r = check_checkpoint K cp notes) ds rs'"
    "\<forall>t. map_of m' t = (case map_of m1 t of Some c \<Rightarrow> Some c | None \<Rightarrow> first_with_tx ds t)" by blast
  have "map_of m' t = (case map_of m t of Some c \<Rightarrow> Some c | None \<Rightarrow> first_with_tx (cp # ds) t)" for t
    using ds(3) register_keys [OF reg, of t] by (auto simp: first_with_tx_def split: option.splits)
  with ds(1,2) rs show ?case by (intro exI [of _ "cp # ds"]) auto
qed auto

section \<open>Events: what a positive result says\<close>

lemma py_verify_inclusion_true:
  "py_verify_inclusion h leaf idx cnt path root = Inr True \<Longrightarrow>
   \<exists>i n. verify_inclusion h leaf i n path root"
proof -
  assume ok: "py_verify_inclusion h leaf idx cnt path root = Inr True"
  have one: "verify_inclusion h leaf 0 1 [] leaf" by (simp add: verify_inclusion_def)
  show ?thesis
    using ok one
    by (auto simp: py_verify_inclusion_def split: option.splits if_splits num.splits)
qed

lemma lower_hex_no_space:
  assumes "lower s = hex_encode x"
  shows "hex_digits_of s = hex_encode x"
proof -
  have sp: "is_space (lower_char c) = is_space c" for c
    by (auto simp: is_space_def lower_char_def Let_def)
  have "list_all (\<lambda>c. \<not> is_space c) (hex_encode x)" by (induction x) auto
  then have "list_all (\<lambda>c. \<not> is_space c) s"
    unfolding assms [symmetric] by (simp add: lower_def list_all_iff sp)
  then have "filter (\<lambda>c. \<not> is_space c) s = s" by (simp add: list_all_iff filter_id_conv)
  with assms show ?thesis by (simp add: hex_digits_of_def)
qed

text \<open>
  With a canonicalizable envelope the block succeeds iff the proof proves the hash of the
  envelope itself under the checkpoint's root.
\<close>

definition inclusion_proves :: "kernel \<Rightarrow> bytes \<Rightarrow> items \<Rightarrow> items \<Rightarrow> bool" where
  "inclusion_proves K eb incl cp \<longleftrightarrow>
     (\<exists>path root.
        claimed_leaf_hex incl = hex_encode (leaf_hash (k_sha256 K) eb)
        \<and> hex_value_to_bytes (dget incl ''leaf_hash'') = Inr (leaf_hash (k_sha256 K) eb)
        \<and> decode_audit_path (dget incl ''audit_path'') = Inr path
        \<and> hex_value_to_bytes (dget cp ''merkle_root'') = Inr root
        \<and> py_verify_inclusion (k_sha256 K) (leaf_hash (k_sha256 K) eb)
             (dget incl ''leaf_index'') (dget incl ''leaf_count'') path root = Inr True)"

lemma claimed_leaf_bytes:
  assumes "hex_value_to_bytes (dget incl ''leaf_hash'') = Inr leaf"
    and "claimed_leaf_hex incl = hex_encode x"
  shows "leaf = x"
proof -
  obtain s where s: "dget incl ''leaf_hash'' = JStr s" using hex_value_str [OF assms(1)] is_str_iff by blast
  with assms(1) have "hex_encode leaf = hex_digits_of s" by (simp add: hex_evidence.enc_dec)
  also have "\<dots> = hex_encode x"
    using assms(2) by (intro lower_hex_no_space) (simp add: claimed_leaf_hex_def s)
  finally show ?thesis by (simp add: hex_evidence.enc_inject)
qed

lemma check_inclusion_iff:
  assumes "canonical K envelope = Inr eb"
  shows "fst (check_inclusion K envelope incl cp) \<longleftrightarrow> inclusion_proves K eb incl cp"
proof -
  have "fst (check_inclusion K envelope incl cp) \<longleftrightarrow>
      inclusion_call K incl cp = Inr True \<and> claimed_leaf_hex incl = hex_encode (leaf_hash (k_sha256 K) eb)"
    using assms by (auto simp: check_inclusion_def Let_def split: sum.splits if_splits)
  then show ?thesis
    using claimed_leaf_bytes [of incl]
    by (auto simp: inclusion_call_def inclusion_proves_def result_simps)
qed

lemma inclusion_proves_tree:
  "inclusion_proves K eb incl cp \<Longrightarrow>
   \<exists>i n path root. decode_audit_path (dget incl ''audit_path'') = Inr path
     \<and> hex_value_to_bytes (dget cp ''merkle_root'') = Inr root
     \<and> verify_inclusion (k_sha256 K) (leaf_hash (k_sha256 K) eb) i n path root"
  unfolding inclusion_proves_def using py_verify_inclusion_true by blast

definition event_bound :: "kernel \<Rightarrow> items list \<Rightarrow> items \<Rightarrow> bool" where
  "event_bound K cps ev \<longleftrightarrow>
     vr_ok (verify_envelope K (dget ev ''envelope'') (fst (decode_record ev)) None False)
     \<and> (\<exists>incl t cp eb.
          dget ev ''inclusion'' = JDict incl \<and> dget incl ''checkpoint_tx_id'' = JStr t
          \<and> first_with_tx cps t = Some cp \<and> canonical K (dget ev ''envelope'') = Inr eb
          \<and> inclusion_proves K eb incl cp)"

lemma check_event_fields:
  "ev_payload_binding_ok (check_event K m content ev) =
     vr_payload_hash_ok (verify_envelope K (dget ev ''envelope'') (fst (decode_record ev)) None False)"
  "ev_content_ok (check_event K m content ev) =
     fst (evaluate_content K ev (fst (decode_record ev)) (get_event_id (dget ev ''envelope'')) content)"
  "ev_envelope_ok (check_event K m content ev) =
     vr_ok (verify_envelope K (dget ev ''envelope'') (fst (decode_record ev)) None False)"
  "ev_checkpoint_bound (check_event K m content ev) = (resolve_checkpoint m (dget ev ''inclusion'') \<noteq> None)"
  "ev_inclusion_ok (check_event K m content ev) =
     fst (case (dget ev ''inclusion'', resolve_checkpoint m (dget ev ''inclusion'')) of
            (JDict incl, Some c) \<Rightarrow> check_inclusion K (dget ev ''envelope'') incl c
          | _ \<Rightarrow> (False, []))"
  "ev_ok (check_event K m content ev) \<longleftrightarrow>
     ev_envelope_ok (check_event K m content ev) \<and> ev_inclusion_ok (check_event K m content ev)
     \<and> ev_checkpoint_bound (check_event K m content ev) \<and> ev_content_ok (check_event K m content ev) \<noteq> Some False"
  unfolding check_event_def Let_def case_prod_beta by simp_all

lemma check_event_ok:
  assumes "canonical K (dget ev ''envelope'') = Inr eb"
    and "\<And>t. map_of m t = first_with_tx cps t"
  shows "ev_ok (check_event K m content ev) \<longleftrightarrow>
     event_bound K cps ev
     \<and> fst (evaluate_content K ev (fst (decode_record ev)) (get_event_id (dget ev ''envelope'')) content)
        \<noteq> Some False"
proof (cases "\<exists>incl t. dget ev ''inclusion'' = JDict incl \<and> dget incl ''checkpoint_tx_id'' = JStr t")
  case True
  then obtain incl t where i: "dget ev ''inclusion'' = JDict incl" "dget incl ''checkpoint_tx_id'' = JStr t"
    by blast
  show ?thesis
    using i assms check_inclusion_iff [OF assms(1), of incl]
    by (cases "first_with_tx cps t")
      (auto simp: check_event_fields event_bound_def resolve_checkpoint_def)
next
  case False
  then have "resolve_checkpoint m (dget ev ''inclusion'') = None" "\<not> event_bound K cps ev"
    by (auto simp: resolve_checkpoint_def event_bound_def split: json.splits)
  then show ?thesis by (simp add: check_event_fields(4,6))
qed

lemma check_events_iff:
  "check_events K m content evs = Inr rs \<longleftrightarrow>
     (\<exists>ds. evs = map JDict ds \<and> rs = map (check_event K m content) ds)"
proof (induction evs arbitrary: rs)
  case (Cons v evs)
  then show ?case by (cases v) (auto simp: result_simps Cons_eq_map_conv)
qed auto

lemma check_events_raises: "check_events K m content evs = Inl e \<Longrightarrow> e = AttributeError"
proof (induction evs)
  case (Cons v evs)
  then show ?case by (cases v) (auto simp: ebind_Inl_iff)
qed simp

section \<open>The on-chain pass\<close>

lemma recheck_checkpoint_fields:
  assumes "recheck_checkpoint K f gws m r w = ((r', u), w')"
  shows "cr_envelope_ok r' = cr_envelope_ok r" "cr_merkle_root_ok r' = cr_merkle_root_ok r"
    "cr_tx_id r' = cr_tx_id r"
    "cr_ok r = (cr_envelope_ok r \<and> cr_merkle_root_ok r) \<Longrightarrow> cr_ok r' \<Longrightarrow> cr_ok r"
    "map_of m (cr_tx_id r) \<noteq> None \<Longrightarrow> cr_ok r' \<Longrightarrow> \<not> u \<Longrightarrow> cr_on_chain_ok r' = Some True"
proof -
  show "cr_envelope_ok r' = cr_envelope_ok r" "cr_merkle_root_ok r' = cr_merkle_root_ok r"
    "cr_tx_id r' = cr_tx_id r"
    "cr_ok r = (cr_envelope_ok r \<and> cr_merkle_root_ok r) \<Longrightarrow> cr_ok r' \<Longrightarrow> cr_ok r"
    using assms by (auto simp: recheck_checkpoint_def case_prod_beta split: option.splits)
next
  assume m: "map_of m (cr_tx_id r) \<noteq> None" and ok: "cr_ok r'" and u: "\<not> u"
  then obtain cp where cp: "map_of m (cr_tx_id r) = Some cp" by blast
  obtain oc u' n w1 where rf: "refetch_checkpoint K f gws cp w = ((oc, u', n), w1)" by (metis surj_pair)
  have r': "cr_on_chain_ok r' = oc_on_chain_ok oc" "u = u'" "cr_ok r' \<longrightarrow> oc_on_chain_ok oc \<noteq> Some False"
    using assms by (auto simp: recheck_checkpoint_def cp rf)
  obtain gs where "oc = rollup_on_chain gs" "u' \<longleftrightarrow> oc_rollup oc = Unreachable"
    using refetch_rollup [OF rf] by blast
  with r' ok u have "oc_rollup oc \<noteq> Unreachable" "oc_rollup oc \<noteq> Mismatch" by auto
  with \<open>oc = rollup_on_chain gs\<close> r'(1) show "cr_on_chain_ok r' = Some True"
    by (cases "oc_rollup oc") auto
qed

lemma recheck_checkpoints_all2:
  "recheck_checkpoints K f gws m rs w = ((rs', u), w') \<Longrightarrow>
   list_all2 (\<lambda>r r'. \<exists>u1 w1 w1'. recheck_checkpoint K f gws m r w1 = ((r', u1), w1') \<and> (u1 \<longrightarrow> u)) rs rs'"
proof (induction rs arbitrary: rs' u w w')
  case (Cons r rs)
  obtain r' u1 w1 where 1: "recheck_checkpoint K f gws m r w = ((r', u1), w1)" by (metis surj_pair)
  obtain rs1 u2 w2 where 2: "recheck_checkpoints K f gws m rs w1 = ((rs1, u2), w2)" by (metis surj_pair)
  from Cons.prems have e: "rs' = r' # rs1" "u = (u1 \<or> u2)" by (auto simp: 1 2)
  have "list_all2 (\<lambda>r r'. \<exists>u1 w1 w1'. recheck_checkpoint K f gws m r w1 = ((r', u1), w1') \<and> (u1 \<longrightarrow> u)) rs rs1"
    by (rule list_all2_mono [OF Cons.IH [OF 2]]) (auto simp: e)
  with 1 e show ?case by auto
qed simp

section \<open>The verdict on a trace\<close>

lemma trace_status_verified:
  "trace_status crs evs unavailable = Verified \<longleftrightarrow>
     crs \<noteq> [] \<and> list_all cr_ok crs \<and> list_all ev_ok evs
     \<and> list_all (\<lambda>e. ev_payload_binding_ok e \<noteq> None) evs \<and> \<not> unavailable"
  by (auto simp: trace_status_def Let_def list_ex_iff list_all_iff)

lemma trace_status_failed:
  "trace_status crs evs unavailable = Failed \<longleftrightarrow> \<not> list_all cr_ok crs \<or> \<not> list_all ev_ok evs"
  by (auto simp: trace_status_def Let_def list_ex_iff list_all_iff)

text \<open>The run, once the two passes have returned.\<close>

definition on_chain_pass ::
  "kernel \<Rightarrow> 'w fetch option \<Rightarrow> string list \<Rightarrow> checkpoint_map \<Rightarrow> checkpoint_result list \<Rightarrow> 'w
     \<Rightarrow> (checkpoint_result list \<times> bool) \<times> 'w" where
  "on_chain_pass K fetch gateways m crs w =
     (if gateways = [] then ((crs, False), w)
      else case fetch of
        None \<Rightarrow> ((crs, True), w)
      | Some f \<Rightarrow> recheck_checkpoints K f gateways m crs w)"

lemma verify_anchor_trace_run:
  assumes "dget b ''body'' = JDict body"
    and "dget body ''checkpoints'' = JList (map JDict cps)"
    and "dget body ''events'' = JList (map JDict evs)"
    and "check_checkpoints K [] (map JDict cps) = Inr (m, crs)"
    and "on_chain_pass K fetch gateways m crs w = ((crs', unavailable), w')"
  shows "\<exists>r. verify_anchor_trace K fetch gateways content b sv asserted errors w = Inr (r, w')
     \<and> er_status r = trace_status crs' (map (check_event K m content) evs) unavailable
     \<and> er_checkpoints r = crs' \<and> er_events r = map (check_event K m content) evs
     \<and> er_body_hash_ok r \<and> er_signature_ok r \<and> er_spec_version_ok r = sv \<and> er_export r = None
     \<and> (\<exists>notes. er_errors r = errors @ notes \<and> set notes \<subseteq> {NO_FETCH_NOTE, GATEWAY_NOTE}
          \<and> (notes \<noteq> [] \<longrightarrow> unavailable))
     \<and> er_on_chain_checked r = (gateways \<noteq> [])"
proof -
  have evs: "check_events K m content (map JDict evs) = Inr (map (check_event K m content) evs)"
    by (auto simp: check_events_iff)
  show ?thesis
    using assms(5)
    by (cases fetch)
      (auto simp: verify_anchor_trace_def assms(1-4) evs on_chain_pass_def Let_def case_prod_beta
        split: if_splits)
qed

lemma check_checkpoints_map:
  obtains m crs where "check_checkpoints K [] (map JDict cps) = Inr (m, crs)"
    and "list_all2 (\<lambda>cp r. \<exists>notes. r = check_checkpoint K cp notes) cps crs"
    and "\<And>t. map_of m t = first_with_tx cps t"
proof -
  have "list_all is_dict (map JDict cps)" by (simp add: list_all_iff)
  then obtain m crs where r: "check_checkpoints K [] (map JDict cps) = Inr (m, crs)"
    using check_checkpoints_returns [of K "[]" "map JDict cps"] by auto
  from check_checkpoints_Inr [OF r] obtain ds where
    "map JDict cps = map JDict ds" "list_all2 (\<lambda>cp r. \<exists>notes. r = check_checkpoint K cp notes) ds crs"
    "\<forall>t. map_of m t = first_with_tx ds t" by auto
  moreover from this(1) have "ds = cps" by (rule map_injective [symmetric]) (simp add: inj_def)
  ultimately show thesis using r that by blast
qed

lemma is_dict_list: "list_all is_dict xs \<longleftrightarrow> (\<exists>ds. xs = map JDict ds)"
proof (induction xs)
  case (Cons x xs)
  then show ?case by (cases x) (auto simp: Cons_eq_map_conv)
qed simp

text \<open>
  When \<open>_verify_anchor_trace\<close> raises: exactly for a body that is no dict, or a checkpoint or
  event that is no dict, and then with \<open>AttributeError\<close>.
\<close>

lemma verify_anchor_trace_raises_iff:
  "verify_anchor_trace K fetch gateways content b sv asserted errors w = Inl e \<longleftrightarrow>
     e = AttributeError
     \<and> (case dget b ''body'' of
          JDict body \<Rightarrow>
            (\<exists>cps evs. dget body ''checkpoints'' = JList cps \<and> dget body ''events'' = JList evs
               \<and> \<not> (list_all is_dict cps \<and> list_all is_dict evs))
        | _ \<Rightarrow> True)"
proof (cases "\<exists>body cps evs. dget b ''body'' = JDict body
    \<and> dget body ''checkpoints'' = JList cps \<and> dget body ''events'' = JList evs")
  case True
  then obtain body cps evs where b: "dget b ''body'' = JDict body"
    "dget body ''checkpoints'' = JList cps" "dget body ''events'' = JList evs" by blast
  show ?thesis
  proof (cases "list_all is_dict cps \<and> list_all is_dict evs")
    case True
    then obtain cps' evs' where d: "cps = map JDict cps'" "evs = map JDict evs'"
      using is_dict_list by metis
    obtain m crs where c: "check_checkpoints K [] (map JDict cps') = Inr (m, crs)"
      using check_checkpoints_map by blast
    obtain crs' u w' where p: "on_chain_pass K fetch gateways m crs w = ((crs', u), w')"
      by (metis surj_pair)
    from verify_anchor_trace_run [OF b(1) b(2,3) [unfolded d] c p, where content = content
      and sv = sv and asserted = asserted and errors = errors]
    obtain r where "verify_anchor_trace K fetch gateways content b sv asserted errors w = Inr (r, w')"
      by blast
    with b True show ?thesis by auto
  next
    case False
    then have "\<exists>e. check_checkpoints K [] cps = Inl e \<or> (\<exists>m crs. check_checkpoints K [] cps = Inr (m, crs)
        \<and> check_events K m content evs = Inl e)"
      using check_checkpoints_returns [of K "[]" cps] is_dict_list check_events_iff
      by (metis obj_sumE surj_pair)
    then have "verify_anchor_trace K fetch gateways content b sv asserted errors w = Inl AttributeError"
      using check_checkpoints_raises check_events_raises
      by (auto simp: verify_anchor_trace_def b)
    with b False show ?thesis by auto
  qed
next
  case False
  then show ?thesis
    by (auto simp: verify_anchor_trace_def split: json.splits)
qed

text \<open>Every envelope inside a canonicalizable body is canonicalizable.\<close>

lemma canonical_dget:
  assumes "jcs_closed K" and "canonical K (JDict d) = Inr b" and "dget d k \<noteq> JNull"
  obtains b' where "canonical K (dget d k) = Inr b'"
proof -
  have "dget d k \<in> set (children (JDict d))" using dget_in [OF assms(3)] by force
  then show thesis using canonical_closed [OF assms(1,2)] that by blast
qed

lemma canonical_event_envelope:
  assumes "jcs_closed K" and "canonical K (JDict body) = Inr b"
    and "dget body ''events'' = JList (map JDict evs)" and "ev \<in> set evs"
    and "dget ev ''envelope'' = JDict env"
  obtains eb where "canonical K (JDict env) = Inr eb"
proof -
  obtain b1 where "canonical K (JList (map JDict evs)) = Inr b1"
    using canonical_dget [OF assms(1,2), of "''events''"] assms(3) by auto
  then obtain b2 where "canonical K (JDict ev) = Inr b2"
    using canonical_closed [OF assms(1), of "JList (map JDict evs)" b1 "JDict ev"] assms(4) by auto
  then obtain b3 where "canonical K (dget ev ''envelope'') = Inr b3"
    using canonical_dget [OF assms(1), of ev b2 "''envelope''"] assms(5) by auto
  with assms(5) that show thesis by auto
qed

text \<open>An event that counts towards a verified trace.\<close>

definition event_verified :: "kernel \<Rightarrow> items list \<Rightarrow> side_input \<Rightarrow> items \<Rightarrow> bool" where
  "event_verified K cps content ev \<longleftrightarrow>
     event_bound K cps ev
     \<and> vr_payload_hash_ok (verify_envelope K (dget ev ''envelope'') (fst (decode_record ev)) None False) \<noteq> None
     \<and> fst (evaluate_content K ev (fst (decode_record ev)) (get_event_id (dget ev ''envelope'')) content)
         \<noteq> Some False"

lemma check_event_verified:
  assumes "is_dict (dget ev ''envelope'') \<Longrightarrow> \<exists>eb. canonical K (dget ev ''envelope'') = Inr eb"
    and "\<And>t. map_of m t = first_with_tx cps t"
  shows "ev_ok (check_event K m content ev) \<and> ev_payload_binding_ok (check_event K m content ev) \<noteq> None
    \<longleftrightarrow> event_verified K cps content ev"
proof (cases "is_dict (dget ev ''envelope'')")
  case True
  then obtain eb where "canonical K (dget ev ''envelope'') = Inr eb" using assms(1) by blast
  from check_event_ok [OF this assms(2), of content] show ?thesis
    by (auto simp: event_verified_def check_event_fields(1))
next
  case False
  then have "\<not> vr_ok (verify_envelope K (dget ev ''envelope'') rb None False)" for rb
    by (rule verify_envelope_not_dict)
  then show ?thesis by (simp add: event_verified_def event_bound_def check_event_fields(3,6))
qed

lemma check_checkpoints_all_ok:
  "list_all2 (\<lambda>cp r. \<exists>notes. r = check_checkpoint K cp notes) cps crs \<Longrightarrow>
   list_all cr_ok crs \<longleftrightarrow> list_all (checkpoint_bound K) cps"
  by (induction cps crs rule: list_all2_induct) (auto simp: check_checkpoint_ok)

lemma on_chain_pass_all2:
  assumes "on_chain_pass K fetch gateways m crs w = ((crs', u), w')"
    and "list_all2 (\<lambda>cp r. \<exists>notes. r = check_checkpoint K cp notes) cps crs"
    and "\<And>t. map_of m t = first_with_tx cps t"
    and "list_all cr_ok crs'" and "\<not> u"
  shows "list_all cr_ok crs
    \<and> (gateways \<noteq> [] \<longrightarrow> list_all2 (\<lambda>cp r. is_str (dget cp ''tx_id'') \<longrightarrow> cr_on_chain_ok r = Some True) cps crs')"
proof (cases "gateways = []")
  case True
  with assms(1,4) show ?thesis by (simp add: on_chain_pass_def)
next
  case False
  with assms(1,5) obtain f where "recheck_checkpoints K f gateways m crs w = ((crs', u), w')"
    by (auto simp: on_chain_pass_def split: option.splits)
  from recheck_checkpoints_all2 [OF this] have re: "list_all2 (\<lambda>r r'. \<exists>w1 w1'.
      recheck_checkpoint K f gateways m r w1 = ((r', False), w1')) crs crs'"
    by (rule list_all2_mono) (use assms(5) in fastforce)
  have len: "length crs = length cps" "length crs' = length cps"
    using list_all2_lengthD [OF assms(2)] list_all2_lengthD [OF re] by simp_all
  have "cr_ok (crs ! i) \<and> (is_str (dget (cps ! i) ''tx_id'') \<longrightarrow> cr_on_chain_ok (crs' ! i) = Some True)"
    if i: "i < length cps" for i
  proof -
    obtain ns where r: "crs ! i = check_checkpoint K (cps ! i) ns"
      using list_all2_nthD [OF assms(2) i] by blast
    obtain w1 w1' where rc: "recheck_checkpoint K f gateways m (crs ! i) w1 = ((crs' ! i, False), w1')"
      using list_all2_nthD [OF re, of i] i len by auto
    have ok': "cr_ok (crs' ! i)" using assms(4) i len by (simp add: list_all_length)
    have "cr_ok (crs ! i)"
      by (rule recheck_checkpoint_fields(4) [OF rc _ ok']) (simp only: r check_checkpoint_fields(1))
    moreover have "cr_on_chain_ok (crs' ! i) = Some True" if str: "is_str (dget (cps ! i) ''tx_id'')"
    proof -
      obtain t where t: "dget (cps ! i) ''tx_id'' = JStr t" using str is_str_iff by blast
      then have "first_with_tx cps t \<noteq> None"
        using nth_mem [OF i] unfolding first_with_tx_def find_None_iff by blast
      then have "map_of m (cr_tx_id (crs ! i)) \<noteq> None"
        by (simp add: assms(3) r check_checkpoint_fields(4) t)
      then show ?thesis by (rule recheck_checkpoint_fields(5) [OF rc _ ok']) simp
    qed
    ultimately show ?thesis by blast
  qed
  then show ?thesis using len by (auto simp: list_all_length list_all2_conv_all_nth)
qed

lemma trace_verified:
  assumes "verify_anchor_trace K fetch gateways content b sv asserted errors w = Inr (r, w')"
    and "er_status r = Verified" and "jcs_closed K" and "canonical K (dget b ''body'') = Inr bb"
  shows "\<exists>body cps evs. dget b ''body'' = JDict body
     \<and> dget body ''checkpoints'' = JList (map JDict cps) \<and> dget body ''events'' = JList (map JDict evs)
     \<and> cps \<noteq> [] \<and> list_all (checkpoint_bound K) cps \<and> list_all (event_verified K cps content) evs
     \<and> (gateways \<noteq> [] \<longrightarrow>
          list_all2 (\<lambda>cp r. is_str (dget cp ''tx_id'') \<longrightarrow> cr_on_chain_ok r = Some True) cps (er_checkpoints r))"
proof -
  have no_raise: "verify_anchor_trace K fetch gateways content b sv asserted errors w \<noteq> Inl AttributeError"
    using assms(1) by simp
  obtain body where body: "dget b ''body'' = JDict body"
    using assms(1) by (auto simp: verify_anchor_trace_def split: json.splits)
  obtain xs ys where lists: "dget body ''checkpoints'' = JList xs" "dget body ''events'' = JList ys"
    using assms(1,2) body by (auto simp: verify_anchor_trace_def split: json.splits)
  have "list_all is_dict xs" "list_all is_dict ys"
    using no_raise body lists unfolding verify_anchor_trace_raises_iff by auto
  then obtain cps evs where d: "xs = map JDict cps" "ys = map JDict evs" using is_dict_list by metis
  note l = lists [unfolded d]
  obtain m crs where c: "check_checkpoints K [] (map JDict cps) = Inr (m, crs)"
    and crs: "list_all2 (\<lambda>cp r. \<exists>notes. r = check_checkpoint K cp notes) cps crs"
    and m: "\<And>t. map_of m t = first_with_tx cps t" by (rule check_checkpoints_map) blast
  obtain crs' u w1 where p: "on_chain_pass K fetch gateways m crs w = ((crs', u), w1)" by (metis surj_pair)
  have run: "er_status r = trace_status crs' (map (check_event K m content) evs) u" "er_checkpoints r = crs'"
    using verify_anchor_trace_run [OF body l c p, where content = content and sv = sv
      and asserted = asserted and errors = errors] assms(1) by auto
  with assms(2) have ok: "crs' \<noteq> []" "list_all cr_ok crs'" "\<not> u"
    and evs: "list_all (\<lambda>ev. ev_ok (check_event K m content ev)
        \<and> ev_payload_binding_ok (check_event K m content ev) \<noteq> None) evs"
    by (auto simp: trace_status_verified list_all_iff)
  have chain: "list_all cr_ok crs
      \<and> (gateways \<noteq> [] \<longrightarrow> list_all2 (\<lambda>cp r. is_str (dget cp ''tx_id'') \<longrightarrow> cr_on_chain_ok r = Some True) cps crs')"
    using on_chain_pass_all2 [OF p crs m ok(2,3)] .
  have ev: "event_verified K cps content ev" if "ev \<in> set evs" for ev
  proof -
    have "\<exists>eb. canonical K (dget ev ''envelope'') = Inr eb" if d: "is_dict (dget ev ''envelope'')"
    proof -
      obtain env where env: "dget ev ''envelope'' = JDict env" using d is_dict_iff by blast
      show ?thesis
        using canonical_event_envelope [OF assms(3) assms(4) [unfolded body] l(2) \<open>ev \<in> set evs\<close> env] env
        by auto
    qed
    then show ?thesis
      using check_event_verified [of ev K m cps content] m evs that by (auto simp: list_all_iff)
  qed
  then have "list_all (event_verified K cps content) evs" by (simp add: list_all_iff)
  moreover have "cps \<noteq> []"
    using ok(1) p crs by (auto simp: on_chain_pass_def split: if_splits option.splits)
  ultimately show ?thesis
    using body l chain run check_checkpoints_all_ok [OF crs]
    by (intro exI [of _ body] exI [of _ cps] exI [of _ evs]) simp
qed

text \<open>Conversely, a trace whose parts are bound is verified when no re-fetch is asked for.\<close>

lemma bound_trace_verifies:
  assumes "dget b ''body'' = JDict body"
    and "dget body ''checkpoints'' = JList (map JDict cps)"
    and "dget body ''events'' = JList (map JDict evs)"
    and "cps \<noteq> []" and "list_all (checkpoint_bound K) cps"
    and "list_all (event_verified K cps content) evs"
  shows "\<exists>r. verify_anchor_trace K fetch [] content b sv asserted errors w = Inr (r, w)
     \<and> er_status r = Verified \<and> er_errors r = errors \<and> \<not> er_on_chain_checked r
     \<and> length (er_checkpoints r) = length cps \<and> length (er_events r) = length evs
     \<and> er_export r = None"
proof -
  obtain m crs where c: "check_checkpoints K [] (map JDict cps) = Inr (m, crs)"
    and crs: "list_all2 (\<lambda>cp r. \<exists>notes. r = check_checkpoint K cp notes) cps crs"
    and m: "\<And>t. map_of m t = first_with_tx cps t" by (rule check_checkpoints_map) blast
  have p: "on_chain_pass K fetch [] m crs w = ((crs, False), w)" by (simp add: on_chain_pass_def)
  have ev: "ev_ok (check_event K m content e)
      \<and> ev_payload_binding_ok (check_event K m content e) \<noteq> None" if "e \<in> set evs" for e
  proof -
    have "event_verified K cps content e" using assms(6) that by (simp add: list_all_iff)
    moreover from this have "\<exists>eb. canonical K (dget e ''envelope'') = Inr eb"
      by (auto simp: event_verified_def event_bound_def)
    ultimately show ?thesis using check_event_verified [of e K m cps content] m by blast
  qed
  have "length crs = length cps" using list_all2_lengthD [OF crs] by simp
  moreover have "trace_status crs (map (check_event K m content) evs) False = Verified"
    using check_checkpoints_all_ok [OF crs] assms(4,5) ev calculation
    by (auto simp: trace_status_verified list_all_iff)
  ultimately show ?thesis
    using verify_anchor_trace_run [OF assms(1-3) c p, where content = content and sv = sv
      and asserted = asserted and errors = errors]
    by auto
qed

text \<open>The Merkle consequence for one event of a verified trace.\<close>

lemma event_in_tree:
  assumes "digest32 (k_sha256 K)" and "event_bound K cps ev"
  shows "\<exists>cp eb i n path root. cp \<in> set cps \<and> canonical K (dget ev ''envelope'') = Inr eb
     \<and> hex_value_to_bytes (dget cp ''merkle_root'') = Inr root
     \<and> verify_inclusion (k_sha256 K) (leaf_hash (k_sha256 K) eb) i n path root
     \<and> (\<forall>ds. root = merkle_root (k_sha256 K) (map (leaf_hash (k_sha256 K)) ds) \<longrightarrow>
          eb \<in> set ds \<or> collision (k_sha256 K) (audit_inputs (k_sha256 K) ds eb i n path))"
proof -
  obtain incl t cp eb where cp: "first_with_tx cps t = Some cp"
    and eb: "canonical K (dget ev ''envelope'') = Inr eb" and pr: "inclusion_proves K eb incl cp"
    using assms(2) by (auto simp: event_bound_def)
  obtain i n path root where v: "hex_value_to_bytes (dget cp ''merkle_root'') = Inr root"
    "verify_inclusion (k_sha256 K) (leaf_hash (k_sha256 K) eb) i n path root"
    using inclusion_proves_tree [OF pr] by blast
  have "eb \<in> set ds \<or> collision (k_sha256 K) (audit_inputs (k_sha256 K) ds eb i n path)"
    if "root = merkle_root (k_sha256 K) (map (leaf_hash (k_sha256 K)) ds)" for ds
    using digest32.verify_inclusion_member [OF assms(1)] v(2) unfolding that by blast
  moreover have "cp \<in> set cps"
    using cp unfolding first_with_tx_def find_Some_iff by (metis nth_mem)
  ultimately show ?thesis using eb v by blast
qed

section \<open>A verified trace in the toy environment\<close>

lemma vr_ok_external:
  assumes "vr_ok (verify_envelope K (JDict env) None e legacy)" and "\<not> has_key ''payload'' env"
    and "dget env ''payload_hash'' = JStr (sha256_hex K rb)"
  shows "vr_ok (verify_envelope K (JDict env) (Some rb) e legacy)"
  using assms unfolding verify_envelope_ok by auto

lemma toy_signs_external:
  "\<exists>pk s. vr_ok (verify_envelope toy
     (JDict [(''spec_version'', JStr ''ario.agent/v1''), (''payload_hash'', JStr (sha256_hex toy rb)),
             (''public_key'', JStr pk), (''signature'', JStr s)]) (Some rb) None False)"
proof -
  let ?u = "[(''spec_version'', JStr ''ario.agent/v1''), (''payload_hash'', JStr (sha256_hex toy rb))]"
  have d: "depth (JDict [(''spec_version'', JStr a), (''payload_hash'', JStr b), (''public_key'', JStr c)])
     \<le> MAX_CANONICAL_DEPTH" for a b c by (simp add: MAX_CANONICAL_DEPTH_def)
  obtain pk s where sg: "sign_envelope toy ?u toy_seed
      = Inr (?u @ [(''public_key'', JStr pk), (''signature'', JStr s)])"
    using canonical_json_shallow [OF d]
    by (simp add: sign_envelope_def has_key_def dget_def dput_def canonical_def dsetdefault_def
        envelope_for_signature_def strips_annotations_def UNSIGNED_FIELDS_def starts_with_def
        matches_major_def Let_def)
  have "spec_version_supported (dget ?u ''spec_version'')" "is_str (dget ?u ''payload_hash'')"
    by (simp_all add: dget_def ACCEPTED_SPEC_VERSIONS_def matches_major_def)
  then have "vr_ok (verify_envelope toy (JDict (?u @ [(''public_key'', JStr pk), (''signature'', JStr s)]))
      None None False)"
    using sign_envelope_verifies [OF toy_ed25519 length_toy_seed sg] by blast
  moreover have "\<not> has_key ''payload'' (?u @ [(''public_key'', JStr pk), (''signature'', JStr s)])"
    "dget (?u @ [(''public_key'', JStr pk), (''signature'', JStr s)]) ''payload_hash'' = JStr (sha256_hex toy rb)"
    by (simp_all add: has_key_def dget_def)
  ultimately have "vr_ok (verify_envelope toy (JDict (?u @ [(''public_key'', JStr pk), (''signature'', JStr s)]))
      (Some rb) None False)"
    by (rule vr_ok_external)
  then show ?thesis by auto
qed

text \<open>The event of the toy trace, and the checkpoint over the one-leaf tree of its envelope.\<close>

definition toy_event :: "items \<Rightarrow> items" where
  "toy_event env =
     [(''envelope'', JDict env), (''content'', JStr (hex_encode [5])),
      (''inclusion'', JDict
        [(''checkpoint_tx_id'', JStr ''tx''),
         (''leaf_hash'', JStr (hex_encode (leaf_hash toy_hash (toy_jcs (JDict env))))),
         (''leaf_index'', JInt 0), (''leaf_count'', JInt 1), (''audit_path'', JList [])])]"

definition toy_checkpoint :: "items \<Rightarrow> bytes \<Rightarrow> items" where
  "toy_checkpoint cenv root =
     [(''tx_id'', JStr ''tx''), (''envelope'', JDict cenv),
      (''record_bytes'', JStr (hex_encode root)), (''merkle_root'', JStr (hex_encode root))]"

lemma toy_checkpoint_fields [simp]:
  "dget (toy_checkpoint cenv root) ''tx_id'' = JStr ''tx''"
  "dget (toy_checkpoint cenv root) ''envelope'' = JDict cenv"
  "dget (toy_checkpoint cenv root) ''record_bytes'' = JStr (hex_encode root)"
  "dget (toy_checkpoint cenv root) ''merkle_root'' = JStr (hex_encode root)"
  by (simp_all add: toy_checkpoint_def dget_def)

lemma toy_event_fields [simp]:
  "dget (toy_event env) ''envelope'' = JDict env"
  "dget (toy_event env) ''record_bytes'' = JNull"
  "dget (toy_event env) ''content'' = JStr (hex_encode [5])"
  "dget (toy_event env) ''inclusion'' = JDict
        [(''checkpoint_tx_id'', JStr ''tx''),
         (''leaf_hash'', JStr (hex_encode (leaf_hash toy_hash (toy_jcs (JDict env))))),
         (''leaf_index'', JInt 0), (''leaf_count'', JInt 1), (''audit_path'', JList [])]"
  by (simp_all add: toy_event_def dget_def)

lemma toy_checkpoint_bound:
  "\<exists>cenv. checkpoint_bound toy (toy_checkpoint cenv root) \<and> depth (JDict cenv) \<le> 1"
proof -
  obtain pk s where ok: "vr_ok (verify_envelope toy
     (JDict [(''spec_version'', JStr ''ario.agent/v1''), (''payload_hash'', JStr (sha256_hex toy root)),
             (''public_key'', JStr pk), (''signature'', JStr s)]) (Some root) None False)"
    (is "vr_ok (verify_envelope toy (JDict ?cenv) _ _ _)")
    using toy_signs_external by blast
  have "checkpoint_bound toy (toy_checkpoint ?cenv root)"
    using ok by (auto simp: checkpoint_bound_def decode_record_def record_event_field_def dget_simps)
  moreover have "depth (JDict ?cenv) \<le> 1" by simp
  ultimately show ?thesis by blast
qed

lemma toy_event_bound:
  assumes "vr_ok (verify_envelope toy (JDict env) None None False)"
    and "vr_payload_hash_ok (verify_envelope toy (JDict env) None None False) \<noteq> None"
    and "depth (JDict env) \<le> 100" and "content_hashes env = [(Asset, sha256_hex toy [5])]"
  shows "event_verified toy [toy_checkpoint cenv (leaf_hash toy_hash (toy_jcs (JDict env)))] [] (toy_event env)"
proof -
  let ?eb = "toy_jcs (JDict env)"
  let ?cp = "toy_checkpoint cenv (leaf_hash toy_hash ?eb)"
  have can: "canonical toy (JDict env) = Inr ?eb"
    using assms(3) by (simp add: canonical_def canonical_json_shallow MAX_CANONICAL_DEPTH_def)
  let ?incl = "[(''checkpoint_tx_id'', JStr ''tx''), (''leaf_hash'', JStr (hex_encode (leaf_hash toy_hash ?eb))),
         (''leaf_index'', JInt 0), (''leaf_count'', JInt 1), (''audit_path'', JList [])]"
  have "inclusion_proves toy ?eb ?incl ?cp"
    by (simp add: inclusion_proves_def claimed_leaf_hex_def dget_simps decode_audit_path_def
        py_verify_inclusion_def num_le_def)
  moreover have "first_with_tx [?cp] ''tx'' = Some ?cp" by (simp add: first_with_tx_def)
  ultimately have "event_bound toy [?cp] (toy_event env)"
    using assms(1) can unfolding event_bound_def
    by (auto simp: decode_record_def dget_simps intro!: exI [of _ ?cp])
  moreover have "fst (evaluate_content toy (toy_event env) None i []) = Some True" for i
    using assms(4) by (simp add: evaluate_content_def in_body_content_def supplied_content_def committed_hashes_def
        Let_def del: hex_encode_simps)
  ultimately show ?thesis
    using assms(2) by (simp add: event_verified_def decode_record_def)
qed

text \<open>A whole wrapper-less trace that is verified.\<close>

definition toy_trace :: "items \<Rightarrow> items \<Rightarrow> items" where
  "toy_trace env cenv =
     [(''body'', JDict
        [(''checkpoints'', JList [JDict (toy_checkpoint cenv (leaf_hash toy_hash (toy_jcs (JDict env))))]),
         (''events'', JList [JDict (toy_event env)])])]"

lemma toy_content_parts:
  obtains env cenv where
    "checkpoint_bound toy (toy_checkpoint cenv (leaf_hash toy_hash (toy_jcs (JDict env))))"
    "event_verified toy [toy_checkpoint cenv (leaf_hash toy_hash (toy_jcs (JDict env)))] [] (toy_event env)"
    "depth (JDict env) \<le> 2" "depth (JDict cenv) \<le> 1"
    "content_hashes env = [(Asset, sha256_hex toy [5])]"
proof -
  let ?payload = "JDict [(''hash'', JStr (sha256_hex toy [5]))]"
  have "depth ?payload \<le> 100" by simp
  from toy_verifies [OF this] obtain ph pk s where
    ok: "vr_ok (verify_envelope toy (JDict (toy_unsigned ?payload
       @ [(''payload_hash'', JStr ph), (''public_key'', JStr pk), (''signature'', JStr s)])) None None False)"
    (is "vr_ok (verify_envelope toy (JDict ?env) _ _ _)") by blast
  have "has_key ''payload'' ?env" by (simp add: toy_unsigned_def has_key_def)
  then have "vr_payload_hash_ok (verify_envelope toy (JDict ?env) None None False) \<noteq> None"
    unfolding verify_envelope_fields check_payload_None by simp
  moreover have d: "depth (JDict ?env) \<le> 2" by (simp add: toy_unsigned_def)
  moreover have "content_hashes ?env = [(Asset, sha256_hex toy [5])]"
    by (simp add: content_hashes_def role_hash_def toy_unsigned_def dget_simps)
  moreover obtain cenv where "checkpoint_bound toy (toy_checkpoint cenv (leaf_hash toy_hash (toy_jcs (JDict ?env))))"
    "depth (JDict cenv) \<le> 1"
    using toy_checkpoint_bound by blast
  moreover have "depth (JDict ?env) \<le> 100" "depth (JDict ?env) \<le> 2" using d by linarith+
  ultimately show thesis using toy_event_bound [OF ok] that by blast
qed

lemma toy_parts:
  obtains env cenv where
    "checkpoint_bound toy (toy_checkpoint cenv (leaf_hash toy_hash (toy_jcs (JDict env))))"
    "event_verified toy [toy_checkpoint cenv (leaf_hash toy_hash (toy_jcs (JDict env)))] [] (toy_event env)"
    "depth (JDict env) \<le> 2" "depth (JDict cenv) \<le> 1"
  using toy_content_parts by blast

section \<open>Properties\<close>

text \<open>
  C10: when a checkpoint counts as good offline.  \<open>ok\<close> holds iff the record decodes, the
  envelope verifies with the record as its external payload, and the record is JSON whose
  \<open>event.merkle_root\<close> is the string the checkpoint claims.  The notes about a missing or
  duplicate transaction id play no part.
\<close>

theorem checkpoint_verdict:
  "cr_ok (check_checkpoint K cp tx_notes) \<longleftrightarrow>
     (\<exists>rb record root.
        decode_record cp = (Some rb, None)
        \<and> vr_ok (verify_envelope K (dget cp ''envelope'') (Some rb) None False)
        \<and> k_json_loads K rb = Some record
        \<and> record_event_field record ''merkle_root'' = JStr root
        \<and> dget cp ''merkle_root'' = JStr root)"
  unfolding check_checkpoint_ok checkpoint_bound_def ..

text \<open>
  C8: what a verified trace guarantees.  If the body is canonicalizable (the wrapper check has
  established it) and \<open>_verify_anchor_trace\<close> returns \<open>verified\<close>, there is at least one
  checkpoint, every checkpoint is bound, and every event has a valid envelope with a checked
  payload, resolves to a checkpoint of the bundle, and is proved included under its root by
  the hash of its own canonical envelope; with gateways, every checkpoint that has a
  transaction id was confirmed on chain.
\<close>

theorem verified_trace_sound:
  assumes "verify_anchor_trace K fetch gateways content b sv asserted errors w = Inr (r, w')"
    and "er_status r = Verified" and "jcs_closed K" and "canonical K (dget b ''body'') = Inr bb"
  shows "\<exists>body cps evs. dget b ''body'' = JDict body
     \<and> dget body ''checkpoints'' = JList (map JDict cps) \<and> dget body ''events'' = JList (map JDict evs)
     \<and> cps \<noteq> [] \<and> list_all (checkpoint_bound K) cps \<and> list_all (event_verified K cps content) evs
     \<and> (gateways \<noteq> [] \<longrightarrow>
          list_all2 (\<lambda>cp r. is_str (dget cp ''tx_id'') \<longrightarrow> cr_on_chain_ok r = Some True) cps (er_checkpoints r))"
  using assms by (rule trace_verified)

lemma toy_trace_body:
  "dget (toy_trace env cenv) ''body'' = JDict
        [(''checkpoints'', JList [JDict (toy_checkpoint cenv (leaf_hash toy_hash (toy_jcs (JDict env))))]),
         (''events'', JList [JDict (toy_event env)])]"
  by (simp add: toy_trace_def dget_simps)

lemma toy_trace_verifies:
  assumes "checkpoint_bound toy (toy_checkpoint cenv (leaf_hash toy_hash (toy_jcs (JDict env))))"
    and "event_verified toy [toy_checkpoint cenv (leaf_hash toy_hash (toy_jcs (JDict env)))] [] (toy_event env)"
  shows "\<exists>r. verify_anchor_trace toy (None :: unit fetch option) [] [] (toy_trace env cenv) True None [] ()
     = Inr (r, ()) \<and> er_status r = Verified"
  using bound_trace_verifies [OF toy_trace_body,
      where cps = "[toy_checkpoint cenv (leaf_hash toy_hash (toy_jcs (JDict env)))]"
        and evs = "[toy_event env]"] assms
  by (fastforce simp: dget_simps simp del: toy_jcs.simps)

lemma toy_trace_canonical:
  assumes "depth (JDict env) \<le> 2" and "depth (JDict cenv) \<le> 1"
  shows "\<exists>bb. canonical toy (dget (toy_trace env cenv) ''body'') = Inr bb"
proof -
  have "depth (dget (toy_trace env cenv) ''body'') \<le> 10"
    using assms unfolding toy_trace_body toy_checkpoint_def toy_event_def
    by simp
  then show ?thesis by (simp add: canonical_def canonical_json_shallow MAX_CANONICAL_DEPTH_def)
qed

theorem verified_trace_sound_witness:
  "\<exists>env cenv cps. cps \<noteq> [] \<and> list_all (checkpoint_bound toy) cps
     \<and> list_all (event_verified toy cps []) [toy_event env]
     \<and> dget (toy_trace env cenv) ''body'' \<noteq> JNull"
proof -
  obtain env cenv where p:
    "checkpoint_bound toy (toy_checkpoint cenv (leaf_hash toy_hash (toy_jcs (JDict env))))"
    "event_verified toy [toy_checkpoint cenv (leaf_hash toy_hash (toy_jcs (JDict env)))] [] (toy_event env)"
    "depth (JDict env) \<le> 2" "depth (JDict cenv) \<le> 1" by (rule toy_parts)
  obtain r where r: "verify_anchor_trace toy (None :: unit fetch option) [] [] (toy_trace env cenv) True None [] ()
     = Inr (r, ())" "er_status r = Verified"
    using toy_trace_verifies [OF p(1,2)] by blast
  obtain bb where "canonical toy (dget (toy_trace env cenv) ''body'') = Inr bb"
    using toy_trace_canonical [OF p(3,4)] by blast
  from verified_trace_sound [OF r toy_jcs_closed this] obtain body cps evs where
    t: "dget (toy_trace env cenv) ''body'' = JDict body" "dget body ''events'' = JList (map JDict evs)"
    "cps \<noteq> []" "list_all (checkpoint_bound toy) cps" "list_all (event_verified toy cps []) evs"
    by blast
  from t(1,2) have "evs = [toy_event env]"
    by (auto simp: toy_trace_body dget_simps map_eq_Cons_conv Cons_eq_map_conv simp del: toy_jcs.simps)
  with t(3-5) have "cps \<noteq> [] \<and> list_all (checkpoint_bound toy) cps
      \<and> list_all (event_verified toy cps []) [toy_event env]" by blast
  moreover have "dget (toy_trace env cenv) ''body'' \<noteq> JNull" by (simp add: toy_trace_body)
  ultimately show ?thesis by blast
qed

text \<open>
  A trace whose parts are bound is accepted.  With no gateways, at least one checkpoint,
  all checkpoints bound and all events verified against the first checkpoint with their
  transaction id, \<open>_verify_anchor_trace\<close> returns \<open>verified\<close>, adds no note and touches nothing
  outside.
\<close>

lemma bound_trace_accepted:
  assumes "dget b ''body'' = JDict body"
    and "dget body ''checkpoints'' = JList (map JDict cps)"
    and "dget body ''events'' = JList (map JDict evs)"
    and "cps \<noteq> []" and "list_all (checkpoint_bound K) cps"
    and "list_all (event_verified K cps content) evs"
  shows "\<exists>r. verify_anchor_trace K fetch [] content b sv asserted errors w = Inr (r, w)
     \<and> er_status r = Verified \<and> er_errors r = errors \<and> \<not> er_on_chain_checked r
     \<and> length (er_checkpoints r) = length cps \<and> length (er_events r) = length evs
     \<and> er_export r = None"
  using assms by (rule bound_trace_verifies)

lemma bound_trace_accepted_witness:
  "\<exists>env cenv r. verify_anchor_trace toy (None :: unit fetch option) [] [] (toy_trace env cenv) True None [] ()
     = Inr (r, ()) \<and> er_status r = Verified \<and> length (er_events r) = 1"
proof -
  obtain env cenv where p:
    "checkpoint_bound toy (toy_checkpoint cenv (leaf_hash toy_hash (toy_jcs (JDict env))))"
    "event_verified toy [toy_checkpoint cenv (leaf_hash toy_hash (toy_jcs (JDict env)))] [] (toy_event env)"
    "depth (JDict env) \<le> 2" "depth (JDict cenv) \<le> 1" by (rule toy_parts)
  have "\<exists>r. verify_anchor_trace toy (None :: unit fetch option) [] [] (toy_trace env cenv) True None [] ()
     = Inr (r, ()) \<and> er_status r = Verified \<and> er_errors r = [] \<and> \<not> er_on_chain_checked r
     \<and> length (er_checkpoints r) = length [toy_checkpoint cenv (leaf_hash toy_hash (toy_jcs (JDict env)))]
     \<and> length (er_events r) = length [toy_event env] \<and> er_export r = None"
    using p(1,2) by (intro bound_trace_accepted [OF toy_trace_body]) (simp_all add: dget_simps)
  then show ?thesis by auto
qed

text \<open>
  C9: an event of a verified trace is a leaf of the checkpoint's tree.  For every event there is a
  checkpoint of the bundle and a proof under its root for the hash of the event's canonical
  envelope; whenever that root is the root of a tree over the leaves \<open>ds\<close>, the canonical
  envelope is one of them, unless two of the strings hashed collide.
\<close>

theorem verified_event_is_leaf:
  assumes "verify_anchor_trace K fetch gateways content b sv asserted errors w = Inr (r, w')"
    and "er_status r = Verified" and "jcs_closed K" and "canonical K (dget b ''body'') = Inr bb"
    and "digest32 (k_sha256 K)"
  shows "\<exists>body cps evs. dget b ''body'' = JDict body \<and> dget body ''events'' = JList (map JDict evs)
     \<and> dget body ''checkpoints'' = JList (map JDict cps)
     \<and> (\<forall>ev \<in> set evs. \<exists>cp eb i n path root. cp \<in> set cps \<and> canonical K (dget ev ''envelope'') = Inr eb
          \<and> hex_value_to_bytes (dget cp ''merkle_root'') = Inr root
          \<and> verify_inclusion (k_sha256 K) (leaf_hash (k_sha256 K) eb) i n path root
          \<and> (\<forall>ds. root = merkle_root (k_sha256 K) (map (leaf_hash (k_sha256 K)) ds) \<longrightarrow>
               eb \<in> set ds \<or> collision (k_sha256 K) (audit_inputs (k_sha256 K) ds eb i n path)))"
proof -
  obtain body cps evs where t: "dget b ''body'' = JDict body"
    "dget body ''checkpoints'' = JList (map JDict cps)" "dget body ''events'' = JList (map JDict evs)"
    "list_all (event_verified K cps content) evs"
    using trace_verified [OF assms(1-4)] by blast
  have "event_bound K cps ev" if "ev \<in> set evs" for ev
    using t(4) that by (simp add: list_all_iff event_verified_def)
  then show ?thesis using t(1-3) event_in_tree [OF assms(5), of cps] by blast
qed

theorem verified_event_is_leaf_witness:
  "\<exists>env cenv evs. dget (toy_trace env cenv) ''body'' \<noteq> JNull
     \<and> (\<forall>ev \<in> set evs. \<exists>eb i n path root.
          canonical toy (dget ev ''envelope'') = Inr eb
          \<and> verify_inclusion toy_hash (leaf_hash toy_hash eb) i n path root)
     \<and> evs = [toy_event env]"
proof -
  obtain env cenv where p:
    "checkpoint_bound toy (toy_checkpoint cenv (leaf_hash toy_hash (toy_jcs (JDict env))))"
    "event_verified toy [toy_checkpoint cenv (leaf_hash toy_hash (toy_jcs (JDict env)))] [] (toy_event env)"
    "depth (JDict env) \<le> 2" "depth (JDict cenv) \<le> 1" by (rule toy_parts)
  obtain r where r: "verify_anchor_trace toy (None :: unit fetch option) [] [] (toy_trace env cenv) True None [] ()
     = Inr (r, ())" "er_status r = Verified"
    using toy_trace_verifies [OF p(1,2)] by blast
  obtain bb where "canonical toy (dget (toy_trace env cenv) ''body'') = Inr bb"
    using toy_trace_canonical [OF p(3,4)] by blast
  moreover have "digest32 (k_sha256 toy)" using toy_hash.digest32_axioms by simp
  ultimately obtain evs where
    "dget (toy_trace env cenv) ''body'' \<noteq> JNull" "map JDict evs = [JDict (toy_event env)]"
    "\<forall>ev \<in> set evs. \<exists>eb i n path root. canonical toy (dget ev ''envelope'') = Inr eb
          \<and> verify_inclusion toy_hash (leaf_hash toy_hash eb) i n path root"
    using verified_event_is_leaf [OF r toy_jcs_closed] by (fastforce simp: toy_trace_body dget_simps)
  moreover from this(2) have "evs = [toy_event env]" by (auto simp: map_eq_Cons_conv)
  ultimately show ?thesis by blast
qed

text \<open>
  the only way a trace raises.  \<open>_verify_anchor_trace\<close> raises iff the body is no dict, or
  both lists are there and one of their elements is no dict; the exception is then
  \<open>AttributeError\<close>.  On every other input, however broken, it returns a result.
\<close>

lemma trace_raises_iff:
  "verify_anchor_trace K fetch gateways content b sv asserted errors w = Inl e \<longleftrightarrow>
     e = AttributeError
     \<and> (case dget b ''body'' of
          JDict body \<Rightarrow>
            (\<exists>cps evs. dget body ''checkpoints'' = JList cps \<and> dget body ''events'' = JList evs
               \<and> \<not> (list_all is_dict cps \<and> list_all is_dict evs))
        | _ \<Rightarrow> True)"
  by (rule verify_anchor_trace_raises_iff)

lemma verify_anchor_trace_result:
  assumes "verify_anchor_trace K fetch gateways content b sv asserted errors w = Inr (r, w')"
  shows "r = malformed ''ario.anchor.trace/v1 body must have checkpoints[] and events[]'' True
     \<or> (\<exists>unavailable. er_status r = trace_status (er_checkpoints r) (er_events r) unavailable
          \<and> er_body_hash_ok r \<and> er_signature_ok r
          \<and> (unavailable \<longrightarrow> gateways \<noteq> []))
       \<and> er_body_type r = Some ANCHOR_TRACE_BODY_TYPE"
proof -
  obtain body where body: "dget b ''body'' = JDict body"
    using assms by (auto simp: verify_anchor_trace_def split: json.splits)
  show ?thesis
  proof (cases "\<exists>cps evs. dget body ''checkpoints'' = JList cps \<and> dget body ''events'' = JList evs")
    case True
    then obtain cps evs where l: "dget body ''checkpoints'' = JList cps" "dget body ''events'' = JList evs"
      by blast
    show ?thesis
      using assms body l unfolding verify_anchor_trace_def
      by (cases "gateways = []"; cases fetch) (auto simp: result_simps case_prod_beta Let_def)
  next
    case False
    then have "r = malformed ''ario.anchor.trace/v1 body must have checkpoints[] and events[]'' True"
      using assms body unfolding verify_anchor_trace_def by (auto split: json.splits)
    then show ?thesis by blast
  qed
qed

text \<open>
  fail closed.  A trace that is not malformed gets exit code 1 iff some checkpoint or some
  event of the result is not ok: no gateway outage, withheld record or missing list softens a
  failure, and nothing else causes one.
\<close>

lemma trace_fail_closed:
  assumes "verify_anchor_trace K fetch gateways content b sv asserted errors w = Inr (r, w')"
    and "er_status r \<noteq> Malformed"
  shows "exit_code r = 1 \<longleftrightarrow> \<not> (list_all cr_ok (er_checkpoints r) \<and> list_all ev_ok (er_events r))"
proof -
  obtain unavailable where "er_status r = trace_status (er_checkpoints r) (er_events r) unavailable"
    using verify_anchor_trace_result [OF assms(1)] assms(2) by auto
  then show ?thesis
    using trace_status_failed [of "er_checkpoints r" "er_events r" unavailable]
    by (auto simp: exit_code_def)
qed

lemma trace_fail_closed_example:
  "\<exists>env cenv r. verify_anchor_trace toy (None :: unit fetch option) [] [] (toy_trace env cenv) True None [] ()
     = Inr (r, ()) \<and> exit_code r \<noteq> 1 \<and> list_all ev_ok (er_events r)"
proof -
  obtain env cenv where p:
    "checkpoint_bound toy (toy_checkpoint cenv (leaf_hash toy_hash (toy_jcs (JDict env))))"
    "event_verified toy [toy_checkpoint cenv (leaf_hash toy_hash (toy_jcs (JDict env)))] [] (toy_event env)"
    "depth (JDict env) \<le> 2" "depth (JDict cenv) \<le> 1" by (rule toy_parts)
  obtain r where r: "verify_anchor_trace toy (None :: unit fetch option) [] [] (toy_trace env cenv) True None [] ()
     = Inr (r, ())" "er_status r = Verified"
    using toy_trace_verifies [OF p(1,2)] by blast
  then have "exit_code r \<noteq> 1" by (simp add: exit_code_def)
  with trace_fail_closed [OF r(1)] r show ?thesis by auto
qed

text \<open>The disclosed bytes: in-body content first, then the side input, when they do not disagree.\<close>

definition disclosed :: "items \<Rightarrow> side_input \<Rightarrow> string \<Rightarrow> bytes option" where
  "disclosed ev content event_id =
     (case fst (in_body_content ev) of
        Some d \<Rightarrow> Some d
      | None \<Rightarrow> fst (supplied_content content event_id))"



end
