(* ===== verification/Attestation.thy ===== *)
theory Attestation
  imports Anchor_Trace
begin

text \<open>
  The operator attestations of an export (\<open>_verify_attestation\<close>, \<open>_evaluate_subject_ref\<close> and
  their helpers in \<open>evidence.py\<close>).  The result of one record is a pair of the result object
  as far as it was filled in and the message of the malformed bucket, if any; an exception
  that no handler catches is an \<open>Inl\<close>.
\<close>

section \<open>subject_ref\<close>

definition is_sha256_hex :: "string \<Rightarrow> bool" where
  "is_sha256_hex s \<longleftrightarrow> length s = 64 \<and> list_all (\<lambda>c. c \<in> set ''0123456789abcdef'') s"

definition is_subject_type_token :: "string \<Rightarrow> bool" where
  "is_subject_type_token s \<longleftrightarrow>
     0 < length s \<and> list_all (\<lambda>c. c \<in> set ''0123456789abcdefghijklmnopqrstuvwxyz.:-'') s"

definition evaluate_subject_ref :: "json \<Rightarrow> bool option \<times> attestation_note list" where
  "evaluate_subject_ref subject_ref =
     (case subject_ref of
        JNull \<Rightarrow> (None, [])
      | JDict d \<Rightarrow>
          (let hash_ok = (case dget d ''hash'' of JStr h \<Rightarrow> is_sha256_hex h | _ \<Rightarrow> False);
               type_ok = (case dget d ''type'' of JStr t \<Rightarrow> is_subject_type_token t | _ \<Rightarrow> False)
           in if \<not> hash_ok \<or> \<not> type_ok then (None, [SubjectRefMalformed]) else (None, []))
      | _ \<Rightarrow> (None, [SubjectRefNotObject]))"

section \<open>_verify_attestation\<close>

text \<open>The source checkpoints by transaction id; here a later checkpoint replaces an earlier one.\<close>

fun source_checkpoints_loop :: "checkpoint_map \<Rightarrow> json list \<Rightarrow> checkpoint_map" where
  "source_checkpoints_loop m [] = m"
| "source_checkpoints_loop m (JDict cp # cps) =
     source_checkpoints_loop
       (case dget cp ''tx_id'' of JStr t \<Rightarrow> AList.update t cp m | _ \<Rightarrow> m) cps"
| "source_checkpoints_loop m (_ # cps) = source_checkpoints_loop m cps"

definition source_checkpoints :: "json \<Rightarrow> checkpoint_map" where
  "source_checkpoints inline =
     (case inline of
        JDict d \<Rightarrow>
          (case dget d ''body'' of
             JDict sb \<Rightarrow>
               (case dget sb ''checkpoints'' of
                  JList cps \<Rightarrow> source_checkpoints_loop [] cps
                | _ \<Rightarrow> [])
           | _ \<Rightarrow> [])
      | _ \<Rightarrow> [])"

definition str_or :: "string \<Rightarrow> json \<Rightarrow> string" where
  "str_or z v = (case v of JStr s \<Rightarrow> s | _ \<Rightarrow> z)"

definition initial_attestation :: "json \<Rightarrow> attestation_result" where
  "initial_attestation rec =
     \<lparr> at_checkpoint_tx_id = (case rec of JDict d \<Rightarrow> str_or [] (dget d ''checkpoint_tx_id'') | _ \<Rightarrow> []),
       at_operator = [], at_gateway = None, at_signature_ok = False,
       at_operator_address_bound = False, at_data_hash_bound = False,
       at_checkpoint_resolved = False, at_level = None, at_subject_ref_ok = None,
       at_ok = False, at_errors = [] \<rparr>"

text \<open>Step (c): the checkpoint and the hash of its canonical envelope.\<close>

definition check_data_hash ::
  "kernel \<Rightarrow> checkpoint_map \<Rightarrow> string \<Rightarrow> items \<Rightarrow> (bool \<times> bool) \<times> attestation_note list" where
  "check_data_hash K sources tx_id payload =
     (case map_of sources tx_id of
        None \<Rightarrow> ((False, False), [AttUnresolvedCheckpoint tx_id])
      | Some cp \<Rightarrow>
          (case canonical_hash K (dget cp ''envelope'') of
             Inl exc \<Rightarrow> ((True, False), [AttContentHashError exc])
           | Inr committed \<Rightarrow>
               (let data_hash = lower (str_or [] (dget payload ''data_hash''));
                    bound = (data_hash \<noteq> [] \<and> data_hash = committed)
                in ((True, bound), if bound then [] else [AttDataHashUnbound data_hash committed]))))"

text \<open>Steps (c) and (d) and the verdict, from the result filled in by (a) and (b).\<close>

definition finish_attestation ::
  "kernel \<Rightarrow> checkpoint_map \<Rightarrow> items \<Rightarrow> attestation_result \<Rightarrow> attestation_result" where
  "finish_attestation K sources payload r =
     (let ((resolved, bound), notes1) = check_data_hash K sources (at_checkpoint_tx_id r) payload;
          (subject_ref_ok, notes2) = evaluate_subject_ref (dget payload ''subject_ref'')
      in r \<lparr> at_checkpoint_resolved := resolved,
             at_data_hash_bound := bound,
             at_subject_ref_ok := subject_ref_ok,
             at_ok := at_signature_ok r \<and> at_operator_address_bound r \<and> bound \<and> resolved,
             at_errors := at_errors r @ notes1 @ notes2 \<rparr>)"

text \<open>The handler \<open>except MalformedRsaError\<close>: its class becomes a message, the rest escapes.\<close>

definition catch_malformed ::
  "kernel \<Rightarrow> exc + 'a \<Rightarrow> string \<Rightarrow> attestation_result
     \<Rightarrow> ('a \<Rightarrow> exc + (attestation_result \<times> string option)) \<Rightarrow> exc + (attestation_result \<times> string option)" where
  "catch_malformed K m label r f =
     (case m of
        Inr x \<Rightarrow> f x
      | Inl exc \<Rightarrow>
          if is_malformed_rsa exc then Inr (r, Some (label @ exc_text K exc)) else Inl exc)"

text \<open>Steps (a) and (b): the signature, and the address of the key.\<close>

definition check_attestation_crypto ::
  "kernel \<Rightarrow> checkpoint_map \<Rightarrow> items \<Rightarrow> items \<Rightarrow> json \<Rightarrow> attestation_result
     \<Rightarrow> exc + (attestation_result \<times> string option)" where
  "check_attestation_crypto K sources record_items payload pub r =
     (case canonical K (JDict payload) of
        Inl exc \<Rightarrow>
          Inr (r, Some (''attestation payload canonicalization failed: '' @ exc_text K exc))
      | Inr payload_bytes \<Rightarrow>
          catch_malformed K
            (verify_rsa_pss_sha256 K payload_bytes (dget record_items ''signature'') pub)
            ''attestation '' r
            (\<lambda>signature_ok.
               let r = r \<lparr> at_signature_ok := signature_ok,
                           at_errors := at_errors r
                             @ (if signature_ok then [] else [AttSignatureFailed]) \<rparr>
               in catch_malformed K
                    (ebind (py_get pub ''n'') (derive_operator_address K))
                    ''attestation operator key: '' r
                    (\<lambda>derived.
                       let bound = (at_operator r \<noteq> [] \<and> derived = at_operator r);
                           r = r \<lparr> at_operator_address_bound := bound,
                                   at_errors := at_errors r
                                     @ (if bound then [] else [AttAddressUnbound derived (at_operator r)]) \<rparr>
                       in Inr (finish_attestation K sources payload r, None))))"

definition verify_attestation ::
  "kernel \<Rightarrow> json \<Rightarrow> checkpoint_map \<Rightarrow> exc + (attestation_result \<times> string option)" where
  "verify_attestation K rec sources =
     (let result = initial_attestation rec
      in case rec of
           JDict d \<Rightarrow>
             (case dget d ''payload'' of
                JDict payload \<Rightarrow>
                  (if dget d ''signature_alg'' \<noteq> JStr ''rsa-pss-sha256''
                   then Inr (result, Some (''unsupported attestation signature_alg: ''
                                           @ k_repr K (dget d ''signature_alg'')))
                   else if \<not> is_rsa_jwk (dget d ''public_key'')
                   then Inr (result, Some ''attestation record missing/invalid RSA public_key JWK'')
                   else if \<not> is_str (dget d ''signature'')
                   then Inr (result, Some ''attestation record missing signature'')
                   else check_attestation_crypto K sources d payload (dget d ''public_key'')
                     (result \<lparr> at_operator := str_or [] (dget payload ''operator''),
                               at_gateway := (case dget payload ''gateway'' of JStr g \<Rightarrow> Some g | _ \<Rightarrow> None),
                               at_level := (case dget payload ''level'' of JInt i \<Rightarrow> Some i | _ \<Rightarrow> None) \<rparr>))
              | _ \<Rightarrow> Inr (result, Some ''attestation record missing payload''))
         | _ \<Rightarrow> Inr (result, Some ''attestation record is not a JSON object''))"

text \<open>The loop over \<open>body["attestations"]\<close>: the first malformed record ends it.\<close>

fun verify_attestations ::
  "kernel \<Rightarrow> json list \<Rightarrow> checkpoint_map \<Rightarrow> exc + (string + attestation_result list)" where
  "verify_attestations K [] sources = Inr (Inr [])"
| "verify_attestations K (rec # recs) sources =
     ebind (verify_attestation K rec sources)
       (\<lambda>(result, malformed_msg).
          case malformed_msg of
            Some msg \<Rightarrow> Inr (Inl msg)
          | None \<Rightarrow>
              ebind (verify_attestations K recs sources)
                (\<lambda>rest. Inr (map_sum id (\<lambda>rs. result # rs) rest)))"

section \<open>Lemmas\<close>

text \<open>What the shape tests of a record let through.\<close>

definition attestation_shape :: "json \<Rightarrow> items \<Rightarrow> items \<Rightarrow> items \<Rightarrow> bool" where
  "attestation_shape rec d payload pub \<longleftrightarrow>
     rec = JDict d \<and> dget d ''payload'' = JDict payload
     \<and> dget d ''signature_alg'' = JStr ''rsa-pss-sha256''
     \<and> dget d ''public_key'' = JDict pub \<and> is_rsa_jwk (JDict pub)
     \<and> is_str (dget d ''signature'')"

text \<open>\<open>data_hash\<close> is the hash of the canonical envelope of the checkpoint referred to.\<close>

definition data_hash_bound :: "kernel \<Rightarrow> checkpoint_map \<Rightarrow> items \<Rightarrow> items \<Rightarrow> bool" where
  "data_hash_bound K sources d payload \<longleftrightarrow>
     (\<exists>cp. map_of sources (str_or [] (dget d ''checkpoint_tx_id'')) = Some cp
        \<and> canonical_hash K (dget cp ''envelope'') = Inr (lower (str_or [] (dget payload ''data_hash'')))
        \<and> lower (str_or [] (dget payload ''data_hash'')) \<noteq> [])"

text \<open>The checks of one record, in terms of the record.\<close>

definition attestation_valid :: "kernel \<Rightarrow> checkpoint_map \<Rightarrow> json \<Rightarrow> bool" where
  "attestation_valid K sources rec \<longleftrightarrow>
     (\<exists>d payload pub payload_bytes.
        attestation_shape rec d payload pub
        \<and> canonical K (JDict payload) = Inr payload_bytes
        \<and> verify_rsa_pss_sha256 K payload_bytes (dget d ''signature'') (JDict pub) = Inr True
        \<and> str_or [] (dget payload ''operator'') \<noteq> []
        \<and> derive_operator_address K (dget pub ''n'') = Inr (str_or [] (dget payload ''operator''))
        \<and> data_hash_bound K sources d payload)"

lemma finish_attestation_fields:
  "at_signature_ok (finish_attestation K sources payload r) = at_signature_ok r"
  "at_operator_address_bound (finish_attestation K sources payload r) = at_operator_address_bound r"
  "at_checkpoint_tx_id (finish_attestation K sources payload r) = at_checkpoint_tx_id r"
  "at_operator (finish_attestation K sources payload r) = at_operator r"
  "at_ok (finish_attestation K sources payload r) \<longleftrightarrow>
     at_signature_ok r \<and> at_operator_address_bound r
     \<and> fst (check_data_hash K sources (at_checkpoint_tx_id r) payload) = (True, True)"
  by (auto simp: finish_attestation_def case_prod_beta Let_def prod_eq_iff)

lemma check_data_hash_bound:
  "fst (check_data_hash K sources (str_or [] (dget d ''checkpoint_tx_id'')) payload) = (True, True)
     \<longleftrightarrow> data_hash_bound K sources d payload"
  by (auto simp: check_data_hash_def data_hash_bound_def Let_def split: option.splits sum.splits)

lemma catch_malformed_Inl:
  "catch_malformed K m label r f = Inl e \<longleftrightarrow>
     m = Inl e \<and> \<not> is_malformed_rsa e \<or> (\<exists>x. m = Inr x \<and> f x = Inl e)"
  by (cases m) (auto simp: catch_malformed_def)

lemma catch_malformed_None:
  "catch_malformed K m label r f = Inr (r', None) \<longleftrightarrow> (\<exists>x. m = Inr x \<and> f x = Inr (r', None))"
  by (cases m) (auto simp: catch_malformed_def)

definition filled_attestation :: "items \<Rightarrow> items \<Rightarrow> attestation_result" where
  "filled_attestation d payload =
     (initial_attestation (JDict d)) \<lparr> at_operator := str_or [] (dget payload ''operator''),
        at_gateway := (case dget payload ''gateway'' of JStr g \<Rightarrow> Some g | _ \<Rightarrow> None),
        at_level := (case dget payload ''level'' of JInt i \<Rightarrow> Some i | _ \<Rightarrow> None) \<rparr>"

lemma filled_attestation_fields [simp]:
  "at_operator (filled_attestation d payload) = str_or [] (dget payload ''operator'')"
  "at_checkpoint_tx_id (filled_attestation d payload) = str_or [] (dget d ''checkpoint_tx_id'')"
  by (simp_all add: filled_attestation_def initial_attestation_def)

lemma is_rsa_jwk_dict: "is_rsa_jwk v \<Longrightarrow> \<exists>pub. v = JDict pub"
  by (auto simp: is_rsa_jwk_def split: json.splits)

lemma verify_attestation_cases:
  obtains msg r where "verify_attestation K rec sources = Inr (r, Some msg)"
    "\<And>d payload pub. \<not> attestation_shape rec d payload pub"
  | d payload pub where "attestation_shape rec d payload pub"
    "verify_attestation K rec sources =
       check_attestation_crypto K sources d payload (JDict pub) (filled_attestation d payload)"
proof (cases "\<exists>d payload pub. attestation_shape rec d payload pub")
  case True
  then obtain d payload pub where sh: "attestation_shape rec d payload pub" by blast
  then have "verify_attestation K rec sources =
       check_attestation_crypto K sources d payload (JDict pub) (filled_attestation d payload)"
    by (auto simp: attestation_shape_def verify_attestation_def filled_attestation_def Let_def)
  with sh that(2) show thesis by blast
next
  case False
  have "\<exists>r msg. verify_attestation K rec sources = Inr (r, Some msg)"
  proof (cases "\<exists>d payload. rec = JDict d \<and> dget d ''payload'' = JDict payload")
    case True
    then obtain d payload where d: "rec = JDict d" "dget d ''payload'' = JDict payload" by blast
    then have "dget d ''signature_alg'' \<noteq> JStr ''rsa-pss-sha256'' \<or> \<not> is_rsa_jwk (dget d ''public_key'')
        \<or> \<not> is_str (dget d ''signature'')"
      using False is_rsa_jwk_dict [of "dget d ''public_key''"] unfolding attestation_shape_def by metis
    then show ?thesis unfolding verify_attestation_def Let_def d json.case by (auto simp del: not_Some_eq)
  next
    case False
    then show ?thesis unfolding verify_attestation_def Let_def by (auto split: json.splits)
  qed
  with False that(1) show thesis by blast
qed

lemma attestation_shape_unique:
  "attestation_shape rec d payload pub \<Longrightarrow> attestation_shape rec d' payload' pub' \<Longrightarrow>
   d' = d \<and> payload' = payload \<and> pub' = pub"
  by (auto simp: attestation_shape_def)

lemma attestation_valid_shape:
  assumes "attestation_shape rec d payload pub"
  shows "attestation_valid K sources rec \<longleftrightarrow>
     (\<exists>payload_bytes. canonical K (JDict payload) = Inr payload_bytes
        \<and> verify_rsa_pss_sha256 K payload_bytes (dget d ''signature'') (JDict pub) = Inr True)
     \<and> str_or [] (dget payload ''operator'') \<noteq> []
     \<and> derive_operator_address K (dget pub ''n'') = Inr (str_or [] (dget payload ''operator''))
     \<and> data_hash_bound K sources d payload"
  unfolding attestation_valid_def using assms attestation_shape_unique [OF assms] by blast

text \<open>A record whose verification returns no message is valid iff the result is \<open>ok\<close>.\<close>

lemma check_attestation_crypto_ok:
  assumes "attestation_shape rec d payload pub"
    and "check_attestation_crypto K sources d payload (JDict pub) (filled_attestation d payload) = Inr (r, None)"
  shows "at_ok r \<longleftrightarrow> attestation_valid K sources rec"
proof -
  obtain pb ok derived where pb: "canonical K (JDict payload) = Inr pb"
    and sig: "verify_rsa_pss_sha256 K pb (dget d ''signature'') (JDict pub) = Inr ok"
    and addr: "derive_operator_address K (dget pub ''n'') = Inr derived"
    using assms(2)
    by (auto simp: check_attestation_crypto_def catch_malformed_None Let_def split: sum.splits)
  let ?op = "str_or [] (dget payload ''operator'')"
  have "at_ok r \<longleftrightarrow> ok \<and> ?op \<noteq> [] \<and> derived = ?op
      \<and> fst (check_data_hash K sources (str_or [] (dget d ''checkpoint_tx_id'')) payload) = (True, True)"
    using assms(2) pb sig addr
    by (auto simp: check_attestation_crypto_def catch_malformed_None Let_def finish_attestation_fields)
  moreover have "attestation_valid K sources rec \<longleftrightarrow> ok \<and> ?op \<noteq> [] \<and> derived = ?op
      \<and> data_hash_bound K sources d payload"
    unfolding attestation_valid_shape [OF assms(1)] pb addr using sig by auto
  ultimately show ?thesis by (simp add: check_data_hash_bound)
qed

lemma verify_attestation_ok:
  assumes "verify_attestation K rec sources = Inr (r, None)"
  shows "at_ok r \<longleftrightarrow> attestation_valid K sources rec"
proof (rule verify_attestation_cases [of K rec sources])
  fix d payload pub
  assume sh: "attestation_shape rec d payload pub"
    and v: "verify_attestation K rec sources =
       check_attestation_crypto K sources d payload (JDict pub) (filled_attestation d payload)"
  from check_attestation_crypto_ok [OF sh] v assms show ?thesis by simp
qed (use assms in simp)

text \<open>The exceptions that escape.\<close>

definition odd_hex_newline :: "json \<Rightarrow> bool" where
  "odd_hex_newline v \<longleftrightarrow>
     (\<exists>t. v = JStr (t @ [CHR 0x0A]) \<and> list_all (\<lambda>c. hex_val c \<noteq> None) t \<and> odd (length t))"

definition b64url_newline :: "json \<Rightarrow> bool" where
  "b64url_newline v \<longleftrightarrow>
     (\<exists>t. v = JStr (t @ [CHR 0x0A]) \<and> list_all is_b64url t \<and> length t mod 4 \<noteq> 0)"

lemma strict_hex_newline:
  "strict_hex_to_bytes v = Inl e \<and> \<not> is_malformed_rsa e \<longleftrightarrow> e = ValueError \<and> odd_hex_newline v"
  unfolding strict_hex_unclassified odd_hex_newline_def ..

lemma verify_rsa_raises_iff:
  "verify_rsa_pss_sha256 K m sig pk = Inl e \<and> \<not> is_malformed_rsa e \<longleftrightarrow> e = ValueError \<and> odd_hex_newline sig"
  unfolding verify_rsa_unclassified odd_hex_newline_def ..

lemma derive_address_raises_iff:
  "is_str n \<Longrightarrow> derive_operator_address K n = Inl e \<and> \<not> is_malformed_rsa e \<longleftrightarrow>
     e = BinasciiError \<and> b64url_newline n"
  using base64url_unclassified
  by (auto simp: derive_operator_address_def ebind_Inl_iff is_str_iff b64url_newline_def
      simp del: base64url_to_bytes.simps)

text \<open>The record raises on exactly two kinds of text ending in a newline.\<close>

lemma verify_attestation_raises_iff:
  "verify_attestation K rec sources = Inl e \<longleftrightarrow>
     (\<exists>d payload pub payload_bytes.
        attestation_shape rec d payload pub \<and> canonical K (JDict payload) = Inr payload_bytes
        \<and> (e = ValueError \<and> odd_hex_newline (dget d ''signature'')
           \<or> e = BinasciiError \<and> b64url_newline (dget pub ''n'')
             \<and> (\<exists>ok. verify_rsa_pss_sha256 K payload_bytes (dget d ''signature'') (JDict pub) = Inr ok)))"
proof (rule verify_attestation_cases [of K rec sources])
  fix d payload pub
  assume sh: "attestation_shape rec d payload pub"
    and v: "verify_attestation K rec sources =
       check_attestation_crypto K sources d payload (JDict pub) (filled_attestation d payload)"
  have n: "is_str (dget pub ''n'')" using sh by (simp add: attestation_shape_def is_rsa_jwk_def)
  have "check_attestation_crypto K sources d payload (JDict pub) r = Inl e \<longleftrightarrow>
     (\<exists>pb. canonical K (JDict payload) = Inr pb
        \<and> (verify_rsa_pss_sha256 K pb (dget d ''signature'') (JDict pub) = Inl e \<and> \<not> is_malformed_rsa e
           \<or> (\<exists>ok. verify_rsa_pss_sha256 K pb (dget d ''signature'') (JDict pub) = Inr ok)
              \<and> derive_operator_address K (dget pub ''n'') = Inl e \<and> \<not> is_malformed_rsa e))" for r
    by (cases "canonical K (JDict payload)")
      (auto simp: check_attestation_crypto_def catch_malformed_Inl Let_def)
  then show ?thesis
    unfolding v verify_rsa_raises_iff derive_address_raises_iff [OF n]
    using sh attestation_shape_unique [OF sh] by blast
qed auto

lemma verify_attestations_Inr:
  "verify_attestations K recs sources = Inr (Inr rs) \<longleftrightarrow>
     list_all2 (\<lambda>rec r. verify_attestation K rec sources = Inr (r, None)) recs rs"
proof (induction recs arbitrary: rs)
  case (Cons rec recs)
  show ?case
  proof (cases "verify_attestation K rec sources")
    case (Inr x)
    then show ?thesis
      using Cons.IH by (cases x; cases "snd x"; cases rs)
        (auto simp: ebind_Inr_iff map_sum_Inr_iff)
  qed (cases rs; simp)
qed auto

lemma verify_attestations_all_ok:
  "verify_attestations K recs sources = Inr (Inr rs) \<Longrightarrow>
   list_all at_ok rs \<longleftrightarrow> list_all (attestation_valid K sources) recs"
proof -
  assume "verify_attestations K recs sources = Inr (Inr rs)"
  then have "list_all2 (\<lambda>rec r. verify_attestation K rec sources = Inr (r, None)) recs rs"
    by (simp add: verify_attestations_Inr)
  then show ?thesis by (induction rule: list_all2_induct) (auto simp: verify_attestation_ok)
qed

lemma verify_attestations_raises:
  "verify_attestations K recs sources = Inl e \<Longrightarrow>
   \<exists>rec \<in> set recs. verify_attestation K rec sources = Inl e"
  by (induction recs) (auto simp: ebind_Inl_iff split: option.splits)

lemma first_with_tx_append:
  "first_with_tx (xs @ ys) t = (case first_with_tx xs t of Some c \<Rightarrow> Some c | None \<Rightarrow> first_with_tx ys t)"
  by (induction xs) (auto simp: first_with_tx_def)

text \<open>The map of source checkpoints: the last checkpoint with the transaction id.\<close>

lemma source_checkpoints_loop_dicts:
  "map_of (source_checkpoints_loop m (map JDict cps)) t =
     (case first_with_tx (rev cps) t of Some cp \<Rightarrow> Some cp | None \<Rightarrow> map_of m t)"
proof (induction cps arbitrary: m)
  case (Cons cp cps)
  have "first_with_tx [cp] t = (if dget cp ''tx_id'' = JStr t then Some cp else None)"
    by (simp add: first_with_tx_def)
  then show ?case
    using Cons.IH by (auto simp: AList.update_conv' first_with_tx_append split: option.splits json.splits)
qed (simp add: first_with_tx_def)

section \<open>Properties\<close>

text \<open>
  C12: what a valid operator attestation is.  When a record is checked to the end, its \<open>ok\<close>
  holds iff it has the right algorithm and an RSA JWK, its signature verifies over the
  canonical payload, the payload names the address derived from the modulus, and its
  \<open>data_hash\<close> is, ignoring case, the hash of the canonical envelope of the checkpoint its
  transaction id names; \<open>subject_ref\<close>, gateway and level never matter.
\<close>

theorem attestation_verdict:
  assumes "verify_attestation K rec sources = Inr (r, None)"
  shows "at_ok r \<longleftrightarrow> attestation_valid K sources rec"
  using assms by (rule verify_attestation_ok)

definition toy_att_payload :: "json \<Rightarrow> items" where
  "toy_att_payload env =
     [(''operator'', JStr (bytes_to_base64url (toy_hash [1]))),
      (''data_hash'', JStr (hex_encode (toy_hash (toy_jcs env)))),
      (''subject_ref'', JDict [(''type'', JStr ''asset''), (''hash'', JStr ''00'')])]"

definition toy_attestation :: "json \<Rightarrow> items" where
  "toy_attestation env =
     [(''checkpoint_tx_id'', JStr ''tx''), (''payload'', JDict (toy_att_payload env)),
      (''signature_alg'', JStr ''rsa-pss-sha256''),
      (''signature'', JStr (hex_encode (toy_jcs (JDict (toy_att_payload env))))),
      (''public_key'', JDict [(''kty'', JStr ''RSA''), (''n'', JStr ''AQ''), (''e'', JStr ''AQAB'')])]"

lemma strict_hex_encode: "strict_hex_to_bytes (JStr (hex_encode bs)) = Inr bs"
proof -
  have "list_all (\<lambda>c. hex_val c \<noteq> None) (hex_encode bs)" by (induction bs) auto
  then show ?thesis by (simp add: re_star_match_all fromhex_hex_encode)
qed

lemma toy_attestation_verifies:
  assumes "map_of sources ''tx'' = Some cp" and "dget cp ''envelope'' = JDict env" and "depth (JDict env) \<le> 100"
  shows "\<exists>r. verify_attestation toy (JDict (toy_attestation (JDict env))) sources = Inr (r, None) \<and> at_ok r"
proof -
  have n: "base64url_to_bytes (JStr ''AQ'') = Inr [1]" and e: "base64url_to_bytes (JStr ''AQAB'') = Inr [1, 0, 1]"
    by code_simp+
  have big: "from_bytes_big [1] = 1" "from_bytes_big [1, 0, 1] = 65537"
    by (simp_all add: from_bytes_big_def)
  let ?pub = "[(''kty'', JStr ''RSA''), (''n'', JStr ''AQ''), (''e'', JStr ''AQAB'')]"
  let ?pl = "toy_att_payload (JDict env)"
  have pb: "canonical toy (JDict ?pl) = Inr (toy_jcs (JDict ?pl))"
    by (simp add: canonical_def canonical_json_shallow MAX_CANONICAL_DEPTH_def toy_att_payload_def
        del: toy_jcs.simps)
  have sh: "attestation_shape (JDict (toy_attestation (JDict env))) (toy_attestation (JDict env)) ?pl ?pub"
    by (simp add: attestation_shape_def toy_attestation_def dget_simps is_rsa_jwk_def)
  have sig: "verify_rsa_pss_sha256 toy (toy_jcs (JDict ?pl)) (dget (toy_attestation (JDict env)) ''signature'') (JDict ?pub)
      = Inr True"
    unfolding rsa_accepts_iff
    by (simp add: toy_attestation_def dget_simps n e big strict_hex_encode
        del: toy_jcs.simps strict_hex_to_bytes.simps base64url_to_bytes.simps)
  have addr: "derive_operator_address toy (dget ?pub ''n'') = Inr (bytes_to_base64url (toy_hash [1]))"
    by (simp add: derive_operator_address_def dget_simps n del: base64url_to_bytes.simps)
  have ne: "bytes_to_base64url (toy_hash [1]) \<noteq> []" by code_simp
  have "canonical_hash toy (JDict env) = Inr (hex_encode (toy_hash (toy_jcs (JDict env))))"
    using assms(3) by (simp add: canonical_hash_def canonical_def canonical_json_shallow
        MAX_CANONICAL_DEPTH_def sha256_hex_def del: toy_jcs.simps)
  moreover have "hex_encode (toy_hash x) \<noteq> []" for x
    using length_hex_encode [of "toy_hash x"] toy_hash.digest_not_Nil [of x] by (metis length_0_conv mult_eq_0_iff zero_neq_numeral)
  ultimately have dh: "data_hash_bound toy sources (toy_attestation (JDict env)) ?pl"
    using assms(1,2) by (simp add: data_hash_bound_def toy_attestation_def toy_att_payload_def dget_simps
        str_or_def del: toy_jcs.simps)
  have op: "str_or [] (dget ?pl ''operator'') = bytes_to_base64url (toy_hash [1])"
    by (simp add: toy_att_payload_def dget_simps str_or_def)
  have valid: "attestation_valid toy sources (JDict (toy_attestation (JDict env)))"
    unfolding attestation_valid_shape [OF sh] op using pb sig addr ne dh by blast
  have "\<exists>r. verify_attestation toy (JDict (toy_attestation (JDict env))) sources = Inr (r, None)"
  proof (rule verify_attestation_cases [of toy "JDict (toy_attestation (JDict env))" sources])
    fix d payload pub
    assume sh': "attestation_shape (JDict (toy_attestation (JDict env))) d payload pub"
      and v: "verify_attestation toy (JDict (toy_attestation (JDict env))) sources
        = check_attestation_crypto toy sources d payload (JDict pub) (filled_attestation d payload)"
    from attestation_shape_unique [OF sh sh'] show ?thesis
      unfolding v using pb sig addr
      by (auto simp: check_attestation_crypto_def catch_malformed_def Let_def)
  qed (use sh in blast)
  with valid show ?thesis using verify_attestation_ok by blast
qed

theorem attestation_verdict_witness:
  "\<exists>r. verify_attestation toy (JDict (toy_attestation (JDict []))) [(''tx'', [(''envelope'', JDict [])])] = Inr (r, None)
     \<and> at_ok r \<and> attestation_valid toy [(''tx'', [(''envelope'', JDict [])])] (JDict (toy_attestation (JDict [])))"
  using toy_attestation_verifies [of "[(''tx'', [(''envelope'', JDict [])])]" "[(''envelope'', JDict [])]" "[]"]
    attestation_verdict by (fastforce simp: dget_simps)

text \<open>
  C13: the exceptions that escape the malformed bucket.  Checking a record raises iff its shape
  is right, its payload is canonicalizable, and either the signature is an odd run of hex
  digits with a final newline (\<open>ValueError\<close>), or the modulus is base64url text with a final
  newline and the signature check returned (\<open>binascii.Error\<close>).
\<close>

theorem attestation_raises_iff:
  "verify_attestation K rec sources = Inl e \<longleftrightarrow>
     (\<exists>d payload pub payload_bytes.
        attestation_shape rec d payload pub \<and> canonical K (JDict payload) = Inr payload_bytes
        \<and> (e = ValueError \<and> odd_hex_newline (dget d ''signature'')
           \<or> e = BinasciiError \<and> b64url_newline (dget pub ''n'')
             \<and> (\<exists>ok. verify_rsa_pss_sha256 K payload_bytes (dget d ''signature'') (JDict pub) = Inr ok)))"
  by (rule verify_attestation_raises_iff)

end
