(* ===== verification/Verdict.thy ===== *)
theory Verdict
  imports Attestation
begin

text \<open>
  The verdict object of an export (\<open>_build_verdict_object\<close>, \<open>_to_verdict_on_chain\<close>,
  \<open>_event_verdict_status\<close>), its projection on the deterministic dimensions
  (\<open>_project_verdict_for_agreement\<close>, \<open>_g\<close>) and the summary text.  A verdict is a JSON dict, as in
  the source, because it is compared by its canonical form.
\<close>

section \<open>JSON of results\<close>

fun tristate :: "bool option \<Rightarrow> json" where
  "tristate None = JNull"
| "tristate (Some b) = JBool b"

definition to_verdict_on_chain :: "on_chain_result \<Rightarrow> json" where
  "to_verdict_on_chain o_result =
     JDict
      [(''rollup'', JStr (outcome_text (oc_rollup o_result))),
       (''on_chain_ok'', tristate (oc_on_chain_ok o_result)),
       (''per_gateway'', JList
         (map (\<lambda>g. JDict [(''gateway'', JStr (pg_gateway g)),
                          (''outcome'', JStr (outcome_text (pg_outcome g)))])
              (oc_per_gateway o_result)))]"

definition event_verdict_status :: "event_result \<Rightarrow> string" where
  "event_verdict_status e =
     (if \<not> ev_ok e then ''failed''
      else if ev_payload_binding_ok e = None then ''partial''
      else ''verified'')"

definition attestation_entry :: "attestation_result \<Rightarrow> json" where
  "attestation_entry a =
     JDict
      ([(''operator'', JStr (at_operator a))]
       @ (case at_gateway a of None \<Rightarrow> [] | Some g \<Rightarrow> if g = [] then [] else [(''gateway'', JStr g)])
       @ [(''signature_ok'', JBool (at_signature_ok a)),
          (''operator_address_bound'', JBool (at_operator_address_bound a)),
          (''data_hash_bound'', JBool (at_data_hash_bound a))]
       @ (case at_level a of None \<Rightarrow> [] | Some i \<Rightarrow> [(''level'', JInt i)])
       @ [(''subject_ref_ok'', tristate (at_subject_ref_ok a))])"

text \<open>\<open>att_by_checkpoint.setdefault(tx, []).append(entry)\<close>, over all attestations.\<close>

fun group_attestations ::
  "(string \<times> json list) list \<Rightarrow> attestation_result list \<Rightarrow> (string \<times> json list) list" where
  "group_attestations m [] = m"
| "group_attestations m (a # as) =
     (let tx = at_checkpoint_tx_id a;
          entries = (case map_of m tx of None \<Rightarrow> [] | Some es \<Rightarrow> es)
      in group_attestations (AList.update tx (entries @ [attestation_entry a]) m) as)"

definition event_entry :: "event_result \<Rightarrow> json" where
  "event_entry e =
     JDict
      [(''event_id'', JStr (ev_event_id e)),
       (''signature_ok'', JBool (ev_envelope_ok e)),
       (''payload_bound'', tristate (ev_payload_binding_ok e)),
       (''inclusion_ok'', JBool (ev_inclusion_ok e)),
       (''content_ok'', tristate (ev_content_ok e)),
       (''status'', JStr (event_verdict_status e))]"

definition checkpoint_entry :: "(string \<times> json list) list \<Rightarrow> checkpoint_result \<Rightarrow> json" where
  "checkpoint_entry att_by_checkpoint c =
     JDict
      [(''checkpoint_tx_id'', JStr (cr_tx_id c)),
       (''merkle_root_ok'', JBool (cr_merkle_root_ok c)),
       (''on_chain'', (case cr_on_chain c of None \<Rightarrow> JNull | Some oc \<Rightarrow> to_verdict_on_chain oc)),
       (''attestations'', JList (case map_of att_by_checkpoint (cr_tx_id c) of None \<Rightarrow> [] | Some es \<Rightarrow> es))]"

text \<open>The counters \<open>verified\<close>, \<open>failed\<close> and \<open>undetermined\<close>.\<close>

definition verdict_counts :: "event_result list \<Rightarrow> attestation_result list \<Rightarrow> nat \<times> nat \<times> nat" where
  "verdict_counts events attestations =
     (let statuses = map event_verdict_status events;
          failed = length (filter (\<lambda>s. s = ''failed'') statuses);
          verified = length (filter (\<lambda>s. s = ''verified'') statuses);
          undetermined = length (filter (\<lambda>s. s \<noteq> ''failed'' \<and> s \<noteq> ''verified'') statuses)
      in (verified + length (filter at_ok attestations),
          failed + length (filter (\<lambda>a. \<not> at_ok a) attestations),
          undetermined))"

definition build_verdict_object :: "evidence_result \<Rightarrow> attestation_result list \<Rightarrow> items" where
  "build_verdict_object source attestations =
     (let att_by_checkpoint = group_attestations [] attestations;
          (verified, failed, undetermined) = verdict_counts (er_events source) attestations
      in [(''schema_version'', JStr VERDICT_SCHEMA_VERSION),
          (''status'', JStr (if er_status source = Malformed then ''failed''
                             else status_text (er_status source))),
          (''counts'', JDict
            [(''verified'', JInt (int verified)),
             (''failed'', JInt (int failed)),
             (''undetermined'', JInt (int undetermined))]),
          (''events'', JList (map event_entry (er_events source))),
          (''checkpoints'', JList (map (checkpoint_entry att_by_checkpoint) (er_checkpoints source))),
          (''custody_chain'', JNull)])"

section \<open>The projection\<close>

text \<open>\<open>_g\<close>.\<close>

definition g_field :: "json \<Rightarrow> string \<Rightarrow> json" where
  "g_field d k = (case d of JDict items \<Rightarrow> dget items k | _ \<Rightarrow> JNull)"

definition list_field :: "json \<Rightarrow> string \<Rightarrow> json list" where
  "list_field d k = (case g_field d k of JList xs \<Rightarrow> xs | _ \<Rightarrow> [])"

definition project_event :: "json \<Rightarrow> json" where
  "project_event e =
     JDict
      [(''event_id'', g_field e ''event_id''),
       (''signature_ok'', g_field e ''signature_ok''),
       (''payload_bound'', g_field e ''payload_bound''),
       (''inclusion_ok'', g_field e ''inclusion_ok''),
       (''content_ok'', g_field e ''content_ok'')]"

definition project_attestation :: "json \<Rightarrow> json" where
  "project_attestation a =
     JDict
      [(''operator'', g_field a ''operator''),
       (''signature_ok'', g_field a ''signature_ok''),
       (''operator_address_bound'', g_field a ''operator_address_bound''),
       (''data_hash_bound'', g_field a ''data_hash_bound''),
       (''subject_ref_ok'', g_field a ''subject_ref_ok'')]"

definition project_checkpoint :: "json \<Rightarrow> json" where
  "project_checkpoint c =
     JDict
      [(''checkpoint_tx_id'', g_field c ''checkpoint_tx_id''),
       (''merkle_root_ok'', g_field c ''merkle_root_ok''),
       (''attestations'', JList (map project_attestation (list_field c ''attestations'')))]"

definition project_verdict_for_agreement :: "json \<Rightarrow> json" where
  "project_verdict_for_agreement v =
     JDict
      [(''schema_version'', (case g_field v ''schema_version'' of JStr s \<Rightarrow> JStr s | _ \<Rightarrow> JNull)),
       (''events'', JList (map project_event (list_field v ''events''))),
       (''checkpoints'', JList (map project_checkpoint (list_field v ''checkpoints'')))]"

definition summarize_export :: "status \<Rightarrow> evidence_result \<Rightarrow> attestation_result list \<Rightarrow> string" where
  "summarize_export status source attestations =
     ''Export '' @ status_text status @ '': source bundle '' @ status_text (er_status source) @ '' (''
     @ dec_text (length (er_events source)) @ '' event(s) across ''
     @ dec_text (length (er_checkpoints source)) @ '' checkpoint(s)); ''
     @ dec_text (length (filter at_ok attestations)) @ ''/''
     @ dec_text (length attestations) @ '' operator attestation(s) valid.''"

section \<open>Lemmas\<close>

lemma group_attestations_lookup:
  "map_of (group_attestations m as) tx =
     (case map_of m tx of
        None \<Rightarrow>
          (let es = map attestation_entry (filter (\<lambda>a. at_checkpoint_tx_id a = tx) as)
           in if es = [] then None else Some es)
      | Some es \<Rightarrow> Some (es @ map attestation_entry (filter (\<lambda>a. at_checkpoint_tx_id a = tx) as)))"
  by (induction m as rule: group_attestations.induct)
    (auto simp: AList.update_conv' Let_def split: option.splits)

text \<open>Each checkpoint lists the attestations that name it, in order.\<close>

lemma checkpoint_attestations:
  "(case map_of (group_attestations [] as) tx of None \<Rightarrow> [] | Some es \<Rightarrow> es)
     = map attestation_entry (filter (\<lambda>a. at_checkpoint_tx_id a = tx) as)"
  by (simp add: group_attestations_lookup Let_def)

lemma verdict_counts_total:
  "verdict_counts events atts = (v, f, u) \<Longrightarrow> v + f + u = length events + length atts"
proof -
  assume c: "verdict_counts events atts = (v, f, u)"
  have "length (filter (\<lambda>s. s = ''failed'') ss) + length (filter (\<lambda>s. s = ''verified'') ss)
      + length (filter (\<lambda>s. s \<noteq> ''failed'' \<and> s \<noteq> ''verified'') ss) = length ss" for ss :: "string list"
    by (induction ss) auto
  from this [of "map event_verdict_status events"] sum_length_filter_compl [of at_ok atts] c
  show ?thesis by (simp add: verdict_counts_def Let_def)
qed

text \<open>The parts of a result the projection of its verdict depends on.\<close>

definition strip_event :: "event_result \<Rightarrow> string \<times> bool \<times> bool option \<times> bool \<times> bool option" where
  "strip_event e =
     (ev_event_id e, ev_envelope_ok e, ev_payload_binding_ok e, ev_inclusion_ok e, ev_content_ok e)"

definition strip_attestation :: "attestation_result \<Rightarrow> string \<times> bool \<times> bool \<times> bool \<times> bool option" where
  "strip_attestation a =
     (at_operator a, at_signature_ok a, at_operator_address_bound a, at_data_hash_bound a, at_subject_ref_ok a)"

lemma dget_append: "dget (xs @ ys) k = (if has_key k xs then dget xs k else dget ys k)"
  by (simp add: dget_def has_key_def map_add_def split: option.splits)

lemma project_attestation_entry:
  "project_attestation (attestation_entry a) =
     JDict
      [(''operator'', JStr (at_operator a)),
       (''signature_ok'', JBool (at_signature_ok a)),
       (''operator_address_bound'', JBool (at_operator_address_bound a)),
       (''data_hash_bound'', JBool (at_data_hash_bound a)),
       (''subject_ref_ok'', tristate (at_subject_ref_ok a))]"
  by (auto simp: project_attestation_def attestation_entry_def g_field_def dget_simps split: option.splits)

lemma project_event_entry:
  "project_event (event_entry e) =
     JDict
      [(''event_id'', JStr (ev_event_id e)),
       (''signature_ok'', JBool (ev_envelope_ok e)),
       (''payload_bound'', tristate (ev_payload_binding_ok e)),
       (''inclusion_ok'', JBool (ev_inclusion_ok e)),
       (''content_ok'', tristate (ev_content_ok e))]"
  by (simp add: project_event_def event_entry_def g_field_def dget_simps)

lemma project_checkpoint_entry:
  "project_checkpoint (checkpoint_entry (group_attestations [] as) c) =
     JDict
      [(''checkpoint_tx_id'', JStr (cr_tx_id c)),
       (''merkle_root_ok'', JBool (cr_merkle_root_ok c)),
       (''attestations'', JList (map (\<lambda>a. project_attestation (attestation_entry a))
          (filter (\<lambda>a. at_checkpoint_tx_id a = cr_tx_id c) as)))]"
  by (simp add: project_checkpoint_def checkpoint_entry_def checkpoint_attestations g_field_def
      list_field_def dget_simps o_def)

lemma project_build_verdict:
  "project_verdict_for_agreement (JDict (build_verdict_object source as)) =
     JDict
      [(''schema_version'', JStr VERDICT_SCHEMA_VERSION),
       (''events'', JList (map (\<lambda>e. project_event (event_entry e)) (er_events source))),
       (''checkpoints'', JList (map (\<lambda>c. project_checkpoint (checkpoint_entry (group_attestations [] as) c))
          (er_checkpoints source)))]"
  by (simp add: project_verdict_for_agreement_def build_verdict_object_def Let_def case_prod_beta
      g_field_def list_field_def dget_simps o_def)

lemma tristate_inject [simp]: "tristate a = tristate b \<longleftrightarrow> a = b"
  by (cases a; cases b) auto

lemma map_eq_by_key:
  "(\<And>x y. f x = f y \<longleftrightarrow> g x = g y) \<Longrightarrow> map f xs = map f ys \<longleftrightarrow> map g xs = map g ys"
proof (induction xs arbitrary: ys)
  case (Cons x xs)
  then show ?case by (cases ys) auto
qed auto

text \<open>The deterministic dimensions of a checkpoint, with the attestations that name it.\<close>

definition strip_checkpoint ::
  "attestation_result list \<Rightarrow> checkpoint_result
     \<Rightarrow> string \<times> bool \<times> (string \<times> bool \<times> bool \<times> bool \<times> bool option) list" where
  "strip_checkpoint as c =
     (cr_tx_id c, cr_merkle_root_ok c,
      map strip_attestation (filter (\<lambda>a. at_checkpoint_tx_id a = cr_tx_id c) as))"

lemma map_eq_two:
  "(\<And>x y. f x = f' y \<longleftrightarrow> g x = g' y) \<Longrightarrow> map f xs = map f' ys \<longleftrightarrow> map g xs = map g' ys"
proof (induction xs arbitrary: ys)
  case (Cons x xs)
  then show ?case by (cases ys) auto
qed auto

lemma project_attestation_eq:
  "project_attestation (attestation_entry a) = project_attestation (attestation_entry b)
     \<longleftrightarrow> strip_attestation a = strip_attestation b"
  by (auto simp: project_attestation_entry strip_attestation_def)

lemma project_event_eq:
  "project_event (event_entry e) = project_event (event_entry e') \<longleftrightarrow> strip_event e = strip_event e'"
  by (auto simp: project_event_entry strip_event_def)

lemma project_checkpoint_eq:
  "project_checkpoint (checkpoint_entry (group_attestations [] as) c)
     = project_checkpoint (checkpoint_entry (group_attestations [] as') c')
     \<longleftrightarrow> strip_checkpoint as c = strip_checkpoint as' c'"
proof -
  have "map (\<lambda>a. project_attestation (attestation_entry a)) xs
      = map (\<lambda>a. project_attestation (attestation_entry a)) ys
      \<longleftrightarrow> map strip_attestation xs = map strip_attestation ys" for xs ys
    by (rule map_eq_two) (rule project_attestation_eq)
  then show ?thesis by (auto simp: project_checkpoint_entry strip_checkpoint_def)
qed

lemma projection_eq_iff:
  "project_verdict_for_agreement (JDict (build_verdict_object s as))
     = project_verdict_for_agreement (JDict (build_verdict_object s' as'))
   \<longleftrightarrow> map strip_event (er_events s) = map strip_event (er_events s')
     \<and> map (strip_checkpoint as) (er_checkpoints s) = map (strip_checkpoint as') (er_checkpoints s')"
proof -
  have "map (\<lambda>e. project_event (event_entry e)) (er_events s)
      = map (\<lambda>e. project_event (event_entry e)) (er_events s')
      \<longleftrightarrow> map strip_event (er_events s) = map strip_event (er_events s')"
    by (rule map_eq_two) (rule project_event_eq)
  moreover have "map (\<lambda>c. project_checkpoint (checkpoint_entry (group_attestations [] as) c)) (er_checkpoints s)
      = map (\<lambda>c. project_checkpoint (checkpoint_entry (group_attestations [] as') c)) (er_checkpoints s')
      \<longleftrightarrow> map (strip_checkpoint as) (er_checkpoints s) = map (strip_checkpoint as') (er_checkpoints s')"
    by (rule map_eq_two) (rule project_checkpoint_eq)
  ultimately show ?thesis unfolding project_build_verdict by simp
qed

text \<open>The on-chain pass changes no deterministic dimension.\<close>

lemma recheck_checkpoint_strip:
  "recheck_checkpoint K f gws m r w = ((r', u), w') \<Longrightarrow> strip_checkpoint as r' = strip_checkpoint as r"
  using recheck_checkpoint_fields(2,3) [of K f gws m r w r' u w'] by (simp add: strip_checkpoint_def)

lemma recheck_checkpoints_strip:
  "recheck_checkpoints K f gws m rs w = ((rs', u), w') \<Longrightarrow>
   map (strip_checkpoint as) rs' = map (strip_checkpoint as) rs"
proof -
  assume "recheck_checkpoints K f gws m rs w = ((rs', u), w')"
  from recheck_checkpoints_all2 [OF this]
  have "list_all2 (\<lambda>r r'. strip_checkpoint as r' = strip_checkpoint as r) rs rs'"
    by (rule list_all2_mono) (elim exE conjE, rule recheck_checkpoint_strip)
  then show ?thesis by (induction rule: list_all2_induct) auto
qed

lemma on_chain_pass_strip:
  "on_chain_pass K fetch gws m crs w = ((crs', u), w') \<Longrightarrow>
   map (strip_checkpoint as) crs' = map (strip_checkpoint as) crs"
  by (auto simp: on_chain_pass_def recheck_checkpoints_strip split: if_splits option.splits)

text \<open>The two passes of a trace, and what the run makes of their results.\<close>

lemma trace_results:
  assumes "verify_anchor_trace K fetch gateways content b sv asserted errors w = Inr (r, w')"
  shows "er_events r = [] \<and> er_checkpoints r = [] \<and> er_status r = Malformed
       \<and> \<not> (\<exists>body cps evs. dget b ''body'' = JDict body \<and> dget body ''checkpoints'' = JList cps
              \<and> dget body ''events'' = JList evs)
     \<or> (\<exists>body cps evs m crs u. dget b ''body'' = JDict body
          \<and> dget body ''checkpoints'' = JList (map JDict cps) \<and> dget body ''events'' = JList (map JDict evs)
          \<and> check_checkpoints K [] (map JDict cps) = Inr (m, crs)
          \<and> on_chain_pass K fetch gateways m crs w = ((er_checkpoints r, u), w')
          \<and> er_events r = map (check_event K m content) evs)"
proof (cases "\<exists>body cps evs. dget b ''body'' = JDict body
    \<and> dget body ''checkpoints'' = JList cps \<and> dget body ''events'' = JList evs")
  case True
  then obtain body xs ys where b: "dget b ''body'' = JDict body"
    "dget body ''checkpoints'' = JList xs" "dget body ''events'' = JList ys" by blast
  have "verify_anchor_trace K fetch gateways content b sv asserted errors w \<noteq> Inl AttributeError"
    using assms by simp
  then have "list_all is_dict xs" "list_all is_dict ys"
    using b unfolding verify_anchor_trace_raises_iff by auto
  then obtain cps evs where d: "xs = map JDict cps" "ys = map JDict evs" using is_dict_list by metis
  obtain m crs where c: "check_checkpoints K [] (map JDict cps) = Inr (m, crs)"
    using check_checkpoints_map by blast
  obtain crs' u w1 where p: "on_chain_pass K fetch gateways m crs w = ((crs', u), w1)" by (metis surj_pair)
  from verify_anchor_trace_run [OF b(1) b(2,3) [unfolded d] c p, where content = content
      and sv = sv and asserted = asserted and errors = errors] assms
  have "er_checkpoints r = crs'" "er_events r = map (check_event K m content) evs" "w' = w1" by auto
  with b d c p show ?thesis by blast
next
  case False
  obtain body where body: "dget b ''body'' = JDict body"
    using assms by (auto simp: verify_anchor_trace_def split: json.splits)
  have "r = malformed ''ario.anchor.trace/v1 body must have checkpoints[] and events[]'' True"
    using assms body False unfolding verify_anchor_trace_def by (auto split: json.splits)
  with False show ?thesis by (simp add: malformed_def)
qed

lemma trace_strips_offline:
  assumes "verify_anchor_trace K fetch gateways content b sv asserted errors w = Inr (r, w1)"
    and "verify_anchor_trace K fetch' gateways' content b sv' asserted' errors' v = Inr (r', v1)"
  shows "er_events r = er_events r'
     \<and> map (strip_checkpoint as) (er_checkpoints r) = map (strip_checkpoint as) (er_checkpoints r')"
  using trace_results [OF assms(1)]
proof (elim disjE exE conjE)
  fix body cps evs m crs u
  assume t: "dget b ''body'' = JDict body" "dget body ''checkpoints'' = JList (map JDict cps)"
    "dget body ''events'' = JList (map JDict evs)" "check_checkpoints K [] (map JDict cps) = Inr (m, crs)"
    "on_chain_pass K fetch gateways m crs w = ((er_checkpoints r, u), w1)"
    "er_events r = map (check_event K m content) evs"
  have inj: "map JDict xs = map JDict ys \<longleftrightarrow> xs = ys" for xs ys
    by (rule inj_map_eq_map) (simp add: inj_def)
  from trace_results [OF assms(2)] t obtain u' where
    "on_chain_pass K fetch' gateways' m crs v = ((er_checkpoints r', u'), v1)"
    "er_events r' = map (check_event K m content) evs"
    by (auto simp: inj)
  with t(5,6) on_chain_pass_strip show ?thesis by metis
next
  assume "er_events r = []" "er_checkpoints r = []"
    "\<nexists>body cps evs. dget b ''body'' = JDict body \<and> dget body ''checkpoints'' = JList cps
              \<and> dget body ''events'' = JList evs"
  with trace_results [OF assms(2)] show ?thesis by auto
qed

section \<open>Properties\<close>

text \<open>
  C14: what the agreement comparison compares.  Two verdict objects built by the kernel have the
  same projection iff they agree on every event's id, signature, payload binding, inclusion
  and content, on every checkpoint's id and root, and on the operator and the bindings of the
  attestations listed under it; status, counts, gateways, levels and on-chain outcomes
  cannot make a difference, and nothing else is lost.
\<close>

theorem agreement_projection:
  "project_verdict_for_agreement (JDict (build_verdict_object s as))
     = project_verdict_for_agreement (JDict (build_verdict_object s' as'))
   \<longleftrightarrow> map strip_event (er_events s) = map strip_event (er_events s')
     \<and> map (strip_checkpoint as) (er_checkpoints s) = map (strip_checkpoint as') (er_checkpoints s')"
  by (rule projection_eq_iff)

text \<open>
  Agreement does not depend on the network.  Two runs of the trace verifier over the same
  bundle and content give verdict objects with the same projection, whatever gateways were
  asked, whatever they answered, and whatever state the outside world was in.
\<close>

lemma agreement_network_independent:
  assumes "verify_anchor_trace K fetch gateways content b sv asserted errors w = Inr (r, w1)"
    and "verify_anchor_trace K fetch' gateways' content b sv asserted errors v = Inr (r', v1)"
  shows "project_verdict_for_agreement (JDict (build_verdict_object r as))
       = project_verdict_for_agreement (JDict (build_verdict_object r' as))"
  unfolding projection_eq_iff using trace_strips_offline [OF assms] by simp

lemma agreement_network_independent_witness:
  "\<exists>env cenv r r'. verify_anchor_trace toy (None :: unit fetch option) [] [] (toy_trace env cenv) True None [] ()
       = Inr (r, ())
     \<and> verify_anchor_trace toy (None :: unit fetch option) [''gw''] [] (toy_trace env cenv) True None [] ()
       = Inr (r', ())
     \<and> er_status r = Verified
     \<and> project_verdict_for_agreement (JDict (build_verdict_object r []))
       = project_verdict_for_agreement (JDict (build_verdict_object r' []))"
proof -
  obtain env cenv where p:
    "checkpoint_bound toy (toy_checkpoint cenv (leaf_hash toy_hash (toy_jcs (JDict env))))"
    "event_verified toy [toy_checkpoint cenv (leaf_hash toy_hash (toy_jcs (JDict env)))] [] (toy_event env)"
    "depth (JDict env) \<le> 2" "depth (JDict cenv) \<le> 1" by (rule toy_parts)
  obtain r where r: "verify_anchor_trace toy (None :: unit fetch option) [] [] (toy_trace env cenv) True None [] ()
     = Inr (r, ())" "er_status r = Verified"
    using toy_trace_verifies [OF p(1,2)] by blast
  let ?V = "verify_anchor_trace toy (None :: unit fetch option) [''gw''] [] (toy_trace env cenv) True None [] ()"
  have "?V \<noteq> Inl e" for e
    unfolding verify_anchor_trace_raises_iff by (simp add: toy_trace_body dget_simps)
  then obtain r' where r': "?V = Inr (r', ())" by (cases ?V) auto
  with r r' agreement_network_independent [OF r(1) r'] show ?thesis by blast
qed

text \<open>
  the counters of a verdict account for everything.  \<open>verified\<close>, \<open>failed\<close> and
  \<open>undetermined\<close> add up to the number of events and attestations.
\<close>

lemma verdict_counts_partition:
  "case verdict_counts events atts of (verified, failed, undetermined) \<Rightarrow>
     verified + failed + undetermined = length events + length atts"
  using verdict_counts_total by (auto split: prod.splits)

end
