(* ===== verification/Evidence_Bundle.thy ===== *)
theory Evidence_Bundle
  imports Verdict
begin

text \<open>
  The entry point of \<open>evidence.py\<close>: \<open>verify_evidence_bundle\<close> with the checks of the signed
  wrapper and the dispatch on the body type, and \<open>_verify_export_body\<close>, which recomputes the
  verdict of the inline source bundle by calling \<open>verify_evidence_bundle\<close> again.  The
  recursion ends because the source bundle is a proper part of the bundle.
\<close>

section \<open>The wrapper\<close>

definition check_body_hash :: "kernel \<Rightarrow> items \<Rightarrow> bool \<times> string list" where
  "check_body_hash K b =
     (case canonical_hash K (dget b ''body'') of
        Inl exc \<Rightarrow> (False, [''body canonicalization failed: '' @ exc_text K exc])
      | Inr recomputed \<Rightarrow>
          (let body_hash = str_or [] (dget b ''body_hash'');
               body_hash_ok = (recomputed = body_hash)
           in (body_hash_ok,
               if body_hash_ok then []
               else [''body_hash mismatch: bundle='' @ body_hash @ '' recomputed='' @ recomputed])))"

definition bundle_for_sig :: "items \<Rightarrow> items" where
  "bundle_for_sig b = filter (\<lambda>(k, v). k \<notin> {''signature'', ''co_signatures''}) b"

definition check_wrapper_signature :: "kernel \<Rightarrow> items \<Rightarrow> bool \<times> string list" where
  "check_wrapper_signature K b =
     (case canonical K (JDict (bundle_for_sig b)) of
        Inl exc \<Rightarrow> (False, [''wrapper signature verification error: '' @ exc_text K exc])
      | Inr message \<Rightarrow>
          (let signature_ok = verify_signature K message (dget b ''signature'') (dget b ''public_key'')
           in (signature_ok,
               if signature_ok then [] else [''wrapper Ed25519 signature verification failed''])))"

definition asserted_status_of :: "items \<Rightarrow> string option" where
  "asserted_status_of b =
     (case dget b ''verdict'' of
        JDict verdict \<Rightarrow> (case dget verdict ''status'' of JStr s \<Rightarrow> Some s | _ \<Rightarrow> None)
      | _ \<Rightarrow> None)"

definition body_type_of :: "items \<Rightarrow> string option" where
  "body_type_of b = (case dget b ''body_type'' of JStr s \<Rightarrow> Some s | _ \<Rightarrow> None)"

text \<open>
  Steps 1 and 2.  The result is a final verdict, or what the body verifiers are given: the
  errors so far and the asserted status.
\<close>

definition check_wrapper ::
  "kernel \<Rightarrow> items \<Rightarrow> evidence_result + (string list \<times> string option)" where
  "check_wrapper K b =
     (if exceeds_depth (JDict b) MAX_CANONICAL_DEPTH
      then Inl (malformed
        ''evidence bundle nesting exceeds the 128-level canonicalization depth bound'' False)
      else if \<not> matches_evidence_major (dget b ''spec_version'')
      then Inl (malformed (''unsupported evidence spec_version: '' @ k_repr K (dget b ''spec_version'')) False)
      else if is_str (dget b ''signature_alg'') \<and> dget b ''signature_alg'' \<noteq> JStr ''ed25519''
      then Inl (malformed (''unsupported signature_alg: '' @ k_repr K (dget b ''signature_alg'')) True)
      else if \<not> is_str (dget b ''public_key'') \<or> \<not> is_str (dget b ''signature'')
      then Inl (malformed ''evidence bundle is missing public_key/signature'' True)
      else if \<not> is_str (dget b ''body_hash'')
      then Inl (malformed ''evidence bundle is missing body_hash'' True)
      else if dget b ''body'' = JNull
      then Inl (malformed ''evidence bundle has no inline body (body_ref unsupported here)'' True)
      else
        (let (body_hash_ok, errors1) = check_body_hash K b;
             (signature_ok, errors2) = check_wrapper_signature K b;
             asserted_status = asserted_status_of b
         in if \<not> signature_ok \<or> \<not> body_hash_ok
            then Inl \<lparr> er_status = Failed, er_spec_version_ok = True, er_body_hash_ok = body_hash_ok,
                       er_signature_ok = signature_ok, er_body_type = body_type_of b,
                       er_on_chain_checked = False, er_checkpoints = [], er_events = [],
                       er_asserted_status = asserted_status, er_export = None,
                       er_errors = errors1 @ errors2 \<rparr>
            else Inr (errors1 @ errors2, asserted_status)))"

section \<open>The export body\<close>

text \<open>A verdict without checkpoints and events over a verified wrapper.\<close>

definition wrapper_only ::
  "status \<Rightarrow> string option \<Rightarrow> string option \<Rightarrow> string list \<Rightarrow> evidence_result" where
  "wrapper_only status body_type asserted_status errors =
     \<lparr> er_status = status, er_spec_version_ok = True, er_body_hash_ok = True, er_signature_ok = True,
       er_body_type = body_type, er_on_chain_checked = False, er_checkpoints = [], er_events = [],
       er_asserted_status = asserted_status, er_export = None, er_errors = errors \<rparr>"

definition export_malformed :: "string option \<Rightarrow> string list \<Rightarrow> string \<Rightarrow> evidence_result" where
  "export_malformed asserted_status errors error =
     wrapper_only Malformed (Some EXPORT_BODY_TYPE) asserted_status (errors @ [error])"

definition check_source_linkage :: "kernel \<Rightarrow> items \<Rightarrow> bool \<times> string list" where
  "check_source_linkage K body =
     (case canonical_hash K (dget body ''source_bundle'') of
        Inl exc \<Rightarrow> (False, [''source_bundle canonicalization failed: '' @ exc_text K exc])
      | Inr recomputed \<Rightarrow>
          (let claimed = str_or [] (dget body ''source_bundle_hash'');
               source_linkage_ok = (recomputed = claimed)
           in (source_linkage_ok,
               if source_linkage_ok then []
               else [''source_bundle_hash mismatch: body='' @ claimed @ '' recomputed='' @ recomputed])))"

definition check_verdict_agreement :: "kernel \<Rightarrow> json \<Rightarrow> items \<Rightarrow> bool \<times> string list" where
  "check_verdict_agreement K kernel_verdict verdict =
     (case ebind (canonical K (project_verdict_for_agreement kernel_verdict))
             (\<lambda>cached. ebind (canonical K (project_verdict_for_agreement (JDict verdict)))
               (\<lambda>fresh. Inr (cached = fresh))) of
        Inl exc \<Rightarrow> (False, [''verdict agreement comparison failed: '' @ exc_text K exc])
      | Inr agreement_ok \<Rightarrow>
          (agreement_ok,
           if agreement_ok then []
           else [''recomputed verdict disagrees with the cached kernel_verdict (deterministic dimensions) ''
                 @ em_dash @ '' recompute-don't-trust'']))"

definition export_status ::
  "bool \<Rightarrow> bool \<Rightarrow> evidence_result \<Rightarrow> attestation_result list \<Rightarrow> status" where
  "export_status source_linkage_ok verdict_agreement_ok source attestations =
     (if \<not> source_linkage_ok \<or> \<not> verdict_agreement_ok
         \<or> er_status source = Failed \<or> er_status source = Malformed
         \<or> list_ex (\<lambda>a. \<not> at_ok a) attestations
      then Failed
      else if er_status source = Partial then Partial
      else Verified)"

text \<open>Steps 5 and 9, once the source is recomputed and the attestations are checked.\<close>

definition finish_export ::
  "kernel \<Rightarrow> items \<Rightarrow> items \<Rightarrow> bool \<Rightarrow> string option \<Rightarrow> string list \<Rightarrow> evidence_result
     \<Rightarrow> attestation_result list \<Rightarrow> evidence_result" where
  "finish_export K b body source_linkage_ok asserted_status errors source attestations =
     (let verdict0 = build_verdict_object source attestations;
          verdict1 = (if is_str (dget b ''generated_at'')
                      then dput ''as_of'' (dget b ''generated_at'') verdict0 else verdict0);
          (verdict_agreement_ok, notes) = check_verdict_agreement K (dget body ''kernel_verdict'') verdict1;
          status = export_status source_linkage_ok verdict_agreement_ok source attestations;
          verdict2 = dput ''summary'' (JStr (summarize_export status source attestations))
                       (dput ''status'' (JStr (status_text status)) verdict1)
      in \<lparr> er_status = status, er_spec_version_ok = True, er_body_hash_ok = True,
           er_signature_ok = True, er_body_type = Some EXPORT_BODY_TYPE,
           er_on_chain_checked = er_on_chain_checked source,
           er_checkpoints = er_checkpoints source, er_events = er_events source,
           er_asserted_status = asserted_status,
           er_export = Some
             \<lparr> xr_source_linkage_ok = source_linkage_ok, xr_source_status = er_status source,
               xr_verdict_agreement_ok = verdict_agreement_ok, xr_attestations = attestations,
               xr_verdict = verdict2, xr_status = status \<rparr>,
           er_errors = errors @ notes @ map (\<lambda>e. ''source: '' @ e) (er_errors source) \<rparr>)"

definition SOURCE_REF_NOTE :: string where
  "SOURCE_REF_NOTE =
     ''source_bundle is not inline (source_bundle_ref) '' @ em_dash
     @ '' bytes unavailable offline; source-dependent checks undetermined''"

text \<open>The argument \<open>verify_source\<close> stands for the recursive call.\<close>

definition verify_export_body ::
  "(json \<Rightarrow> 'w \<Rightarrow> exc + (evidence_result \<times> 'w)) \<Rightarrow> kernel \<Rightarrow> items \<Rightarrow> string option
     \<Rightarrow> string list \<Rightarrow> 'w \<Rightarrow> exc + (evidence_result \<times> 'w)" where
  "verify_export_body verify_source K b asserted_status errors w =
     (case dget b ''body'' of
        JDict body \<Rightarrow>
          (if \<not> is_str (dget body ''source_bundle_hash'')
           then Inr (export_malformed asserted_status errors ''export body missing source_bundle_hash'', w)
           else case dget body ''attestations'' of
             JList recs \<Rightarrow>
               (if \<not> is_dict (dget body ''kernel_verdict'')
                then Inr (export_malformed asserted_status errors ''export body missing kernel_verdict'', w)
                else if dget body ''source_bundle'' = JNull
                then Inr (wrapper_only Partial (Some EXPORT_BODY_TYPE) asserted_status
                            (errors @ [SOURCE_REF_NOTE]), w)
                else
                  (let inline = dget body ''source_bundle'';
                       (source_linkage_ok, notes) = check_source_linkage K body
                   in ebind (verify_source inline w)
                        (\<lambda>(source, w').
                           ebind (verify_attestations K recs (source_checkpoints inline))
                             (\<lambda>outcome.
                                case outcome of
                                  Inl msg \<Rightarrow> Inr (export_malformed asserted_status (errors @ notes) msg, w')
                                | Inr attestations \<Rightarrow>
                                    Inr (finish_export K b body source_linkage_ok asserted_status
                                           (errors @ notes) source attestations, w')))))
           | _ \<Rightarrow> Inr (export_malformed asserted_status errors ''export body missing attestations[]'', w))
      | _ \<Rightarrow> Inr (export_malformed asserted_status errors ''export body is not a JSON object'', w))"

lemma verify_export_body_cong [fundef_cong]:
  assumes "K = K'" and "b = b'" and "asserted = asserted'" and "errors = errors'" and "w = w'"
    and "\<And>j v. size j < size (JDict b') \<Longrightarrow> f j v = g j v"
  shows "verify_export_body f K b asserted errors w = verify_export_body g K' b' asserted' errors' w'"
proof (cases "dget b' ''body''")
  case (JDict body)
  have "f (dget body ''source_bundle'') v = g (dget body ''source_bundle'') v"
    if "dget body ''source_bundle'' \<noteq> JNull" for v
  proof -
    have "size (dget body ''source_bundle'') < size (JDict body)" using that by (rule size_dget)
    also have "\<dots> < size (JDict b')" using size_dget [of b' "''body''"] JDict by simp
    finally show ?thesis by (rule assms(6))
  qed
  then show ?thesis
    unfolding verify_export_body_def assms(1-5) by (simp add: JDict split: json.split prod.split)
qed (simp_all add: verify_export_body_def assms(1-5))

section \<open>verify_evidence_bundle\<close>

definition UNKNOWN_BODY_NOTE :: "kernel \<Rightarrow> string option \<Rightarrow> string" where
  "UNKNOWN_BODY_NOTE K body_type =
     ''body_type '' @ k_repr K (case body_type of None \<Rightarrow> JNull | Some t \<Rightarrow> JStr t)
     @ '' is not verifiable by this kernel (only '' @ ANCHOR_TRACE_BODY_TYPE
     @ ''); wrapper verified, body undetermined''"

function (sequential) verify_evidence_bundle ::
  "kernel \<Rightarrow> 'w fetch option \<Rightarrow> string list \<Rightarrow> side_input \<Rightarrow> json \<Rightarrow> 'w
     \<Rightarrow> exc + (evidence_result \<times> 'w)" where
  "verify_evidence_bundle K fetch gateways content (JDict b) w =
     (case check_wrapper K b of
        Inl result \<Rightarrow> Inr (result, w)
      | Inr (errors, asserted_status) \<Rightarrow>
          (if body_type_of b = Some EXPORT_BODY_TYPE
           then verify_export_body
                  (\<lambda>inline w. verify_evidence_bundle K fetch gateways content inline w)
                  K b asserted_status errors w
           else if body_type_of b \<noteq> Some ANCHOR_TRACE_BODY_TYPE
           then Inr (wrapper_only Partial (body_type_of b) asserted_status
                       (errors @ [UNKNOWN_BODY_NOTE K (body_type_of b)]), w)
           else verify_anchor_trace K fetch gateways content b True asserted_status errors w))"
| "verify_evidence_bundle K fetch gateways content v w =
     Inr (malformed ''evidence bundle is not a JSON object'' False, w)"
  by pat_completeness auto
termination
  by (relation "measure (\<lambda>(K, fetch, gateways, content, v, w). size v)") auto

declare verify_evidence_bundle.simps [simp del]

end
