(* ===== verification/Evidence_Spec.thy ===== *)
theory Evidence_Spec
  imports Evidence_Bundle
begin

text \<open>
  What a verified evidence bundle is, stated without the verifier: an inductive predicate over
  the bundle and the trace at its core.  The lemmas show that \<open>verify_evidence_bundle\<close>
  implements it, say when it raises and bound its recursion.
\<close>

section \<open>The wrapper\<close>

text \<open>The conditions of steps 1 and 2.\<close>

definition wrapper_valid :: "kernel \<Rightarrow> items \<Rightarrow> bool" where
  "wrapper_valid K b \<longleftrightarrow>
     depth (JDict b) \<le> MAX_CANONICAL_DEPTH
     \<and> matches_evidence_major (dget b ''spec_version'')
     \<and> (is_str (dget b ''signature_alg'') \<longrightarrow> dget b ''signature_alg'' = JStr ''ed25519'')
     \<and> dget b ''body'' \<noteq> JNull
     \<and> (\<exists>bh. canonical_hash K (dget b ''body'') = Inr bh \<and> dget b ''body_hash'' = JStr bh)
     \<and> (\<exists>m. canonical K (JDict (bundle_for_sig b)) = Inr m
          \<and> verify_signature K m (dget b ''signature'') (dget b ''public_key''))"

lemma check_body_hash_ok:
  assumes "is_str (dget b ''body_hash'')"
  shows "fst (check_body_hash K b) \<longleftrightarrow>
    (\<exists>bh. canonical_hash K (dget b ''body'') = Inr bh \<and> dget b ''body_hash'' = JStr bh)"
    and "fst (check_body_hash K b) \<Longrightarrow> snd (check_body_hash K b) = []"
proof -
  obtain s where "dget b ''body_hash'' = JStr s" using assms is_str_iff by blast
  then show "fst (check_body_hash K b) \<longleftrightarrow>
    (\<exists>bh. canonical_hash K (dget b ''body'') = Inr bh \<and> dget b ''body_hash'' = JStr bh)"
    and "fst (check_body_hash K b) \<Longrightarrow> snd (check_body_hash K b) = []"
    by (auto simp: check_body_hash_def str_or_def Let_def split: sum.splits)
qed

lemma check_wrapper_signature_ok:
  "fst (check_wrapper_signature K b) \<longleftrightarrow>
     (\<exists>m. canonical K (JDict (bundle_for_sig b)) = Inr m
        \<and> verify_signature K m (dget b ''signature'') (dget b ''public_key''))"
  "fst (check_wrapper_signature K b) \<Longrightarrow> snd (check_wrapper_signature K b) = []"
  by (auto simp: check_wrapper_signature_def Let_def split: sum.splits)

lemma check_wrapper_Inr:
  "check_wrapper K b = Inr x \<longleftrightarrow> wrapper_valid K b \<and> x = ([], asserted_status_of b)"
proof (cases "depth (JDict b) \<le> MAX_CANONICAL_DEPTH \<and> matches_evidence_major (dget b ''spec_version'')
    \<and> (is_str (dget b ''signature_alg'') \<longrightarrow> dget b ''signature_alg'' = JStr ''ed25519'')
    \<and> is_str (dget b ''public_key'') \<and> is_str (dget b ''signature'') \<and> is_str (dget b ''body_hash'')
    \<and> dget b ''body'' \<noteq> JNull")
  case True
  then have "wrapper_valid K b \<longleftrightarrow> fst (check_body_hash K b) \<and> fst (check_wrapper_signature K b)"
    unfolding wrapper_valid_def check_wrapper_signature_ok using check_body_hash_ok(1) by simp
  with True show ?thesis
    using check_body_hash_ok(2) [of b K] check_wrapper_signature_ok(2) [of K b]
    unfolding check_wrapper_def case_prod_beta Let_def by (auto simp: exceeds_depth_iff)
next
  case False
  then have "\<not> wrapper_valid K b"
    using verify_signature_strings unfolding wrapper_valid_def by auto
  with False show ?thesis unfolding check_wrapper_def by (auto simp: exceeds_depth_iff)
qed

lemma check_wrapper_Inl:
  "check_wrapper K b = Inl r \<Longrightarrow>
     (er_status r = Malformed \<or> er_status r = Failed) \<and> er_checkpoints r = [] \<and> er_events r = []
     \<and> er_export r = None \<and> \<not> er_on_chain_checked r \<and> \<not> wrapper_valid K b"
  using check_wrapper_Inr [of K b]
  by (auto simp: check_wrapper_def malformed_def case_prod_beta Let_def split: if_splits)

lemma verify_evidence_bundle_invalid:
  assumes "\<not> wrapper_valid K b"
  shows "\<exists>r. verify_evidence_bundle K fetch gateways content (JDict b) w = Inr (r, w)
     \<and> (er_status r = Malformed \<or> er_status r = Failed) \<and> er_checkpoints r = [] \<and> er_events r = []
     \<and> er_export r = None \<and> \<not> er_on_chain_checked r"
proof (cases "check_wrapper K b")
  case (Inl r)
  then show ?thesis using check_wrapper_Inl [OF Inl] by (simp add: verify_evidence_bundle.simps)
next
  case (Inr x)
  with assms show ?thesis using check_wrapper_Inr by blast
qed

lemma verify_evidence_bundle_valid:
  assumes "wrapper_valid K b"
  shows "verify_evidence_bundle K fetch gateways content (JDict b) w =
     (if body_type_of b = Some EXPORT_BODY_TYPE
      then verify_export_body (verify_evidence_bundle K fetch gateways content)
             K b (asserted_status_of b) [] w
      else if body_type_of b \<noteq> Some ANCHOR_TRACE_BODY_TYPE
      then Inr (wrapper_only Partial (body_type_of b) (asserted_status_of b)
                  [UNKNOWN_BODY_NOTE K (body_type_of b)], w)
      else verify_anchor_trace K fetch gateways content b True (asserted_status_of b) [] w)"
proof -
  have "check_wrapper K b = Inr ([], asserted_status_of b)" using assms by (simp add: check_wrapper_Inr)
  then show ?thesis by (simp add: verify_evidence_bundle.simps)
qed

lemma body_types_differ [simp]: "EXPORT_BODY_TYPE \<noteq> ANCHOR_TRACE_BODY_TYPE" "ANCHOR_TRACE_BODY_TYPE \<noteq> EXPORT_BODY_TYPE"
  by (simp_all add: EXPORT_BODY_TYPE_def ANCHOR_TRACE_BODY_TYPE_def)

section \<open>The export body\<close>

text \<open>The projection ignores the fields added to the verdict after it is built.\<close>

lemma project_as_of: "project_verdict_for_agreement (JDict (dput ''as_of'' v d)) = project_verdict_for_agreement (JDict d)"
  by (simp add: project_verdict_for_agreement_def g_field_def list_field_def)

definition agreement :: "kernel \<Rightarrow> json \<Rightarrow> evidence_result \<Rightarrow> attestation_result list \<Rightarrow> bool" where
  "agreement K kernel_verdict source attestations \<longleftrightarrow>
     (\<exists>c. canonical K (project_verdict_for_agreement kernel_verdict) = Inr c
        \<and> canonical K (project_verdict_for_agreement (JDict (build_verdict_object source attestations))) = Inr c)"

lemma check_verdict_agreement_ok:
  "fst (check_verdict_agreement K kv (build_verdict_object source as)) \<longleftrightarrow> agreement K kv source as"
  "fst (check_verdict_agreement K kv (dput ''as_of'' v (build_verdict_object source as))) \<longleftrightarrow> agreement K kv source as"
  unfolding check_verdict_agreement_def agreement_def project_as_of
  by (cases "canonical K (project_verdict_for_agreement kv)";
      cases "canonical K (project_verdict_for_agreement (JDict (build_verdict_object source as)))"; auto)+

lemma check_source_linkage_ok:
  assumes "is_str (dget body ''source_bundle_hash'')"
  shows "fst (check_source_linkage K body) \<longleftrightarrow>
    canonical_hash K (dget body ''source_bundle'') = Inr (str_or [] (dget body ''source_bundle_hash''))"
    and "fst (check_source_linkage K body) \<Longrightarrow> snd (check_source_linkage K body) = []"
  by (auto simp: check_source_linkage_def Let_def split: sum.splits)

lemma finish_export_fields:
  "er_status (finish_export K b body linked asserted errors source as) =
     export_status linked (agreement K (dget body ''kernel_verdict'') source as) source as"
  "er_checkpoints (finish_export K b body linked asserted errors source as) = er_checkpoints source"
  "er_events (finish_export K b body linked asserted errors source as) = er_events source"
  "er_on_chain_checked (finish_export K b body linked asserted errors source as) = er_on_chain_checked source"
  by (simp_all add: finish_export_def Let_def case_prod_beta check_verdict_agreement_ok)

lemma export_status_iff:
  "export_status linked agreed source as = Verified \<longleftrightarrow>
     linked \<and> agreed \<and> er_status source = Verified \<and> list_all at_ok as"
  "export_status linked agreed source as = Partial \<longleftrightarrow>
     linked \<and> agreed \<and> er_status source = Partial \<and> list_all at_ok as"
  by (cases "er_status source"; auto simp: export_status_def list_all_iff list_ex_iff)+

text \<open>The tests on the shape of an export body.\<close>

definition export_shape :: "items \<Rightarrow> items \<Rightarrow> json list \<Rightarrow> bool" where
  "export_shape b body recs \<longleftrightarrow>
     dget b ''body'' = JDict body \<and> is_str (dget body ''source_bundle_hash'')
     \<and> dget body ''attestations'' = JList recs \<and> is_dict (dget body ''kernel_verdict'')"

text \<open>The body verifier, once the shape is right and the source is inline.\<close>

lemma verify_export_body_run:
  assumes "export_shape b body recs" and "dget body ''source_bundle'' \<noteq> JNull"
  shows "verify_export_body f K b asserted errors w =
     ebind (f (dget body ''source_bundle'') w)
       (\<lambda>(source, w').
          ebind (verify_attestations K recs (source_checkpoints (dget body ''source_bundle'')))
            (\<lambda>outcome.
               case outcome of
                 Inl msg \<Rightarrow> Inr (export_malformed asserted (errors @ snd (check_source_linkage K body)) msg, w')
               | Inr as \<Rightarrow>
                   Inr (finish_export K b body (fst (check_source_linkage K body)) asserted
                          (errors @ snd (check_source_linkage K body)) source as, w')))"
  using assms unfolding export_shape_def verify_export_body_def
  by (simp add: Let_def case_prod_beta)

lemma verify_export_body_early:
  assumes "\<not> (\<exists>body recs. export_shape b body recs \<and> dget body ''source_bundle'' \<noteq> JNull)"
  shows "\<exists>r. verify_export_body f K b asserted errors w = Inr (r, w)
     \<and> (er_status r = Malformed \<or> er_status r = Partial \<and> SOURCE_REF_NOTE \<in> set (er_errors r))
     \<and> er_checkpoints r = [] \<and> er_events r = [] \<and> er_export r = None \<and> \<not> er_on_chain_checked r"
  using assms unfolding verify_export_body_def export_shape_def
  by (auto simp: export_malformed_def wrapper_only_def split: json.split)

section \<open>The abstract specification\<close>

text \<open>
  The deterministic dimensions a cached verdict has to claim for a good bundle, read off the
  parts of the bundle alone: everything positive, the content bindings as they evaluate, and
  under each checkpoint the operators of the records that name it.
\<close>

definition expected_event :: "kernel \<Rightarrow> side_input \<Rightarrow> items \<Rightarrow> json" where
  "expected_event K content ev =
     (let event_id = get_event_id (dget ev ''envelope'')
      in JDict
          [(''event_id'', JStr event_id),
           (''signature_ok'', JBool True), (''payload_bound'', JBool True), (''inclusion_ok'', JBool True),
           (''content_ok'', tristate (fst (evaluate_content K ev (fst (decode_record ev)) event_id content)))])"

definition record_tx :: "json \<Rightarrow> string" where
  "record_tx rec = str_or [] (g_field rec ''checkpoint_tx_id'')"

definition record_operator :: "json \<Rightarrow> string" where
  "record_operator rec = str_or [] (g_field (g_field rec ''payload'') ''operator'')"

definition expected_attestation :: "json \<Rightarrow> json" where
  "expected_attestation rec =
     JDict
      [(''operator'', JStr (record_operator rec)),
       (''signature_ok'', JBool True), (''operator_address_bound'', JBool True),
       (''data_hash_bound'', JBool True), (''subject_ref_ok'', JNull)]"

definition checkpoint_tx :: "items \<Rightarrow> string" where
  "checkpoint_tx cp = str_or [] (dget cp ''tx_id'')"

definition expected_checkpoint :: "json list \<Rightarrow> items \<Rightarrow> json" where
  "expected_checkpoint recs cp =
     JDict
      [(''checkpoint_tx_id'', JStr (checkpoint_tx cp)),
       (''merkle_root_ok'', JBool True),
       (''attestations'', JList (map expected_attestation
          (filter (\<lambda>rec. record_tx rec = checkpoint_tx cp) recs)))]"

definition expected_projection ::
  "kernel \<Rightarrow> side_input \<Rightarrow> items list \<Rightarrow> items list \<Rightarrow> json list \<Rightarrow> json" where
  "expected_projection K content cps evs recs =
     JDict
      [(''schema_version'', JStr VERDICT_SCHEMA_VERSION),
       (''events'', JList (map (expected_event K content) evs)),
       (''checkpoints'', JList (map (expected_checkpoint recs) cps))]"

text \<open>
  \<open>bundle_valid K content v cps evs\<close>: the bundle \<open>v\<close> is good, and the trace it is about has
  the checkpoints \<open>cps\<close> and the events \<open>evs\<close>.  An export adds one signed layer around a
  good bundle: it links to the source by hash, its cached verdict claims what is expected, and its
  attestation records are valid.
\<close>

inductive bundle_valid ::
  "kernel \<Rightarrow> side_input \<Rightarrow> json \<Rightarrow> items list \<Rightarrow> items list \<Rightarrow> bool"
  for K :: kernel and content :: side_input where
  trace:
    "bundle_valid K content (JDict b) cps evs"
    if "wrapper_valid K b" and "body_type_of b = Some ANCHOR_TRACE_BODY_TYPE"
      and "dget b ''body'' = JDict body"
      and "dget body ''checkpoints'' = JList (map JDict cps)"
      and "dget body ''events'' = JList (map JDict evs)"
      and "cps \<noteq> []" and "list_all (checkpoint_bound K) cps"
      and "list_all (event_verified K cps content) evs"
| export:
    "bundle_valid K content (JDict b) cps evs"
    if "wrapper_valid K b" and "body_type_of b = Some EXPORT_BODY_TYPE"
      and "export_shape b body recs"
      and "canonical_hash K (dget body ''source_bundle'') = Inr (str_or [] (dget body ''source_bundle_hash''))"
      and "bundle_valid K content (dget body ''source_bundle'') cps evs"
      and "list_all (attestation_valid K (source_checkpoints (dget body ''source_bundle''))) recs"
      and "canonical K (project_verdict_for_agreement (dget body ''kernel_verdict'')) = Inr c"
      and "canonical K (expected_projection K content cps evs recs) = Inr c"

lemma bundle_valid_dict: "bundle_valid K content v cps evs \<Longrightarrow> \<exists>b. v = JDict b \<and> wrapper_valid K b"
  by (induction rule: bundle_valid.induct) auto

text \<open>A result reports the good trace \<open>cps\<close>, \<open>evs\<close>.\<close>

definition reports ::
  "kernel \<Rightarrow> side_input \<Rightarrow> items list \<Rightarrow> items list \<Rightarrow> evidence_result \<Rightarrow> bool" where
  "reports K content cps evs r \<longleftrightarrow>
     map (\<lambda>e. project_event (event_entry e)) (er_events r) = map (expected_event K content) evs
     \<and> list_all2 (\<lambda>cp c. cr_tx_id c = checkpoint_tx cp \<and> cr_merkle_root_ok c) cps (er_checkpoints r)"

lemma envelope_ok_payload:
  "vr_ok (verify_envelope K v rb role legacy) \<Longrightarrow>
   vr_payload_hash_ok (verify_envelope K v rb role legacy) \<noteq> Some False"
proof -
  assume ok: "vr_ok (verify_envelope K v rb role legacy)"
  then obtain env where v: "v = JDict env" using verify_envelope_not_dict is_dict_iff by blast
  show ?thesis using ok unfolding v verify_envelope_fields by auto
qed

lemma expected_event_reported:
  assumes "event_verified K cps content ev" and "\<And>t. map_of m t = first_with_tx cps t"
  shows "project_event (event_entry (check_event K m content ev)) = expected_event K content ev"
proof -
  have b: "event_bound K cps ev"
    and p: "vr_payload_hash_ok (verify_envelope K (dget ev ''envelope'') (fst (decode_record ev)) None False) \<noteq> None"
    using assms(1) by (auto simp: event_verified_def)
  from b obtain eb where eb: "canonical K (dget ev ''envelope'') = Inr eb"
    and ok: "vr_ok (verify_envelope K (dget ev ''envelope'') (fst (decode_record ev)) None False)"
    by (auto simp: event_bound_def)
  have "ev_ok (check_event K m content ev)"
    using check_event_ok [OF eb assms(2), of content] assms(1) by (simp add: event_verified_def)
  then have "ev_inclusion_ok (check_event K m content ev)" "ev_envelope_ok (check_event K m content ev)"
    by (simp_all add: check_event_fields(6))
  moreover have "ev_payload_binding_ok (check_event K m content ev) = Some True"
    using p envelope_ok_payload [OF ok] by (auto simp: check_event_fields(1))
  moreover have "ev_event_id (check_event K m content ev) = get_event_id (dget ev ''envelope'')"
    by (simp add: check_event_def Let_def case_prod_beta)
  ultimately show ?thesis
    by (simp add: project_event_entry expected_event_def Let_def check_event_fields(2))
qed

lemma list_all2_strip:
  "map (strip_checkpoint []) crs' = map (strip_checkpoint []) crs \<Longrightarrow>
   list_all2 (\<lambda>cp c. cr_tx_id c = checkpoint_tx cp \<and> cr_merkle_root_ok c) cps crs \<Longrightarrow>
   list_all2 (\<lambda>cp c. cr_tx_id c = checkpoint_tx cp \<and> cr_merkle_root_ok c) cps crs'"
proof (induction cps arbitrary: crs crs')
  case (Cons cp cps)
  then show ?case by (cases crs; cases crs') (auto simp: strip_checkpoint_def)
qed simp

lemma trace_reports:
  assumes "verify_anchor_trace K fetch gateways content b sv asserted errors w = Inr (r, w')"
    and "dget b ''body'' = JDict body"
    and "dget body ''checkpoints'' = JList (map JDict cps)" "dget body ''events'' = JList (map JDict evs)"
    and "list_all (checkpoint_bound K) cps" "list_all (event_verified K cps content) evs"
  shows "reports K content cps evs r"
proof -
  have inj: "map JDict xs = map JDict ys \<longleftrightarrow> xs = ys" for xs ys
    by (rule inj_map_eq_map) (simp add: inj_def)
  obtain m crs u where
    c: "check_checkpoints K [] (map JDict cps) = Inr (m, crs)"
    and p: "on_chain_pass K fetch gateways m crs w = ((er_checkpoints r, u), w')"
    and ev: "er_events r = map (check_event K m content) evs"
    using trace_results [OF assms(1)] assms(2-4) by (auto simp: inj)
  obtain crs0 m0 where c0: "check_checkpoints K [] (map JDict cps) = Inr (m0, crs0)"
    "list_all2 (\<lambda>cp r. \<exists>notes. r = check_checkpoint K cp notes) cps crs0"
    "\<And>t. map_of m0 t = first_with_tx cps t" by (rule check_checkpoints_map) blast
  with c have m: "m0 = m" "crs0 = crs" by auto
  have "map (\<lambda>e. project_event (event_entry e)) (er_events r) = map (expected_event K content) evs"
    using expected_event_reported [of K cps content _ m] c0(3) assms(6)
    unfolding ev m by (simp add: list_all_iff)
  moreover have "list_all2 (\<lambda>cp c. cr_tx_id c = checkpoint_tx cp \<and> cr_merkle_root_ok c) cps crs"
  proof -
    have "cr_tx_id (check_checkpoint K cp ns) = checkpoint_tx cp
        \<and> cr_merkle_root_ok (check_checkpoint K cp ns)" if "checkpoint_bound K cp" for cp ns
      using that check_checkpoint_ok [of K cp ns] check_checkpoint_fields(1) [of K cp ns]
      by (simp add: check_checkpoint_fields(4) checkpoint_tx_def str_or_def)
    moreover have "list_all2 (\<lambda>cp r. \<exists>notes. r = check_checkpoint K cp notes) cps crs" using c0(2) m by simp
    ultimately show ?thesis
      using assms(5) by (fastforce simp: list_all2_conv_all_nth list_all_length)
  qed
  ultimately show ?thesis
    unfolding reports_def using list_all2_strip [OF on_chain_pass_strip [OF p]] by blast
qed

section \<open>Attestations of a good export\<close>

lemma finish_attestation_subject: "at_subject_ref_ok (finish_attestation K sources payload r) = None"
  by (auto simp: finish_attestation_def evaluate_subject_ref_def case_prod_beta Let_def split: json.split)

lemma finish_attestation_bound:
  "at_ok (finish_attestation K sources payload r) \<Longrightarrow> at_data_hash_bound (finish_attestation K sources payload r)"
  by (auto simp: finish_attestation_def case_prod_beta Let_def)

lemma expected_attestation_reported:
  assumes "verify_attestation K rec sources = Inr (r, None)" and "at_ok r"
  shows "project_attestation (attestation_entry r) = expected_attestation rec"
    and "at_checkpoint_tx_id r = record_tx rec"
proof -
  have "project_attestation (attestation_entry r) = expected_attestation rec \<and> at_checkpoint_tx_id r = record_tx rec"
  proof (rule verify_attestation_cases [of K rec sources])
    fix d payload pub
    assume sh: "attestation_shape rec d payload pub"
      and v: "verify_attestation K rec sources =
         check_attestation_crypto K sources d payload (JDict pub) (filled_attestation d payload)"
    obtain r0 where r: "r = finish_attestation K sources payload r0"
      and "at_operator r0 = str_or [] (dget payload ''operator'')"
      and "at_checkpoint_tx_id r0 = str_or [] (dget d ''checkpoint_tx_id'')"
      using assms(1) unfolding v
      by (auto simp: check_attestation_crypto_def catch_malformed_None Let_def split: sum.splits)
    moreover have "record_operator rec = str_or [] (dget payload ''operator'')"
      "record_tx rec = str_or [] (dget d ''checkpoint_tx_id'')"
      using sh by (simp_all add: attestation_shape_def record_operator_def record_tx_def g_field_def)
    ultimately show ?thesis
      using assms(2) finish_attestation_bound [of K sources payload r0]
      by (simp add: project_attestation_entry expected_attestation_def finish_attestation_fields
          finish_attestation_subject)
  qed (use assms(1) in simp)
  then show "project_attestation (attestation_entry r) = expected_attestation rec"
    and "at_checkpoint_tx_id r = record_tx rec" by simp_all
qed

lemma attestation_valid_returns:
  assumes "attestation_valid K sources rec"
  shows "\<exists>r. verify_attestation K rec sources = Inr (r, None)"
proof (rule verify_attestation_cases [of K rec sources])
  fix d payload pub
  assume sh: "attestation_shape rec d payload pub"
    and v: "verify_attestation K rec sources =
       check_attestation_crypto K sources d payload (JDict pub) (filled_attestation d payload)"
  from assms [unfolded attestation_valid_shape [OF sh]] show ?thesis
    unfolding v by (auto simp: check_attestation_crypto_def catch_malformed_None Let_def)
next
  fix msg r
  assume "\<And>d payload pub. \<not> attestation_shape rec d payload pub"
  with assms show ?thesis by (auto simp: attestation_valid_def)
qed

lemma attestations_valid_return:
  assumes "list_all (attestation_valid K sources) recs"
  shows "\<exists>as. verify_attestations K recs sources = Inr (Inr as) \<and> list_all at_ok as"
proof -
  have "\<exists>as. verify_attestations K recs sources = Inr (Inr as)"
    using assms
  proof (induction recs)
    case (Cons rec recs)
    then show ?case using attestation_valid_returns [of K sources rec] by auto
  qed simp
  then show ?thesis using verify_attestations_all_ok assms by blast
qed

text \<open>The projection of the verdict of a good source with good attestations.\<close>

lemma expected_projection_reported:
  assumes "reports K content cps evs source"
    and "verify_attestations K recs sources = Inr (Inr as)" and "list_all at_ok as"
  shows "project_verdict_for_agreement (JDict (build_verdict_object source as)) =
     expected_projection K content cps evs recs"
proof -
  have all: "list_all2 (\<lambda>rec a. project_attestation (attestation_entry a) = expected_attestation rec
      \<and> at_checkpoint_tx_id a = record_tx rec) recs as"
    using assms(2,3) expected_attestation_reported unfolding verify_attestations_Inr
    by (fastforce simp: list_all2_conv_all_nth list_all_length)
  have atts: "map (\<lambda>a. project_attestation (attestation_entry a)) (filter (\<lambda>a. at_checkpoint_tx_id a = t) as)
      = map expected_attestation (filter (\<lambda>rec. record_tx rec = t) recs)" for t
    using all by (induction rule: list_all2_induct) auto
  have "list_all2 (\<lambda>cp c. cr_tx_id c = checkpoint_tx cp \<and> cr_merkle_root_ok c) cps (er_checkpoints source)"
    using assms(1) by (simp add: reports_def)
  then have "map (\<lambda>c. project_checkpoint (checkpoint_entry (group_attestations [] as) c)) (er_checkpoints source)
      = map (expected_checkpoint recs) cps"
    by (induction rule: list_all2_induct)
      (auto simp: project_checkpoint_entry expected_checkpoint_def atts)
  then show ?thesis
    using assms(1) by (simp add: project_build_verdict expected_projection_def reports_def)
qed

section \<open>Refinement\<close>

text \<open>What a verified export says, in terms of the recomputed source.\<close>

lemma export_verified:
  assumes "verify_export_body f K b asserted errors w = Inr (r, w')" and "er_status r = Verified"
  shows "\<exists>body recs source as. export_shape b body recs \<and> dget body ''source_bundle'' \<noteq> JNull
     \<and> canonical_hash K (dget body ''source_bundle'') = Inr (str_or [] (dget body ''source_bundle_hash''))
     \<and> f (dget body ''source_bundle'') w = Inr (source, w') \<and> er_status source = Verified
     \<and> verify_attestations K recs (source_checkpoints (dget body ''source_bundle'')) = Inr (Inr as)
     \<and> list_all at_ok as \<and> agreement K (dget body ''kernel_verdict'') source as
     \<and> er_checkpoints r = er_checkpoints source \<and> er_events r = er_events source"
proof (cases "\<exists>body recs. export_shape b body recs \<and> dget body ''source_bundle'' \<noteq> JNull")
  case True
  then obtain body recs where sh: "export_shape b body recs" "dget body ''source_bundle'' \<noteq> JNull"
    by blast
  have h: "is_str (dget body ''source_bundle_hash'')" using sh(1) by (simp add: export_shape_def)
  obtain source w1 out where s: "f (dget body ''source_bundle'') w = Inr (source, w1)"
    "verify_attestations K recs (source_checkpoints (dget body ''source_bundle'')) = Inr out"
    using assms(1) unfolding verify_export_body_run [OF sh] by (auto simp: ebind_Inr_iff)
  with assms obtain as where as: "out = Inr as" "w' = w1"
    "r = finish_export K b body (fst (check_source_linkage K body)) asserted
           (errors @ snd (check_source_linkage K body)) source as"
    unfolding verify_export_body_run [OF sh]
    by (cases out) (auto simp: export_malformed_def wrapper_only_def)
  with assms(2) sh s h show ?thesis
    by (auto simp: finish_export_fields export_status_iff check_source_linkage_ok(1))
next
  case False
  from verify_export_body_early [OF this, of f K asserted errors w] assms show ?thesis by auto
qed

lemma confirmed_transfer:
  "er_checkpoints r = er_checkpoints source \<Longrightarrow>
   list_all2 P cps (er_checkpoints source) \<Longrightarrow> list_all2 P cps (er_checkpoints r)"
  by simp

lemma verified_is_valid:
  assumes "jcs_closed K"
    and "verify_evidence_bundle K fetch gateways content v w = Inr (r, w')"
    and "er_status r = Verified"
  shows "\<exists>cps evs. bundle_valid K content v cps evs \<and> reports K content cps evs r
     \<and> (gateways \<noteq> [] \<longrightarrow>
          list_all2 (\<lambda>cp r. is_str (dget cp ''tx_id'') \<longrightarrow> cr_on_chain_ok r = Some True) cps (er_checkpoints r))"
  using assms(2,3)
proof (induction v arbitrary: w r w' rule: measure_induct_rule [where f = size])
  case (less v)
  obtain b where v: "v = JDict b"
    using less.prems by (cases v) (auto simp: verify_evidence_bundle.simps malformed_def)
  have wf: "wrapper_valid K b"
    using verify_evidence_bundle_invalid [of K b fetch gateways content w] less.prems v by auto
  note run = less.prems(1) [unfolded v verify_evidence_bundle_valid [OF wf]]
  consider "body_type_of b = Some EXPORT_BODY_TYPE" | "body_type_of b = Some ANCHOR_TRACE_BODY_TYPE"
    using run less.prems(2) by (auto simp: wrapper_only_def split: if_splits)
  then show ?case
  proof cases
    case 1
    with run have "verify_export_body (verify_evidence_bundle K fetch gateways content)
        K b (asserted_status_of b) [] w = Inr (r, w')" by simp
    from export_verified [OF this less.prems(2)] obtain body recs source as where
      e: "export_shape b body recs" "dget body ''source_bundle'' \<noteq> JNull"
      "canonical_hash K (dget body ''source_bundle'') = Inr (str_or [] (dget body ''source_bundle_hash''))"
      "verify_evidence_bundle K fetch gateways content (dget body ''source_bundle'') w = Inr (source, w')"
      "er_status source = Verified"
      and a: "verify_attestations K recs (source_checkpoints (dget body ''source_bundle'')) = Inr (Inr as)"
      "list_all at_ok as" "agreement K (dget body ''kernel_verdict'') source as"
      and r: "er_checkpoints r = er_checkpoints source" "er_events r = er_events source" by blast
    have "size (dget body ''source_bundle'') < size (JDict body)" by (rule size_dget [OF e(2)])
    also have "\<dots> < size v"
      using size_dget [of b "''body''"] e(1) by (simp add: v export_shape_def)
    finally obtain cps evs where s: "bundle_valid K content (dget body ''source_bundle'') cps evs"
      "reports K content cps evs source"
      "gateways \<noteq> [] \<longrightarrow>
          list_all2 (\<lambda>cp r. is_str (dget cp ''tx_id'') \<longrightarrow> cr_on_chain_ok r = Some True) cps (er_checkpoints source)"
      using less.IH e(4,5) by blast
    from a(3) obtain c where c: "canonical K (project_verdict_for_agreement (dget body ''kernel_verdict'')) = Inr c"
      "canonical K (expected_projection K content cps evs recs) = Inr c"
      by (auto simp: agreement_def expected_projection_reported [OF s(2) a(1,2)])
    have "list_all (attestation_valid K (source_checkpoints (dget body ''source_bundle''))) recs"
      using verify_attestations_all_ok [OF a(1)] a(2) by simp
    from bundle_valid.export [OF wf 1 e(1,3) s(1) this c]
    have "bundle_valid K content v cps evs" by (simp add: v)
    with s r show ?thesis by (auto simp: reports_def)
  next
    case 2
    with run have t: "verify_anchor_trace K fetch gateways content b True (asserted_status_of b) [] w = Inr (r, w')"
      by simp
    obtain bb where "canonical K (dget b ''body'') = Inr bb"
      using wf by (auto simp: wrapper_valid_def canonical_hash_Inr)
    from trace_verified [OF t less.prems(2) assms(1) this] obtain body cps evs where
      p: "dget b ''body'' = JDict body" "dget body ''checkpoints'' = JList (map JDict cps)"
      "dget body ''events'' = JList (map JDict evs)" "cps \<noteq> []" "list_all (checkpoint_bound K) cps"
      "list_all (event_verified K cps content) evs"
      "gateways \<noteq> [] \<longrightarrow>
          list_all2 (\<lambda>cp r. is_str (dget cp ''tx_id'') \<longrightarrow> cr_on_chain_ok r = Some True) cps (er_checkpoints r)"
      by blast
    have "bundle_valid K content v cps evs"
      unfolding v by (rule bundle_valid.trace [OF wf 2 p(1-6)])
    with trace_reports [OF t p(1-3,5,6)] p(7) show ?thesis by blast
  qed
qed

lemma valid_is_verified:
  assumes "bundle_valid K content v cps evs"
  shows "\<exists>r. verify_evidence_bundle K fetch [] content v w = Inr (r, w) \<and> er_status r = Verified
     \<and> reports K content cps evs r"
  using assms
proof (induction rule: bundle_valid.induct)
  case (trace b body cps evs)
  from bound_trace_verifies [OF trace(3-8), where fetch = fetch and w = w and sv = True
      and asserted = "asserted_status_of b" and errors = "[]"]
  obtain r where r: "verify_anchor_trace K fetch [] content b True (asserted_status_of b) [] w = Inr (r, w)"
    "er_status r = Verified" by blast
  with trace_reports [OF r(1) trace(3-5,7,8)] show ?case
    by (simp add: verify_evidence_bundle_valid [OF trace(1)] trace(2))
next
  case (export b body recs cps evs c)
  then obtain source where
    s: "verify_evidence_bundle K fetch [] content (dget body ''source_bundle'') w = Inr (source, w)"
    "er_status source = Verified" "reports K content cps evs source" by blast
  obtain as where a: "verify_attestations K recs (source_checkpoints (dget body ''source_bundle'')) = Inr (Inr as)"
    "list_all at_ok as"
    using attestations_valid_return [OF export(6)] by blast
  have inline: "dget body ''source_bundle'' \<noteq> JNull" using bundle_valid_dict [OF export(5)] by auto
  have h: "is_str (dget body ''source_bundle_hash'')" using export(3) by (simp add: export_shape_def)
  have "agreement K (dget body ''kernel_verdict'') source as"
    using export(7,8) by (simp add: agreement_def expected_projection_reported [OF s(3) a])
  with a s inline h export(4) show ?case
    by (simp add: verify_evidence_bundle_valid [OF export(1)] export(2) verify_export_body_run [OF export(3)]
        finish_export_fields export_status_iff check_source_linkage_ok(1) reports_def)
qed

section \<open>Good bundles in the toy environment\<close>

definition toy_unsigned_bundle :: "string \<Rightarrow> json \<Rightarrow> items" where
  "toy_unsigned_bundle body_type body =
     [(''spec_version'', JStr ''ario.evidence/v1''), (''body_type'', JStr body_type), (''body'', body),
      (''body_hash'', JStr (sha256_hex toy (toy_jcs body))), (''public_key'', JStr (hex_encode toy_seed))]"

definition toy_bundle :: "string \<Rightarrow> json \<Rightarrow> items" where
  "toy_bundle body_type body =
     toy_unsigned_bundle body_type body
     @ [(''signature'', JStr (hex_encode (toy_sign toy_seed (toy_jcs (JDict (toy_unsigned_bundle body_type body))))))]"

lemma toy_bundle_fields:
  "dget (toy_bundle t body) ''body'' = body"
  "dget (toy_bundle t body) ''body_type'' = JStr t"
  "dget (toy_bundle t body) ''generated_at'' = JNull"
  by (simp_all add: toy_bundle_def toy_unsigned_bundle_def dget_simps)

lemma toy_canonical: "depth v \<le> MAX_CANONICAL_DEPTH \<Longrightarrow> canonical toy v = Inr (toy_jcs v)"
  by (simp add: canonical_def canonical_json_shallow)

lemma toy_bundle_wrapper:
  assumes "body \<noteq> JNull" and "depth body \<le> 100"
  shows "wrapper_valid toy (toy_bundle t body)"
proof -
  have d: "depth (JDict (toy_unsigned_bundle t body)) \<le> 101" "depth (JDict (toy_bundle t body)) \<le> 101"
    using assms(2) by (simp_all add: toy_bundle_def toy_unsigned_bundle_def)
  have sig: "bundle_for_sig (toy_bundle t body) = toy_unsigned_bundle t body"
    by (simp add: bundle_for_sig_def toy_bundle_def toy_unsigned_bundle_def)
  have can: "canonical toy (JDict (toy_unsigned_bundle t body)) = Inr (toy_jcs (JDict (toy_unsigned_bundle t body)))"
    "canonical toy body = Inr (toy_jcs body)"
    using d assms(2) by (simp_all only: toy_canonical MAX_CANONICAL_DEPTH_def)
  have "length (toy_sign toy_seed m) = 64" for m by (simp add: toy_sign_def)
  then have "verify_signature toy (toy_jcs (JDict (toy_unsigned_bundle t body)))
      (dget (toy_bundle t body) ''signature'') (dget (toy_bundle t body) ''public_key'')"
    by (simp add: verify_signature_iff toy_bundle_def toy_unsigned_bundle_def dget_simps fromhex_hex_encode
        del: toy_jcs.simps)
  moreover have "matches_evidence_major (JStr ''ario.evidence/v1'')"
    by (simp add: matches_evidence_major_def ACCEPTED_EVIDENCE_MAJORS_def)
  ultimately show ?thesis
    using d(2) assms(1) can(2)
    unfolding wrapper_valid_def sig can(1) toy_bundle_fields
    by (simp add: canonical_hash_def MAX_CANONICAL_DEPTH_def toy_bundle_def toy_unsigned_bundle_def dget_simps
        del: toy_jcs.simps)
qed

definition toy_trace_bundle :: "items \<Rightarrow> items \<Rightarrow> items" where
  "toy_trace_bundle env cenv =
     toy_bundle ANCHOR_TRACE_BODY_TYPE (dget (toy_trace env cenv) ''body'')"

text \<open>An export of the toy trace with one attestation of its checkpoint.\<close>

definition toy_root_of :: "items \<Rightarrow> bytes" where
  "toy_root_of env = leaf_hash toy_hash (toy_jcs (JDict env))"

definition toy_export_body :: "items \<Rightarrow> items \<Rightarrow> items" where
  "toy_export_body env cenv =
     [(''source_bundle'', JDict (toy_trace_bundle env cenv)),
      (''source_bundle_hash'', JStr (sha256_hex toy (toy_jcs (JDict (toy_trace_bundle env cenv))))),
      (''attestations'', JList [JDict (toy_attestation (JDict cenv))]),
      (''kernel_verdict'', expected_projection toy [] [toy_checkpoint cenv (toy_root_of env)] [toy_event env]
         [JDict (toy_attestation (JDict cenv))])]"

definition toy_export :: "items \<Rightarrow> items \<Rightarrow> items" where
  "toy_export env cenv = toy_bundle EXPORT_BODY_TYPE (JDict (toy_export_body env cenv))"

lemma body_type_of_toy [simp]: "body_type_of (toy_bundle t body) = Some t"
  by (simp add: body_type_of_def toy_bundle_fields)

lemma toy_trace_depth:
  assumes "depth (JDict env) \<le> 2" and "depth (JDict cenv) \<le> 1"
  shows "depth (dget (toy_trace env cenv) ''body'') \<le> 10"
  using assms unfolding toy_trace_body toy_checkpoint_def toy_event_def by simp

lemma toy_trace_bundle_valid:
  assumes "checkpoint_bound toy (toy_checkpoint cenv (toy_root_of env))"
    and "event_verified toy [toy_checkpoint cenv (toy_root_of env)] [] (toy_event env)"
    and "depth (JDict env) \<le> 2" and "depth (JDict cenv) \<le> 1"
  shows "bundle_valid toy [] (JDict (toy_trace_bundle env cenv))
     [toy_checkpoint cenv (toy_root_of env)] [toy_event env]"
  unfolding toy_trace_bundle_def
proof (rule bundle_valid.trace)
  have "depth (dget (toy_trace env cenv) ''body'') \<le> 10" by (rule toy_trace_depth [OF assms(3,4)])
  then show "wrapper_valid toy (toy_bundle ANCHOR_TRACE_BODY_TYPE (dget (toy_trace env cenv) ''body''))"
    by (intro toy_bundle_wrapper) (simp_all add: toy_trace_body)
  show "dget (toy_bundle ANCHOR_TRACE_BODY_TYPE (dget (toy_trace env cenv) ''body'')) ''body'' = JDict
        [(''checkpoints'', JList [JDict (toy_checkpoint cenv (toy_root_of env))]),
         (''events'', JList [JDict (toy_event env)])]"
    by (simp add: toy_bundle_fields toy_trace_body toy_root_of_def del: toy_jcs.simps)
qed (use assms in \<open>simp_all add: dget_simps\<close>)

lemma project_expected:
  "project_verdict_for_agreement (expected_projection K content cps evs recs) = expected_projection K content cps evs recs"
  by (simp add: project_verdict_for_agreement_def expected_projection_def g_field_def list_field_def dget_simps
      project_event_def expected_event_def project_checkpoint_def expected_checkpoint_def Let_def
      project_attestation_def expected_attestation_def o_def)

lemma toy_export_valid:
  assumes "checkpoint_bound toy (toy_checkpoint cenv (toy_root_of env))"
    and "event_verified toy [toy_checkpoint cenv (toy_root_of env)] [] (toy_event env)"
    and "depth (JDict env) \<le> 2" and "depth (JDict cenv) \<le> 1"
  shows "bundle_valid toy [] (JDict (toy_export env cenv))
     [toy_checkpoint cenv (toy_root_of env)] [toy_event env]"
  unfolding toy_export_def
proof (rule bundle_valid.export)
  let ?source = "JDict (toy_trace_bundle env cenv)"
  let ?recs = "[JDict (toy_attestation (JDict cenv))]"
  let ?proj = "expected_projection toy [] [toy_checkpoint cenv (toy_root_of env)] [toy_event env] ?recs"
  have "depth (dget (toy_trace env cenv) ''body'') \<le> 10" by (rule toy_trace_depth [OF assms(3,4)])
  then have ds: "depth ?source \<le> 20"
    by (simp add: toy_trace_bundle_def toy_bundle_def toy_unsigned_bundle_def)
  have "tristate x = JNull \<or> (\<exists>b. tristate x = JBool b)" for x by (cases x) auto
  then have "depth (tristate x) = 0" for x by (metis depth.simps(3,4))
  then have dp: "depth ?proj \<le> 10"
    by (simp add: expected_projection_def expected_event_def expected_checkpoint_def expected_attestation_def Let_def)
  have dr: "depth (JDict (toy_attestation (JDict cenv))) \<le> 10"
    by (simp add: toy_attestation_def toy_att_payload_def)
  have "depth (JDict (toy_export_body env cenv)) \<le> 30"
    using ds dp dr by (simp add: toy_export_body_def)
  then show "wrapper_valid toy (toy_bundle EXPORT_BODY_TYPE (JDict (toy_export_body env cenv)))"
    by (intro toy_bundle_wrapper) simp_all
  show "export_shape (toy_bundle EXPORT_BODY_TYPE (JDict (toy_export_body env cenv)))
      (toy_export_body env cenv) ?recs"
    by (simp add: export_shape_def toy_bundle_fields toy_export_body_def dget_simps expected_projection_def
        del: toy_jcs.simps)
  have inline: "dget (toy_export_body env cenv) ''source_bundle'' = ?source"
    by (simp add: toy_export_body_def dget_simps)
  have "canonical toy ?source = Inr (toy_jcs ?source)"
    using ds by (intro toy_canonical) (simp add: MAX_CANONICAL_DEPTH_def)
  then show "canonical_hash toy (dget (toy_export_body env cenv) ''source_bundle'') =
      Inr (str_or [] (dget (toy_export_body env cenv) ''source_bundle_hash''))"
    by (simp add: inline canonical_hash_def toy_export_body_def dget_simps str_or_def del: toy_jcs.simps)
  show "bundle_valid toy [] (dget (toy_export_body env cenv) ''source_bundle'')
      [toy_checkpoint cenv (toy_root_of env)] [toy_event env]"
    unfolding inline by (rule toy_trace_bundle_valid [OF assms])
  have "source_checkpoints ?source = [(''tx'', toy_checkpoint cenv (toy_root_of env))]"
    by (simp add: source_checkpoints_def toy_trace_bundle_def toy_bundle_fields toy_trace_body toy_root_of_def
        dget_simps del: toy_jcs.simps)
  moreover have "depth (JDict cenv) \<le> 100" using assms(4) by linarith
  ultimately obtain r where
    "verify_attestation toy (JDict (toy_attestation (JDict cenv))) (source_checkpoints ?source) = Inr (r, None)" "at_ok r"
    using toy_attestation_verifies [of "source_checkpoints ?source" "toy_checkpoint cenv (toy_root_of env)" cenv]
    by auto
  then show "list_all (attestation_valid toy (source_checkpoints
      (dget (toy_export_body env cenv) ''source_bundle''))) ?recs"
    using verify_attestation_ok unfolding inline by simp
  have can: "canonical toy ?proj = Inr (toy_jcs ?proj)"
    using dp by (intro toy_canonical) (simp add: MAX_CANONICAL_DEPTH_def)
  moreover have "dget (toy_export_body env cenv) ''kernel_verdict'' = ?proj"
    by (simp add: toy_export_body_def dget_simps)
  ultimately show "canonical toy (project_verdict_for_agreement
      (dget (toy_export_body env cenv) ''kernel_verdict'')) = Inr (toy_jcs ?proj)"
    by (simp add: project_expected del: toy_jcs.simps)
  show "canonical toy ?proj = Inr (toy_jcs ?proj)" by (rule can)
qed simp

lemma toy_export_exists:
  obtains env cenv cps evs where "bundle_valid toy [] (JDict (toy_export env cenv)) cps evs"
    and "bundle_valid toy [] (JDict (toy_trace_bundle env cenv)) cps evs"
proof -
  obtain env cenv where
    "checkpoint_bound toy (toy_checkpoint cenv (leaf_hash toy_hash (toy_jcs (JDict env))))"
    "event_verified toy [toy_checkpoint cenv (leaf_hash toy_hash (toy_jcs (JDict env)))] [] (toy_event env)"
    "depth (JDict env) \<le> 2" "depth (JDict cenv) \<le> 1" by (rule toy_parts)
  note p = this [folded toy_root_of_def]
  from toy_export_valid [OF p] toy_trace_bundle_valid [OF p] that show thesis by blast
qed

section \<open>Properties\<close>

text \<open>
  C2: what a verified bundle is.  If \<open>verify_evidence_bundle\<close> returns \<open>verified\<close>, whatever gateways
  were asked, the bundle is good in the sense of \<open>bundle_valid\<close>: every layer's signature and
  body hash check, every export layer links to its source by hash, caches a verdict that claims
  exactly the recomputed dimensions and has only valid attestations, and the trace at the core
  has bound checkpoints and verified events.  The result reports that trace, and with gateways
  every checkpoint with a transaction id was confirmed on chain.
\<close>

theorem verified_bundle_valid:
  assumes "jcs_closed K"
    and "verify_evidence_bundle K fetch gateways content v w = Inr (r, w')"
    and "er_status r = Verified"
  shows "\<exists>cps evs. bundle_valid K content v cps evs \<and> reports K content cps evs r
     \<and> (gateways \<noteq> [] \<longrightarrow>
          list_all2 (\<lambda>cp r. is_str (dget cp ''tx_id'') \<longrightarrow> cr_on_chain_ok r = Some True) cps (er_checkpoints r))"
  using assms by (rule verified_is_valid)

theorem verified_bundle_valid_witness:
  "\<exists>env cenv r cps evs.
     verify_evidence_bundle toy (None :: unit fetch option) [] [] (JDict (toy_export env cenv)) () = Inr (r, ())
     \<and> er_status r = Verified
     \<and> bundle_valid toy [] (JDict (toy_export env cenv)) cps evs \<and> reports toy [] cps evs r"
proof -
  obtain env cenv cps evs where "bundle_valid toy [] (JDict (toy_export env cenv)) cps evs"
    by (rule toy_export_exists)
  from valid_is_verified [OF this, where fetch = "None :: unit fetch option" and w = "()"] obtain r where
    r: "verify_evidence_bundle toy (None :: unit fetch option) [] [] (JDict (toy_export env cenv)) () = Inr (r, ())"
    "er_status r = Verified" by (elim exE conjE) rule
  from verified_bundle_valid [OF toy_jcs_closed r] show ?thesis
    using r by (elim exE conjE) (intro exI conjI)
qed

text \<open>
  C1: the verifier implements the specification.  Offline, a bundle is good iff
  \<open>verify_evidence_bundle\<close> returns with status \<open>verified\<close>: no good bundle is turned down, and
  the run neither raises nor touches the outside world.
\<close>

theorem bundle_refinement:
  assumes "jcs_closed K"
  shows "(\<exists>cps evs. bundle_valid K content v cps evs) \<longleftrightarrow>
     (\<exists>r. verify_evidence_bundle K fetch [] content v w = Inr (r, w) \<and> er_status r = Verified)"
proof
  assume "\<exists>cps evs. bundle_valid K content v cps evs"
  then obtain cps evs where "bundle_valid K content v cps evs" by blast
  from valid_is_verified [OF this, of fetch w]
  show "\<exists>r. verify_evidence_bundle K fetch [] content v w = Inr (r, w) \<and> er_status r = Verified"
    by blast
next
  assume "\<exists>r. verify_evidence_bundle K fetch [] content v w = Inr (r, w) \<and> er_status r = Verified"
  then obtain r where "verify_evidence_bundle K fetch [] content v w = Inr (r, w)" "er_status r = Verified"
    by blast
  from verified_is_valid [OF assms this] show "\<exists>cps evs. bundle_valid K content v cps evs" by blast
qed

theorem bundle_refinement_witness:
  "(\<exists>env cenv cps evs. bundle_valid toy [] (JDict (toy_export env cenv)) cps evs)
   \<and> \<not> (\<exists>cps evs. bundle_valid toy [] (JDict []) cps evs)"
proof -
  have "\<exists>env cenv cps evs. bundle_valid toy [] (JDict (toy_export env cenv)) cps evs"
    using toy_export_exists by metis
  moreover have "\<not> wrapper_valid toy []" by (simp add: wrapper_valid_def dget_simps)
  then have "\<not> (\<exists>r. verify_evidence_bundle toy (None :: unit fetch option) [] [] (JDict []) () = Inr (r, ())
      \<and> er_status r = Verified)"
    using verify_evidence_bundle_invalid [of toy "[]" "None :: unit fetch option" "[]" "[]" "()"] by auto
  then have "\<not> (\<exists>cps evs. bundle_valid toy [] (JDict []) cps evs)"
    using bundle_refinement [OF toy_jcs_closed, of "[]" "JDict []" "None :: unit fetch option" "()"] by simp
  ultimately show ?thesis by blast
qed

end
