(* ===== verification/Evidence_Facts.thy ===== *)
theory Evidence_Facts
  imports Evidence_Spec
begin

text \<open>
  Properties of \<open>verify_evidence_bundle\<close> beside its refinement of the specification: the
  recursion is bounded, the exceptions that escape, the parts of the bundle the result depends
  on, the invariant of its results and the fail-closed exit code.
\<close>

section \<open>The depth of the recursion\<close>

text \<open>
  The verifier with at most \<open>n\<close> nested calls; whatever would have to be done beyond them is the
  parameter \<open>beyond\<close>.
\<close>

fun verify_within ::
  "nat \<Rightarrow> (json \<Rightarrow> 'w \<Rightarrow> exc + (evidence_result \<times> 'w)) \<Rightarrow> kernel \<Rightarrow> 'w fetch option \<Rightarrow> string list
     \<Rightarrow> side_input \<Rightarrow> json \<Rightarrow> 'w \<Rightarrow> exc + (evidence_result \<times> 'w)" where
  "verify_within 0 beyond K fetch gateways content v w = beyond v w"
| "verify_within (Suc n) beyond K fetch gateways content (JDict b) w =
     (case check_wrapper K b of
        Inl result \<Rightarrow> Inr (result, w)
      | Inr (errors, asserted_status) \<Rightarrow>
          (if body_type_of b = Some EXPORT_BODY_TYPE
           then verify_export_body (verify_within n beyond K fetch gateways content)
                  K b asserted_status errors w
           else if body_type_of b \<noteq> Some ANCHOR_TRACE_BODY_TYPE
           then Inr (wrapper_only Partial (body_type_of b) asserted_status
                       (errors @ [UNKNOWN_BODY_NOTE K (body_type_of b)]), w)
           else verify_anchor_trace K fetch gateways content b True asserted_status errors w))"
| "verify_within (Suc n) beyond K fetch gateways content v w =
     Inr (malformed ''evidence bundle is not a JSON object'' False, w)"

text \<open>An inline source lies two levels below its bundle.\<close>

lemma export_source_depth:
  assumes "export_shape b body recs"
  shows "depth (dget body ''source_bundle'') + 2 \<le> depth (JDict b)" and "3 \<le> depth (JDict b)"
proof -
  have body: "depth (JDict body) < depth (JDict b)"
    using depth_dget [of b "''body''"] assms by (simp add: export_shape_def)
  with depth_dget [of body "''source_bundle''"]
  show "depth (dget body ''source_bundle'') + 2 \<le> depth (JDict b)" by linarith
  have "depth (JList recs) < depth (JDict body)"
    using depth_dget [of body "''attestations''"] assms by (simp add: export_shape_def)
  moreover have "0 < depth (JList recs)" by simp
  ultimately show "3 \<le> depth (JDict b)" using body by linarith
qed

lemma verify_export_body_source:
  assumes "\<And>body recs. export_shape b body recs \<Longrightarrow> f (dget body ''source_bundle'') = g (dget body ''source_bundle'')"
  shows "verify_export_body f K b asserted errors w = verify_export_body g K b asserted errors w"
proof (cases "\<exists>body recs. export_shape b body recs \<and> dget body ''source_bundle'' \<noteq> JNull")
  case True
  then obtain body recs where sh: "export_shape b body recs" "dget body ''source_bundle'' \<noteq> JNull" by blast
  from assms [OF sh(1)] show ?thesis by (simp only: verify_export_body_run [OF sh])
next
  case False
  then show ?thesis unfolding verify_export_body_def export_shape_def by (auto split: json.split)
qed

lemma verify_within_deep:
  "depth v \<le> 2 * n \<Longrightarrow> 0 < n \<Longrightarrow>
   verify_within n beyond K fetch gateways content v w = verify_evidence_bundle K fetch gateways content v w"
proof (induction n arbitrary: v w)
  case (Suc n)
  show ?case
  proof (cases v)
    case (JDict b)
    have eq: "verify_export_body (verify_within n beyond K fetch gateways content) K b asserted errors w
        = verify_export_body (verify_evidence_bundle K fetch gateways content) K b asserted errors w"
      for asserted errors
    proof (rule verify_export_body_source)
      fix body recs
      assume sh: "export_shape b body recs"
      from export_source_depth [OF sh] Suc.prems(1)
      have "depth (dget body ''source_bundle'') \<le> 2 * n" "0 < n" by (auto simp: JDict simp del: depth.simps)
      from Suc.IH [OF this] show "verify_within n beyond K fetch gateways content (dget body ''source_bundle'')
          = verify_evidence_bundle K fetch gateways content (dget body ''source_bundle'')"
        by (intro ext)
    qed
    show ?thesis by (simp add: JDict verify_evidence_bundle.simps eq split: sum.split)
  qed (simp_all add: verify_evidence_bundle.simps)
qed simp

lemma verify_within_enough:
  assumes "64 \<le> n"
  shows "verify_within n beyond K fetch gateways content v w = verify_evidence_bundle K fetch gateways content v w"
proof (cases "depth v \<le> MAX_CANONICAL_DEPTH")
  case True
  then show ?thesis using assms by (intro verify_within_deep) (auto simp: MAX_CANONICAL_DEPTH_def)
next
  case False
  obtain m where n: "n = Suc m" using assms by (cases n) auto
  show ?thesis
  proof (cases v)
    case (JDict b)
    with False have "\<not> wrapper_valid K b" by (simp add: wrapper_valid_def del: depth.simps)
    then obtain r where "check_wrapper K b = Inl r"
      using check_wrapper_Inr by (cases "check_wrapper K b") blast+
    then show ?thesis by (simp add: JDict n verify_evidence_bundle.simps)
  qed (simp_all add: n verify_evidence_bundle.simps)
qed

section \<open>Exceptions\<close>

text \<open>The shape of a trace body on which the trace verifier raises.\<close>

definition trace_breaks :: "items \<Rightarrow> bool" where
  "trace_breaks b \<longleftrightarrow>
     (case dget b ''body'' of
        JDict body \<Rightarrow>
          (\<exists>cps evs. dget body ''checkpoints'' = JList cps \<and> dget body ''events'' = JList evs
             \<and> \<not> (list_all is_dict cps \<and> list_all is_dict evs))
      | _ \<Rightarrow> True)"

inductive bundle_raises :: "kernel \<Rightarrow> json \<Rightarrow> bool" for K :: kernel where
  trace:
    "bundle_raises K (JDict b)"
    if "wrapper_valid K b" and "body_type_of b = Some ANCHOR_TRACE_BODY_TYPE" and "trace_breaks b"
| source:
    "bundle_raises K (JDict b)"
    if "wrapper_valid K b" and "body_type_of b = Some EXPORT_BODY_TYPE" and "export_shape b body recs"
      and "bundle_raises K (dget body ''source_bundle'')"
| attestation:
    "bundle_raises K (JDict b)"
    if "wrapper_valid K b" and "body_type_of b = Some EXPORT_BODY_TYPE" and "export_shape b body recs"
      and "dget body ''source_bundle'' \<noteq> JNull"
      and "verify_attestations K recs (source_checkpoints (dget body ''source_bundle'')) = Inl e"

inductive_simps bundle_raises_dict: "bundle_raises K (JDict b)"

lemma bundle_raises_not_dict: "bundle_raises K v \<Longrightarrow> \<exists>b. v = JDict b"
  by (induction rule: bundle_raises.induct) auto

lemma export_body_Inl:
  assumes "export_shape b body recs" and "dget body ''source_bundle'' \<noteq> JNull"
  shows "verify_export_body f K b asserted errors w = Inl e \<longleftrightarrow>
     f (dget body ''source_bundle'') w = Inl e
     \<or> (\<exists>x. f (dget body ''source_bundle'') w = Inr x)
        \<and> verify_attestations K recs (source_checkpoints (dget body ''source_bundle'')) = Inl e"
  unfolding verify_export_body_run [OF assms]
  by (cases "f (dget body ''source_bundle'') w";
      cases "verify_attestations K recs (source_checkpoints (dget body ''source_bundle''))")
    (auto split: sum.splits)

lemma export_body_raises_iff:
  assumes "export_shape b body recs" and "dget body ''source_bundle'' \<noteq> JNull"
  shows "(\<exists>e. verify_export_body f K b asserted errors w = Inl e) \<longleftrightarrow>
     (\<exists>e. f (dget body ''source_bundle'') w = Inl e)
     \<or> (\<exists>e. verify_attestations K recs (source_checkpoints (dget body ''source_bundle'')) = Inl e)"
  unfolding export_body_Inl [OF assms] by (cases "f (dget body ''source_bundle'') w") auto

lemma export_shape_unique: "export_shape b body recs \<Longrightarrow> export_shape b body' recs' \<Longrightarrow> body' = body \<and> recs' = recs"
  by (auto simp: export_shape_def)

lemma bundle_raises_cases:
  "body_type_of b = Some ANCHOR_TRACE_BODY_TYPE \<Longrightarrow>
     bundle_raises K (JDict b) \<longleftrightarrow> wrapper_valid K b \<and> trace_breaks b"
  "body_type_of b \<noteq> Some ANCHOR_TRACE_BODY_TYPE \<Longrightarrow> body_type_of b \<noteq> Some EXPORT_BODY_TYPE \<Longrightarrow>
     \<not> bundle_raises K (JDict b)"
  unfolding bundle_raises_dict by auto

lemma bundle_raises_export:
  assumes "body_type_of b = Some EXPORT_BODY_TYPE"
  shows "bundle_raises K (JDict b) \<longleftrightarrow> wrapper_valid K b
     \<and> (\<exists>body recs. export_shape b body recs \<and> dget body ''source_bundle'' \<noteq> JNull
          \<and> (bundle_raises K (dget body ''source_bundle'')
             \<or> (\<exists>e. verify_attestations K recs (source_checkpoints (dget body ''source_bundle'')) = Inl e)))"
    (is "_ \<longleftrightarrow> ?rhs")
proof
  assume "bundle_raises K (JDict b)"
  then show ?rhs
  proof cases
    case (source body recs)
    then have "dget body ''source_bundle'' \<noteq> JNull" using bundle_raises_not_dict by fastforce
    with source show ?thesis by blast
  next
    case (attestation body recs e)
    then show ?thesis by blast
  qed (use assms in simp)
next
  assume ?rhs
  then show "bundle_raises K (JDict b)"
    using assms bundle_raises.source bundle_raises.attestation by blast
qed

lemma bundle_raises_iff:
  "(\<exists>e. verify_evidence_bundle K fetch gateways content v w = Inl e) \<longleftrightarrow> bundle_raises K v"
proof (induction v arbitrary: w rule: measure_induct_rule [where f = size])
  case (less v)
  show ?case
  proof (cases "\<exists>b. v = JDict b \<and> wrapper_valid K b")
    case False
    then have "\<not> bundle_raises K v" by (auto elim: bundle_raises.cases)
    moreover have "\<exists>r. verify_evidence_bundle K fetch gateways content v w = Inr (r, w)"
    proof (cases v)
      case (JDict b)
      with False have "\<not> wrapper_valid K b" by simp
      from verify_evidence_bundle_invalid [OF this, of fetch gateways content w]
      show ?thesis unfolding JDict by (elim exE conjE) (rule exI)
    qed (simp_all add: verify_evidence_bundle.simps)
    ultimately show ?thesis by auto
  next
    case True
    then obtain b where v: "v = JDict b" and wf: "wrapper_valid K b" by blast
    note run = verify_evidence_bundle_valid [OF wf]
    consider (exp) body recs where "body_type_of b = Some EXPORT_BODY_TYPE"
        "export_shape b body recs" "dget body ''source_bundle'' \<noteq> JNull"
      | (early) "body_type_of b = Some EXPORT_BODY_TYPE"
        "\<not> (\<exists>body recs. export_shape b body recs \<and> dget body ''source_bundle'' \<noteq> JNull)"
      | (tr) "body_type_of b = Some ANCHOR_TRACE_BODY_TYPE"
      | (other) "body_type_of b \<noteq> Some EXPORT_BODY_TYPE" "body_type_of b \<noteq> Some ANCHOR_TRACE_BODY_TYPE"
      by blast
    then show ?thesis
    proof cases
      case exp
      have "size (dget body ''source_bundle'') < size v"
        using size_dget [OF exp(3)] size_dget [of b "''body''"] exp(2) by (simp add: v export_shape_def)
      note IH = less.IH [OF this, of w]
      have raises: "bundle_raises K v \<longleftrightarrow> bundle_raises K (dget body ''source_bundle'')
          \<or> (\<exists>e. verify_attestations K recs (source_checkpoints (dget body ''source_bundle'')) = Inl e)"
        using wf exp(2,3) export_shape_unique [OF exp(2)] unfolding v bundle_raises_export [OF exp(1)] by blast
      have "verify_evidence_bundle K fetch gateways content v w =
          verify_export_body (verify_evidence_bundle K fetch gateways content) K b (asserted_status_of b) [] w"
        by (simp add: v run exp(1))
      then show ?thesis by (simp only: raises export_body_raises_iff [OF exp(2,3)] IH)
    next
      case early
      have "\<not> bundle_raises K v" using early(2) unfolding v bundle_raises_export [OF early(1)] by blast
      then show ?thesis
        using verify_export_body_early [OF early(2), of "verify_evidence_bundle K fetch gateways content" K
            "asserted_status_of b" "[]" w] early(1)
        unfolding v run by auto
    next
      case tr
      then show ?thesis
        using wf unfolding v run bundle_raises_cases(1) [OF tr]
        by (simp add: verify_anchor_trace_raises_iff trace_breaks_def)
    next
      case other
      then show ?thesis using bundle_raises_cases(2) [OF other(2,1)] unfolding v run by simp
    qed
  qed
qed

lemma verify_attestations_exc:
  "verify_attestations K recs sources = Inl e \<Longrightarrow> e = ValueError \<or> e = BinasciiError"
  using verify_attestations_raises [of K recs sources e] by (auto simp: verify_attestation_raises_iff)

lemma verify_evidence_bundle_exc:
  "verify_evidence_bundle K fetch gateways content v w = Inl e \<Longrightarrow>
   e = AttributeError \<or> e = ValueError \<or> e = BinasciiError"
proof (induction v arbitrary: w rule: measure_induct_rule [where f = size])
  case (less v)
  obtain b where v: "v = JDict b"
    using less.prems by (cases v) (auto simp: verify_evidence_bundle.simps)
  have wf: "wrapper_valid K b"
    using verify_evidence_bundle_invalid [of K b fetch gateways content w] less.prems v by auto
  note run = less.prems [unfolded v verify_evidence_bundle_valid [OF wf]]
  show ?case
  proof (cases "body_type_of b = Some EXPORT_BODY_TYPE")
    case True
    with run have r: "verify_export_body (verify_evidence_bundle K fetch gateways content) K b
        (asserted_status_of b) [] w = Inl e" by simp
    then obtain body recs where sh: "export_shape b body recs" "dget body ''source_bundle'' \<noteq> JNull"
      using verify_export_body_early [of b "verify_evidence_bundle K fetch gateways content" K
          "asserted_status_of b" "[]" w] by fastforce
    have "size (dget body ''source_bundle'') < size v"
      using size_dget [OF sh(2)] size_dget [of b "''body''"] sh(1) by (simp add: v export_shape_def)
    note IH = less.IH [OF this]
    from r have "verify_evidence_bundle K fetch gateways content (dget body ''source_bundle'') w = Inl e
        \<or> verify_attestations K recs (source_checkpoints (dget body ''source_bundle'')) = Inl e"
      unfolding export_body_Inl [OF sh] by blast
    with IH verify_attestations_exc show ?thesis by blast
  next
    case False
    with run show ?thesis by (auto simp: verify_anchor_trace_raises_iff split: if_splits)
  qed
qed

section \<open>What the result depends on\<close>

definition forget_asserted :: "exc + (evidence_result \<times> 'w) \<Rightarrow> exc + (evidence_result \<times> 'w)" where
  "forget_asserted x = map_sum id (map_prod (\<lambda>r. r \<lparr> er_asserted_status := None \<rparr>) id) x"

lemma forget_asserted_simps [simp]:
  "forget_asserted (Inl e) = Inl e"
  "forget_asserted (Inr (r, w)) = Inr (r \<lparr> er_asserted_status := None \<rparr>, w)"
  by (simp_all add: forget_asserted_def)

lemma anchor_trace_asserted:
  assumes "dget b ''body'' = dget b' ''body''"
  shows "forget_asserted (verify_anchor_trace K fetch gateways content b sv asserted errors w) =
    forget_asserted (verify_anchor_trace K fetch gateways content b' sv asserted' errors w)"
proof (cases "\<exists>body cps evs. dget b' ''body'' = JDict body
    \<and> dget body ''checkpoints'' = JList cps \<and> dget body ''events'' = JList evs")
  case True
  then obtain body cps evs where l: "dget b' ''body'' = JDict body"
    "dget body ''checkpoints'' = JList cps" "dget body ''events'' = JList evs" by blast
  show ?thesis
  proof (cases "check_checkpoints K [] cps")
    case (Inr x)
    then show ?thesis
      by (cases "check_events K (fst x) content evs"; cases fetch)
        (simp_all add: verify_anchor_trace_def assms l case_prod_beta Let_def)
  qed (simp add: verify_anchor_trace_def assms l)
next
  case False
  then show ?thesis
    unfolding verify_anchor_trace_def assms by (auto simp: malformed_def split: json.split)
qed

lemma export_body_asserted:
  assumes "dget b ''body'' = dget b' ''body''" and "dget b ''generated_at'' = dget b' ''generated_at''"
  shows "forget_asserted (verify_export_body f K b asserted errors w) =
    forget_asserted (verify_export_body f K b' asserted' errors w)"
proof (cases "\<exists>body recs. export_shape b body recs \<and> dget body ''source_bundle'' \<noteq> JNull")
  case True
  then obtain body recs where sh: "export_shape b body recs" "dget body ''source_bundle'' \<noteq> JNull" by blast
  then have sh': "export_shape b' body recs" using assms(1) by (simp add: export_shape_def)
  show ?thesis
    unfolding verify_export_body_run [OF sh] verify_export_body_run [OF sh' sh(2)]
    by (cases "f (dget body ''source_bundle'') w";
        cases "verify_attestations K recs (source_checkpoints (dget body ''source_bundle''))")
      (auto simp: export_malformed_def wrapper_only_def finish_export_def assms(2) case_prod_beta Let_def
        split: sum.split)
next
  case False
  then show ?thesis
    unfolding verify_export_body_def export_shape_def assms(1)
    by (auto simp: export_malformed_def wrapper_only_def split: json.split)
qed

lemma bundle_ignores_wrapper:
  assumes "wrapper_valid K b" and "wrapper_valid K b'"
    and "dget b ''body'' = dget b' ''body''" and "dget b ''body_type'' = dget b' ''body_type''"
    and "dget b ''generated_at'' = dget b' ''generated_at''"
  shows "forget_asserted (verify_evidence_bundle K fetch gateways content (JDict b) w) =
    forget_asserted (verify_evidence_bundle K fetch gateways content (JDict b') w)"
proof -
  have t: "body_type_of b' = body_type_of b" by (simp add: body_type_of_def assms(4))
  show ?thesis
    unfolding verify_evidence_bundle_valid [OF assms(1)] verify_evidence_bundle_valid [OF assms(2)] t
    by (simp add: wrapper_only_def anchor_trace_asserted [OF assms(3), where asserted = "asserted_status_of b"
        and asserted' = "asserted_status_of b'"]
      export_body_asserted [OF assms(3,5), where asserted = "asserted_status_of b"
        and asserted' = "asserted_status_of b'"])
qed

section \<open>The invariant of results\<close>

definition checkpoint_wf :: "checkpoint_result \<Rightarrow> bool" where
  "checkpoint_wf c \<longleftrightarrow>
     (cr_ok c \<longleftrightarrow> cr_envelope_ok c \<and> cr_merkle_root_ok c \<and> cr_on_chain_ok c \<noteq> Some False)
     \<and> cr_on_chain_ok c = (case cr_on_chain c of None \<Rightarrow> None | Some oc \<Rightarrow> oc_on_chain_ok oc)"

definition event_wf :: "event_result \<Rightarrow> bool" where
  "event_wf e \<longleftrightarrow>
     (ev_ok e \<longleftrightarrow> ev_envelope_ok e \<and> ev_inclusion_ok e \<and> ev_checkpoint_bound e \<and> ev_content_ok e \<noteq> Some False)
     \<and> (ev_inclusion_ok e \<longrightarrow> ev_checkpoint_bound e)"

definition attestation_wf :: "attestation_result \<Rightarrow> bool" where
  "attestation_wf a \<longleftrightarrow>
     (at_ok a \<longleftrightarrow> at_signature_ok a \<and> at_operator_address_bound a \<and> at_data_hash_bound a
        \<and> at_checkpoint_resolved a)
     \<and> (at_data_hash_bound a \<longrightarrow> at_checkpoint_resolved a)
     \<and> at_subject_ref_ok a = None"

definition export_wf :: "status \<Rightarrow> export_result \<Rightarrow> bool" where
  "export_wf s x \<longleftrightarrow>
     xr_status x = s \<and> s \<noteq> Malformed
     \<and> dget (xr_verdict x) ''status'' = JStr (status_text s)
     \<and> list_all attestation_wf (xr_attestations x)
     \<and> (s = Failed \<longleftrightarrow> \<not> xr_source_linkage_ok x \<or> \<not> xr_verdict_agreement_ok x
          \<or> xr_source_status x = Failed \<or> xr_source_status x = Malformed \<or> \<not> list_all at_ok (xr_attestations x))
     \<and> (s = Verified \<longrightarrow> xr_source_status x = Verified)"

text \<open>A check of the bundle failed, as the result records it.\<close>

definition check_failed :: "evidence_result \<Rightarrow> bool" where
  "check_failed r \<longleftrightarrow>
     \<not> er_signature_ok r \<or> \<not> er_body_hash_ok r
     \<or> \<not> list_all cr_ok (er_checkpoints r) \<or> \<not> list_all ev_ok (er_events r)
     \<or> (case er_export r of
          None \<Rightarrow> False
        | Some x \<Rightarrow> \<not> xr_source_linkage_ok x \<or> \<not> xr_verdict_agreement_ok x
            \<or> xr_source_status x = Failed \<or> xr_source_status x = Malformed
            \<or> \<not> list_all at_ok (xr_attestations x))"

definition result_wf :: "string list \<Rightarrow> evidence_result \<Rightarrow> bool" where
  "result_wf gateways r \<longleftrightarrow>
     list_all checkpoint_wf (er_checkpoints r) \<and> list_all event_wf (er_events r)
     \<and> (er_on_chain_checked r \<longrightarrow> gateways \<noteq> [])
     \<and> (gateways = [] \<longrightarrow> list_all (\<lambda>c. cr_on_chain c = None) (er_checkpoints r))
     \<and> (er_status r = Malformed \<longrightarrow> er_checkpoints r = [] \<and> er_events r = [] \<and> er_export r = None)
     \<and> (er_status r = Verified \<longrightarrow> er_checkpoints r \<noteq> [])
     \<and> (er_status r = Verified \<or> er_status r = Partial \<longrightarrow>
          er_spec_version_ok r \<and> er_body_hash_ok r \<and> er_signature_ok r
          \<and> list_all cr_ok (er_checkpoints r) \<and> list_all ev_ok (er_events r))
     \<and> (er_status r = Failed \<longrightarrow> check_failed r)
     \<and> (case er_export r of None \<Rightarrow> True | Some x \<Rightarrow> export_wf (er_status r) x)"

lemma recheck_wf:
  assumes "recheck_checkpoint K f gws m r w = ((r', u), w')" and "checkpoint_wf r"
  shows "checkpoint_wf r'"
  using assms by (auto simp: recheck_checkpoint_def checkpoint_wf_def case_prod_beta split: option.splits)

lemma on_chain_pass_wf:
  assumes "on_chain_pass K fetch gateways m crs w = ((crs', u), w')" and "list_all checkpoint_wf crs"
  shows "list_all checkpoint_wf crs'"
proof -
  have "list_all checkpoint_wf crs'" if "recheck_checkpoints K f gateways m crs w = ((crs', u), w')" for f
    using recheck_checkpoints_all2 [OF that] assms(2)
    by (induction rule: list_all2_induct) (auto dest: recheck_wf)
  with assms show ?thesis by (auto simp: on_chain_pass_def split: if_splits option.splits)
qed

lemma check_checkpoint_wf: "checkpoint_wf (check_checkpoint K cp ns) \<and> cr_on_chain (check_checkpoint K cp ns) = None"
  by (simp add: checkpoint_wf_def check_checkpoint_def case_prod_beta Let_def)

lemma check_event_wf: "event_wf (check_event K m content ev)"
  unfolding event_wf_def check_event_fields by (auto simp: split: json.splits option.splits)

lemma trace_result_wf:
  assumes "verify_anchor_trace K fetch gateways content b True asserted [] w = Inr (r, w')"
  shows "result_wf gateways r"
  using trace_results [OF assms]
proof (elim disjE exE conjE)
  fix body cps evs m crs u
  assume t: "dget b ''body'' = JDict body" "dget body ''checkpoints'' = JList (map JDict cps)"
    "dget body ''events'' = JList (map JDict evs)" "check_checkpoints K [] (map JDict cps) = Inr (m, crs)"
    "on_chain_pass K fetch gateways m crs w = ((er_checkpoints r, u), w')"
  from verify_anchor_trace_run [OF t, where content = content and sv = True and asserted = asserted
      and errors = "[]"] assms
  have f: "er_status r = trace_status (er_checkpoints r) (er_events r) u"
    "er_events r = map (check_event K m content) evs" "er_body_hash_ok r" "er_signature_ok r"
    "er_spec_version_ok r" "er_export r = None" "er_on_chain_checked r = (gateways \<noteq> [])" by auto
  obtain m0 crs0 where c0: "check_checkpoints K [] (map JDict cps) = Inr (m0, crs0)"
    "list_all2 (\<lambda>cp r. \<exists>notes. r = check_checkpoint K cp notes) cps crs0"
    by (rule check_checkpoints_map) blast
  then have "list_all (\<lambda>c. checkpoint_wf c \<and> cr_on_chain c = None) crs0"
    using check_checkpoint_wf by (fastforce simp: list_all2_conv_all_nth list_all_length)
  with c0(1) t(4) have crs: "list_all checkpoint_wf crs" "list_all (\<lambda>c. cr_on_chain c = None) crs"
    by (simp_all add: list_all_iff)
  have "gateways = [] \<Longrightarrow> er_checkpoints r = crs" using t(5) by (simp add: on_chain_pass_def)
  moreover have "er_status r \<noteq> Malformed" unfolding f(1) by (simp add: trace_status_def Let_def)
  moreover have "list_all event_wf (er_events r)" unfolding f(2) by (simp add: list_all_iff check_event_wf)
  moreover have "er_status r = Verified \<longrightarrow> er_checkpoints r \<noteq> []"
    unfolding f(1) trace_status_verified by blast
  moreover have "er_status r \<noteq> Failed \<longrightarrow> list_all cr_ok (er_checkpoints r) \<and> list_all ev_ok (er_events r)"
    unfolding f(1) trace_status_failed by blast
  moreover have "er_status r = Failed \<longrightarrow> check_failed r"
    unfolding f(1) trace_status_failed check_failed_def by blast
  ultimately show ?thesis
    using on_chain_pass_wf [OF t(5) crs(1)] crs(2) f(3-7) unfolding result_wf_def by auto
next
  assume "er_events r = []" "er_checkpoints r = []" "er_status r = Malformed"
    "\<nexists>body cps evs. dget b ''body'' = JDict body \<and> dget body ''checkpoints'' = JList cps
              \<and> dget body ''events'' = JList evs"
  moreover from this have "r = malformed ''ario.anchor.trace/v1 body must have checkpoints[] and events[]'' True"
    using verify_anchor_trace_result [OF assms] assms unfolding verify_anchor_trace_def
    by (auto split: json.splits)
  ultimately show ?thesis by (simp add: result_wf_def malformed_def)
qed

lemma verify_attestation_wf:
  assumes "verify_attestation K rec sources = Inr (r, None)"
  shows "attestation_wf r"
proof (rule verify_attestation_cases [of K rec sources])
  fix d payload pub
  assume v: "verify_attestation K rec sources =
       check_attestation_crypto K sources d payload (JDict pub) (filled_attestation d payload)"
  obtain r0 where r: "r = finish_attestation K sources payload r0"
    using assms unfolding v
    by (auto simp: check_attestation_crypto_def catch_malformed_None Let_def split: sum.splits)
  have "snd (fst (check_data_hash K sources t payload)) \<Longrightarrow> fst (fst (check_data_hash K sources t payload))" for t
    by (auto simp: check_data_hash_def Let_def split: option.splits sum.splits)
  then show ?thesis
    using finish_attestation_subject [of K sources payload r0]
    by (auto simp: r attestation_wf_def finish_attestation_def case_prod_beta Let_def)
qed (use assms in simp)

lemma verify_attestations_wf:
  "verify_attestations K recs sources = Inr (Inr as) \<Longrightarrow> list_all attestation_wf as"
  unfolding verify_attestations_Inr
  by (induction rule: list_all2_induct) (auto intro: verify_attestation_wf)

lemma export_status_cases:
  "export_status linked agreed source as \<noteq> Malformed"
  "export_status linked agreed source as = Failed \<longleftrightarrow>
     \<not> linked \<or> \<not> agreed \<or> er_status source = Failed \<or> er_status source = Malformed \<or> \<not> list_all at_ok as"
  by (cases "er_status source"; auto simp: export_status_def list_all_iff list_ex_iff)+

lemma finish_export_wf:
  assumes "result_wf gateways source" and "list_all attestation_wf as"
  shows "result_wf gateways (finish_export K b body linked asserted errors source as)"
proof -
  let ?r = "finish_export K b body linked asserted errors source as"
  let ?ok = "agreement K (dget body ''kernel_verdict'') source as"
  have flags: "er_spec_version_ok ?r" "er_body_hash_ok ?r" "er_signature_ok ?r"
    by (simp_all add: finish_export_def Let_def case_prod_beta)
  obtain x where x: "er_export ?r = Some x" "xr_status x = export_status linked ?ok source as"
    "dget (xr_verdict x) ''status'' = JStr (status_text (export_status linked ?ok source as))"
    "xr_attestations x = as" "xr_source_linkage_ok x = linked" "xr_verdict_agreement_ok x = ?ok"
    "xr_source_status x = er_status source"
    by (simp add: finish_export_def Let_def case_prod_beta check_verdict_agreement_ok)
  have "export_wf (er_status ?r) x"
    unfolding export_wf_def finish_export_fields x(2-7)
    by (simp add: export_status_cases assms(2) export_status_iff)
  moreover from this x(1) have "er_status ?r = Failed \<longrightarrow> check_failed ?r"
    by (auto simp: export_wf_def check_failed_def)
  moreover have "er_status ?r = Verified \<Longrightarrow> er_status source = Verified"
    "er_status ?r = Partial \<Longrightarrow> er_status source = Partial" "er_status ?r \<noteq> Malformed"
    by (simp_all add: finish_export_fields export_status_iff export_status_cases)
  ultimately show ?thesis
    using assms(1) flags x(1) unfolding result_wf_def finish_export_fields(2-4) by auto
qed

lemma flat_result_wf:
  "er_checkpoints r = [] \<Longrightarrow> er_events r = [] \<Longrightarrow> er_export r = None \<Longrightarrow> \<not> er_on_chain_checked r \<Longrightarrow>
   er_status r \<noteq> Verified \<Longrightarrow>
   (er_status r = Partial \<Longrightarrow> er_spec_version_ok r \<and> er_body_hash_ok r \<and> er_signature_ok r) \<Longrightarrow>
   (er_status r = Failed \<Longrightarrow> check_failed r) \<Longrightarrow> result_wf gateways r"
  by (simp add: result_wf_def)

lemma check_wrapper_failed: "check_wrapper K b = Inl r \<Longrightarrow> er_status r = Failed \<Longrightarrow> check_failed r"
  by (auto simp: check_wrapper_def malformed_def check_failed_def case_prod_beta Let_def split: if_splits)

lemma verify_export_body_early_flags:
  assumes "\<not> (\<exists>body recs. export_shape b body recs \<and> dget body ''source_bundle'' \<noteq> JNull)"
  shows "verify_export_body f K b asserted errors w = Inr (r, w') \<Longrightarrow>
     er_spec_version_ok r \<and> er_body_hash_ok r \<and> er_signature_ok r"
  using assms unfolding verify_export_body_def export_shape_def
  by (auto simp: export_malformed_def wrapper_only_def split: json.splits if_splits)

lemma result_wf_bundle:
  "verify_evidence_bundle K fetch gateways content v w = Inr (r, w') \<Longrightarrow> result_wf gateways r"
proof (induction v arbitrary: w r w' rule: measure_induct_rule [where f = size])
  case (less v)
  show ?case
  proof (cases "\<exists>b. v = JDict b \<and> wrapper_valid K b")
    case False
    have "er_checkpoints r = [] \<and> er_events r = [] \<and> er_export r = None \<and> \<not> er_on_chain_checked r
        \<and> (er_status r = Malformed \<or> er_status r = Failed \<and> check_failed r)"
    proof (cases v)
      case (JDict b)
      with False have "\<not> wrapper_valid K b" by simp
      then obtain r' where "check_wrapper K b = Inl r'"
        using check_wrapper_Inr by (cases "check_wrapper K b") blast+
      with check_wrapper_Inl [OF this] check_wrapper_failed [OF this] less.prems
      show ?thesis unfolding JDict by (auto simp: verify_evidence_bundle.simps)
    qed (use less.prems in \<open>auto simp: verify_evidence_bundle.simps malformed_def\<close>)
    then show ?thesis by (intro flat_result_wf) auto
  next
    case True
    then obtain b where v: "v = JDict b" and wf: "wrapper_valid K b" by blast
    note run = less.prems [unfolded v verify_evidence_bundle_valid [OF wf]]
    consider (exp) body recs where "body_type_of b = Some EXPORT_BODY_TYPE"
        "export_shape b body recs" "dget body ''source_bundle'' \<noteq> JNull"
      | (early) "body_type_of b = Some EXPORT_BODY_TYPE"
        "\<not> (\<exists>body recs. export_shape b body recs \<and> dget body ''source_bundle'' \<noteq> JNull)"
      | (tr) "body_type_of b = Some ANCHOR_TRACE_BODY_TYPE"
      | (other) "body_type_of b \<noteq> Some EXPORT_BODY_TYPE" "body_type_of b \<noteq> Some ANCHOR_TRACE_BODY_TYPE"
      by blast
    then show ?thesis
    proof cases
      case exp
      have "size (dget body ''source_bundle'') < size v"
        using size_dget [OF exp(3)] size_dget [of b "''body''"] exp(2) by (simp add: v export_shape_def)
      note IH = less.IH [OF this]
      have e: "verify_export_body (verify_evidence_bundle K fetch gateways content) K b
          (asserted_status_of b) [] w = Inr (r, w')" using run exp(1) by simp
      obtain source w1 out where s:
        "verify_evidence_bundle K fetch gateways content (dget body ''source_bundle'') w = Inr (source, w1)"
        "verify_attestations K recs (source_checkpoints (dget body ''source_bundle'')) = Inr out"
        using e unfolding verify_export_body_run [OF exp(2,3)] by (auto simp: ebind_Inr_iff)
      show ?thesis
      proof (cases out)
        case (Inl msg)
        with e s have "r = export_malformed (asserted_status_of b) ([] @ snd (check_source_linkage K body)) msg"
          unfolding verify_export_body_run [OF exp(2,3)] by simp
        then show ?thesis by (intro flat_result_wf) (simp_all add: export_malformed_def wrapper_only_def)
      next
        case (Inr as)
        with e s have r: "r = finish_export K b body (fst (check_source_linkage K body)) (asserted_status_of b)
            ([] @ snd (check_source_linkage K body)) source as"
          unfolding verify_export_body_run [OF exp(2,3)] by simp
        show ?thesis
          unfolding r by (rule finish_export_wf [OF IH [OF s(1)] verify_attestations_wf [OF s(2) [unfolded Inr]]])
      qed
    next
      case early
      have e: "verify_export_body (verify_evidence_bundle K fetch gateways content) K b
          (asserted_status_of b) [] w = Inr (r, w')" using run early(1) by simp
      from verify_export_body_early [OF early(2), of "verify_evidence_bundle K fetch gateways content" K
          "asserted_status_of b" "[]" w] e verify_export_body_early_flags [OF early(2) e]
      show ?thesis by (intro flat_result_wf) auto
    next
      case tr
      with run show ?thesis using trace_result_wf by simp
    next
      case other
      with run show ?thesis by (intro flat_result_wf) (auto simp: wrapper_only_def)
    qed
  qed
qed

section \<open>Properties\<close>

text \<open>
  C7: 64 nested calls are enough.  Whatever would be done at the call beyond them, it is never
  reached: every level of nesting takes two of the 128 levels the depth guard allows, so
  \<open>verify_evidence_bundle\<close> ends within 64 activations of itself on every input.
\<close>

theorem recursion_bounded:
  "verify_within 64 beyond K fetch gateways content v w =
     verify_evidence_bundle K fetch gateways content v w"
  by (rule verify_within_enough) simp

text \<open>
  C6: exactly when the entry point raises.  \<open>verify_evidence_bundle\<close> raises iff, behind valid
  wrappers all the way down, a trace body or one of its checkpoints or events is no dict, or an
  attestation list raises; whether it does depends on the bundle alone, not on the content, the
  gateways or the world, and the exception is one of three classes.
\<close>

theorem bundle_exceptions:
  "case verify_evidence_bundle K fetch gateways content v w of
     Inl e \<Rightarrow> bundle_raises K v \<and> e \<in> {AttributeError, ValueError, BinasciiError}
   | Inr _ \<Rightarrow> \<not> bundle_raises K v"
proof (cases "verify_evidence_bundle K fetch gateways content v w")
  case (Inl e)
  then show ?thesis
    using verify_evidence_bundle_exc [OF Inl] bundle_raises_iff [of K fetch gateways content v w] by auto
next
  case (Inr x)
  then show ?thesis using bundle_raises_iff [of K fetch gateways content v w] by simp
qed

text \<open>
  C5: the producer's claims are not trusted.  Two bundles with valid wrappers and the same body,
  body type and \<open>generated_at\<close> get the same result and leave the same world, but for the
  displayed \<open>asserted_status\<close>: the producer's verdict, its signature, its key and every other
  field of the wrapper have no influence.
\<close>

theorem asserted_verdict_ignored:
  assumes "wrapper_valid K b" and "wrapper_valid K b'"
    and "dget b ''body'' = dget b' ''body''" and "dget b ''body_type'' = dget b' ''body_type''"
    and "dget b ''generated_at'' = dget b' ''generated_at''"
  shows "forget_asserted (verify_evidence_bundle K fetch gateways content (JDict b) w) =
    forget_asserted (verify_evidence_bundle K fetch gateways content (JDict b') w)"
  using assms by (rule bundle_ignores_wrapper)

definition toy_claiming :: items where
  "toy_claiming =
     (let unsigned = toy_unsigned_bundle ''other'' (JDict [])
            @ [(''verdict'', JDict [(''status'', JStr ''verified'')])]
      in unsigned @ [(''signature'', JStr (hex_encode (toy_sign toy_seed (toy_jcs (JDict unsigned)))))])"

lemma toy_claiming_fields:
  "dget toy_claiming ''body'' = JDict []" "dget toy_claiming ''body_type'' = JStr ''other''"
  "dget toy_claiming ''generated_at'' = JNull"
  "asserted_status_of toy_claiming = Some ''verified''"
  by (simp_all add: toy_claiming_def toy_unsigned_bundle_def Let_def dget_simps asserted_status_of_def)

lemma toy_claiming_wrapper: "wrapper_valid toy toy_claiming"
proof -
  let ?u = "toy_unsigned_bundle ''other'' (JDict []) @ [(''verdict'', JDict [(''status'', JStr ''verified'')])]"
  have sig: "bundle_for_sig toy_claiming = ?u"
    by (simp add: bundle_for_sig_def toy_claiming_def toy_unsigned_bundle_def Let_def)
  have d: "depth (JDict ?u) \<le> 10" "depth (JDict toy_claiming) \<le> 10"
    by (simp_all add: toy_claiming_def toy_unsigned_bundle_def Let_def)
  have can: "canonical toy (JDict ?u) = Inr (toy_jcs (JDict ?u))"
    using d(1) by (intro toy_canonical) (simp add: MAX_CANONICAL_DEPTH_def)
  have body: "canonical toy (JDict []) = Inr (toy_jcs (JDict []))"
    by (intro toy_canonical) (simp add: MAX_CANONICAL_DEPTH_def)
  have "length (toy_sign toy_seed m) = 64" for m by (simp add: toy_sign_def)
  then have "verify_signature toy (toy_jcs (JDict ?u))
      (dget toy_claiming ''signature'') (dget toy_claiming ''public_key'')"
    by (simp add: verify_signature_iff toy_claiming_def toy_unsigned_bundle_def dget_simps fromhex_hex_encode
        Let_def del: toy_jcs.simps)
  moreover have "matches_evidence_major (JStr ''ario.evidence/v1'')"
    by (simp add: matches_evidence_major_def ACCEPTED_EVIDENCE_MAJORS_def)
  ultimately show ?thesis
    using d(2) unfolding wrapper_valid_def sig can toy_claiming_fields
    by (simp add: canonical_hash_def body MAX_CANONICAL_DEPTH_def toy_claiming_def toy_unsigned_bundle_def
        dget_simps Let_def del: toy_jcs.simps)
qed

theorem asserted_verdict_ignored_witness:
  "asserted_status_of toy_claiming = Some ''verified''
   \<and> asserted_status_of (toy_bundle ''other'' (JDict [])) = None
   \<and> forget_asserted (verify_evidence_bundle toy (None :: unit fetch option) [] [] (JDict toy_claiming) ())
     = forget_asserted (verify_evidence_bundle toy None [] [] (JDict (toy_bundle ''other'' (JDict []))) ())"
proof -
  have "wrapper_valid toy (toy_bundle ''other'' (JDict []))" by (rule toy_bundle_wrapper) simp_all
  from asserted_verdict_ignored [OF toy_claiming_wrapper this,
      where fetch = "None :: unit fetch option" and gateways = "[]" and content = "[]" and w = "()"]
  have "forget_asserted (verify_evidence_bundle toy (None :: unit fetch option) [] [] (JDict toy_claiming) ())
     = forget_asserted (verify_evidence_bundle toy None [] [] (JDict (toy_bundle ''other'' (JDict []))) ())"
    by (simp add: toy_claiming_fields toy_bundle_fields)
  moreover have "asserted_status_of (toy_bundle ''other'' (JDict [])) = None"
    by (simp add: asserted_status_of_def toy_bundle_def toy_unsigned_bundle_def dget_simps)
  ultimately show ?thesis using toy_claiming_fields(4) by blast
qed

text \<open>
  C4: the invariant of every returned result.  The \<open>ok\<close> of each checkpoint, event and
  attestation is the conjunction of its dimensions; offline no checkpoint carries an on-chain
  finding; a malformed result is empty; \<open>verified\<close> and \<open>partial\<close> need a verified wrapper and no
  failed part, \<open>failed\<close> needs a failed check; and the export part agrees with the status, in its
  verdict object too.
\<close>

theorem result_invariant:
  "case verify_evidence_bundle K fetch gateways content v w of
     Inl e \<Rightarrow> True
   | Inr (r, w') \<Rightarrow> result_wf gateways r"
  using result_wf_bundle [of K fetch gateways content v w]
  by (auto split: sum.split prod.split)

text \<open>
  C3: fail closed.  The exit code of a returned result is 1 iff it is not malformed and some check
  failed: the wrapper, a checkpoint, an event, and for an export the linkage, the agreement, the
  recomputed source or an attestation.  Neither an outage nor a withheld record nor a claim of
  the producer turns a failure into another code.
\<close>

theorem bundle_fail_closed:
  "case verify_evidence_bundle K fetch gateways content v w of
     Inl e \<Rightarrow> True
   | Inr (r, w') \<Rightarrow> exit_code r = 1 \<longleftrightarrow> er_status r \<noteq> Malformed \<and> check_failed r"
proof (cases "verify_evidence_bundle K fetch gateways content v w")
  case (Inr x)
  obtain r w' where x: "x = (r, w')" by (cases x)
  have wf: "result_wf gateways r" by (rule result_wf_bundle [OF Inr [unfolded x]])
  have "\<not> check_failed r" if s: "er_status r = Verified \<or> er_status r = Partial"
  proof -
    from wf s have p: "er_signature_ok r" "er_body_hash_ok r" "list_all cr_ok (er_checkpoints r)"
      "list_all ev_ok (er_events r)"
      and x: "case er_export r of None \<Rightarrow> True | Some x \<Rightarrow> export_wf (er_status r) x"
      by (simp_all only: result_wf_def)
    from s have "er_status r \<noteq> Failed" by auto
    with x p show ?thesis by (cases "er_export r") (simp_all add: check_failed_def export_wf_def)
  qed
  moreover have "er_status r = Failed \<Longrightarrow> check_failed r" using wf by (simp add: result_wf_def)
  ultimately have "exit_code r = 1 \<longleftrightarrow> er_status r \<noteq> Malformed \<and> check_failed r"
    by (cases "er_status r") (auto simp: exit_code_def)
  with Inr x show ?thesis by simp
qed simp

end
