(* ===== verification/Vectors.thy ===== *)
theory Vectors
  imports Evidence_Types
begin

text \<open>
  The generator of the conformance corpus, \<open>tools/gen-vectors/gen_vectors.py\<close>: its own envelope
  signing and its own RFC 9162 tree, written a second time and independently of the kernel, and
  the checkpoint windows built from them.  It calls \<open>jcs.canonicalize\<close> directly, without the
  depth guard.  The lemmas compare it with the kernel.
\<close>

section \<open>Python dicts\<close>

text \<open>\<open>d[k]\<close> and \<open>d.pop(k, None)\<close>.\<close>

fun py_item :: "json \<Rightarrow> string \<Rightarrow> exc + json" where
  "py_item (JDict d) k = (if has_key k d then Inr (dget d k) else Inl KeyError)"
| "py_item v k = Inl TypeError"

definition dpop :: "string \<Rightarrow> items \<Rightarrow> items" where
  "dpop k d = filter (\<lambda>(k', v). k' \<noteq> k) d"

lemma dget_dpop [simp]: "dget (dpop k d) k' = (if k' = k then JNull else dget d k')"
  unfolding dpop_def by (subst dget_filter) simp

lemma has_key_dpop [simp]: "has_key k' (dpop k d) \<longleftrightarrow> k' \<noteq> k \<and> has_key k' d"
  by (auto simp: has_key_def dpop_def map_of_filter_key)

lemma dpop_id: "\<not> has_key k d \<Longrightarrow> dpop k d = d"
  by (force simp: dpop_def has_key_def map_of_eq_None_iff intro!: filter_True)

section \<open>Envelope vectors\<close>

definition FIXED_SEED_HEX :: string where
  "FIXED_SEED_HEX =
     concat (replicate 4 ''0123456789abcdef'')"

text \<open>The envelope that is signed: payload hash and key filled in, no signature.\<close>

definition vector_scope :: "kernel \<Rightarrow> items \<Rightarrow> string \<Rightarrow> bytes \<Rightarrow> items" where
  "vector_scope K envelope_pre_signature payload_hash seed =
     dpop ''signature''
       (dput ''public_key'' (JStr (hex_encode (k_ed_public K seed)))
         (dput ''payload_hash'' (JStr payload_hash) envelope_pre_signature))"

definition fixed_keypair :: "kernel \<Rightarrow> string \<Rightarrow> bytes \<Rightarrow> json" where
  "fixed_keypair K seed_hex seed =
     JDict [(''ed25519_seed_hex'', JStr seed_hex),
            (''ed25519_public_hex'', JStr (hex_encode (k_ed_public K seed)))]"

definition sign_envelope_vector ::
  "kernel \<Rightarrow> string \<Rightarrow> string \<Rightarrow> items \<Rightarrow> string \<Rightarrow> exc + items" where
  "sign_envelope_vector K vector_id description envelope_pre_signature seed_hex =
     ebind (signing_key_from_seed_hex seed_hex)
       (\<lambda>seed. ebind (py_item (JDict envelope_pre_signature) ''payload'')
         (\<lambda>payload. ebind (k_jcs K payload)
           (\<lambda>payload_jcs.
              let payload_hash = sha256_hex K payload_jcs;
                  env = vector_scope K envelope_pre_signature payload_hash seed
              in ebind (k_jcs K (JDict env))
                (\<lambda>env_for_sig_jcs.
                   let signature = hex_encode (k_ed_sign K seed env_for_sig_jcs)
                   in Inr
                    [(''vector_id'', JStr vector_id),
                     (''description'', JStr description),
                     (''spec_version'', JStr ''ario.agent/v1''),
                     (''fixed_keypair'', fixed_keypair K seed_hex seed),
                     (''inputs'', JDict [(''envelope_pre_signature'', JDict envelope_pre_signature)]),
                     (''expected_outputs'', JDict
                       [(''payload_jcs_bytes_hex'', JStr (hex_encode payload_jcs)),
                        (''payload_hash_hex'', JStr payload_hash),
                        (''envelope_for_sig_jcs_bytes_hex'', JStr (hex_encode env_for_sig_jcs)),
                        (''signature_hex'', JStr signature)])]))))"

section \<open>Trees\<close>

definition vec_leaf_hash :: "kernel \<Rightarrow> json \<Rightarrow> exc + bytes" where
  "vec_leaf_hash K leaf_obj = ebind (k_jcs K leaf_obj) (\<lambda>b. Inr (k_sha256 K (0x00 # b)))"

definition vec_node_hash :: "kernel \<Rightarrow> bytes \<Rightarrow> bytes \<Rightarrow> bytes" where
  "vec_node_hash K left right = k_sha256 K ((0x01 # left) @ right)"

function vec_pow2_loop :: "nat \<Rightarrow> nat \<Rightarrow> nat" where
  "vec_pow2_loop n k = (if 0 < k \<and> k * 2 < n then vec_pow2_loop n (k * 2) else k)"
  by pat_completeness auto
termination
  by (relation "measure (\<lambda>(n, k). n - k)") auto

declare vec_pow2_loop.simps [simp del]

definition vec_largest_pow2_less_than :: "nat \<Rightarrow> nat" where
  "vec_largest_pow2_less_than n = (if n < 2 then 0 else vec_pow2_loop n 1)"

lemma vec_pow2_loop_eq: "vec_pow2_loop n k = pow2_loop n k"
proof (induction n k rule: vec_pow2_loop.induct)
  case (1 n k)
  then show ?case by (subst vec_pow2_loop.simps, subst pow2_loop.simps) simp
qed

lemma vec_largest_pow2_eq: "vec_largest_pow2_less_than n = largest_pow2_less_than n"
  by (simp add: vec_largest_pow2_less_than_def largest_pow2_less_than_def vec_pow2_loop_eq)

function mth :: "kernel \<Rightarrow> bytes list \<Rightarrow> bytes" where
  "mth K leaf_hashes =
     (let n = length leaf_hashes
      in if n = 0 then k_sha256 K []
         else if n = 1 then leaf_hashes ! 0
         else let k = vec_largest_pow2_less_than n
              in vec_node_hash K (mth K (take k leaf_hashes)) (mth K (drop k leaf_hashes)))"
  by pat_completeness auto
termination
  by (relation "measure (\<lambda>(K, xs). length xs)") (auto simp: vec_largest_pow2_eq split_decreases)

declare mth.simps [simp del]

text \<open>
  The generator's \<open>audit_path\<close> has no range check.  On the empty list it would call itself
  for ever, which Python ends with \<open>RecursionError\<close>; an index past the end takes the last
  branch at every level, a negative one the first.
\<close>

function vec_audit_path :: "kernel \<Rightarrow> int \<Rightarrow> bytes list \<Rightarrow> exc + bytes list" where
  "vec_audit_path K m leaf_hashes =
     (let n = length leaf_hashes
      in if n = 0 then Inl (LibraryError ''RecursionError'')
         else if n = 1 then Inr []
         else let k = vec_largest_pow2_less_than n
              in if m < int k
                 then ebind (vec_audit_path K m (take k leaf_hashes))
                        (\<lambda>p. Inr (p @ [mth K (drop k leaf_hashes)]))
                 else ebind (vec_audit_path K (m - int k) (drop k leaf_hashes))
                        (\<lambda>p. Inr (p @ [mth K (take k leaf_hashes)])))"
  by pat_completeness auto
termination
  by (relation "measure (\<lambda>(K, m, xs). length xs)") (auto simp: vec_largest_pow2_eq split_decreases)

declare vec_audit_path.simps [simp del]

text \<open>\<open>sorted({0, n // 2, n - 1})\<close> for three leaves or more.\<close>

definition proof_indices :: "nat \<Rightarrow> int list" where
  "proof_indices n =
     (if n = 1 then [0]
      else if n = 2 then [0, 1]
      else sorted_list_of_set {0, int (n div 2), int n - 1})"

definition inclusion_proof :: "kernel \<Rightarrow> bytes list \<Rightarrow> int \<Rightarrow> exc + json" where
  "inclusion_proof K hashes i =
     ebind (vec_audit_path K i hashes)
       (\<lambda>path. Inr (JDict [(''leaf_index'', JInt i),
          (''audit_path_hex'', JList (map (\<lambda>h. JStr (hex_encode h)) path))]))"

definition merkle_tree_vector :: "kernel \<Rightarrow> string \<Rightarrow> string \<Rightarrow> json list \<Rightarrow> exc + items" where
  "merkle_tree_vector K vector_id description leaf_objects =
     ebind (emap (vec_leaf_hash K) leaf_objects)
       (\<lambda>hashes.
          let root = mth K hashes;
              leaves_with_hashes =
                map (\<lambda>(lo, h). JDict [(''leaf_object'', lo), (''leaf_hash_hex'', JStr (hex_encode h))])
                  (zip leaf_objects hashes);
              n = length leaf_objects
          in ebind (emap (inclusion_proof K hashes) (proof_indices n))
               (\<lambda>proofs. Inr
                 [(''vector_id'', JStr vector_id),
                  (''description'', JStr description),
                  (''leaf_count'', JInt (int n)),
                  (''leaves'', JList leaves_with_hashes),
                  (''expected_root_hex'', JStr (hex_encode root)),
                  (''inclusion_proofs'', JList proofs)]))"

section \<open>The two tree implementations agree\<close>

lemma vec_node_hash_eq: "vec_node_hash K = node_hash (k_sha256 K)"
  by (intro ext) (simp add: vec_node_hash_def node_hash_def)

lemma mth_eq: "mth K hs = merkle_root (k_sha256 K) hs"
proof (induction K hs rule: mth.induct)
  case (1 K hs)
  then show ?case
    by (subst mth.simps, subst merkle_root.simps)
      (simp add: Let_def vec_node_hash_eq vec_largest_pow2_eq)
qed

lemma vec_audit_path_eq:
  "hs \<noteq> [] \<Longrightarrow> vec_audit_path K m hs = Inr (audit_path_rec (k_sha256 K) (nat m) hs)"
proof (induction K m hs rule: vec_audit_path.induct)
  case (1 K m hs)
  show ?case
  proof (cases "length hs = 1")
    case True
    then show ?thesis by (subst vec_audit_path.simps, subst audit_path_rec.simps) simp
  next
    case False
    with "1.prems" have n: "2 \<le> length hs" by (cases hs) (auto simp: Suc_le_eq)
    let ?k = "largest_pow2_less_than (length hs)"
    from largest_pow2_bounds [OF n] have k: "0 < ?k" "?k < length hs" .
    show ?thesis
    proof (cases "m < int ?k")
      case True
      then have "nat m < ?k" using k by linarith
      moreover have "vec_audit_path K m (take ?k hs) = Inr (audit_path_rec (k_sha256 K) (nat m) (take ?k hs))"
        using "1.IH"(1) [of "length hs" ?k] "1.prems" False True k by (simp add: vec_largest_pow2_eq)
      ultimately show ?thesis
        using False True n "1.prems"
        by (subst vec_audit_path.simps, subst audit_path_rec.simps)
          (simp add: Let_def vec_largest_pow2_eq mth_eq)
    next
      case ge: False
      then have "\<not> nat m < ?k" "nat (m - int ?k) = nat m - ?k" using k by linarith+
      moreover have "vec_audit_path K (m - int ?k) (drop ?k hs)
          = Inr (audit_path_rec (k_sha256 K) (nat (m - int ?k)) (drop ?k hs))"
        using "1.IH"(2) [of "length hs" ?k] "1.prems" False ge k by (simp add: vec_largest_pow2_eq)
      ultimately show ?thesis
        using False ge n "1.prems"
        by (subst vec_audit_path.simps, subst audit_path_rec.simps)
          (simp add: Let_def vec_largest_pow2_eq mth_eq)
    qed
  qed
qed

lemma vec_leaf_hash_eq: "vec_leaf_hash K v = map_sum id (leaf_hash (k_sha256 K)) (k_jcs K v)"
  by (cases "k_jcs K v") (simp_all add: vec_leaf_hash_def leaf_hash_def)

lemma proof_indices_range:
  assumes "0 < n" and "i \<in> set (proof_indices n)"
  shows "0 \<le> i \<and> i < int n"
  using assms by (auto simp: proof_indices_def split: if_splits)

text \<open>
  What the conformance tests do with one proof of a tree vector: decode the leaf hash at its
  index, the path and the root, and call the kernel's \<open>verify_inclusion\<close>.
\<close>

definition vector_proof_accepted :: "kernel \<Rightarrow> items \<Rightarrow> json \<Rightarrow> bool" where
  "vector_proof_accepted K v p \<longleftrightarrow>
     (\<exists>d i n leaves leaf hs path root.
        p = JDict d \<and> dget d ''leaf_index'' = JInt i \<and> 0 \<le> i
        \<and> dget v ''leaf_count'' = JInt n
        \<and> dget v ''leaves'' = JList leaves \<and> nat i < length leaves \<and> leaves ! nat i = JDict leaf
        \<and> dget d ''audit_path_hex'' = JList hs
        \<and> emap hex_value_to_bytes hs = Inr path
        \<and> hex_value_to_bytes (dget v ''expected_root_hex'') = Inr root
        \<and> (\<exists>h. hex_value_to_bytes (dget leaf ''leaf_hash_hex'') = Inr h
             \<and> verify_inclusion (k_sha256 K) h i n path root))"

lemma inclusion_proof_accepted:
  assumes "0 \<le> i" and "nat i < length hashes" and "inclusion_proof K hashes i = Inr p"
    and "dget v ''leaf_count'' = JInt (int (length hashes))"
    and "dget v ''leaves'' = JList leaves" and "length leaves = length hashes"
    and "leaves ! nat i = JDict leaf" and "dget leaf ''leaf_hash_hex'' = JStr (hex_encode (hashes ! nat i))"
    and "dget v ''expected_root_hex'' = JStr (hex_encode (mth K hashes))"
  shows "vector_proof_accepted K v p"
proof -
  have "hashes \<noteq> []" using assms(2) by auto
  from vec_audit_path_eq [OF this, of K i]
  have p: "p = JDict [(''leaf_index'', JInt i),
      (''audit_path_hex'', JList (map (\<lambda>h. JStr (hex_encode h)) (audit_path_rec (k_sha256 K) (nat i) hashes)))]"
    using assms(3) by (simp add: inclusion_proof_def)
  have dec: "emap hex_value_to_bytes (map (\<lambda>h. JStr (hex_encode h)) hs) = Inr hs" for hs
    by (rule emap_map_Inr) simp
  have "verify_inclusion (k_sha256 K) (hashes ! nat i) i (int (length hashes))
      (audit_path_rec (k_sha256 K) (nat i) hashes) (mth K hashes)"
    using verify_inclusion_audit_path [OF assms(2), of "k_sha256 K"] assms(1) by (simp add: mth_eq)
  then show ?thesis
    unfolding vector_proof_accepted_def p using assms(1,2,4-9)
    by (auto simp: dget_simps dec)
qed

lemma merkle_vector_accepted:
  assumes "merkle_tree_vector K vector_id description leaf_objects = Inr v" and "leaf_objects \<noteq> []"
  shows "\<exists>proofs. dget v ''inclusion_proofs'' = JList proofs \<and> length proofs = length (proof_indices (length leaf_objects))
     \<and> list_all (vector_proof_accepted K v) proofs"
proof -
  obtain hashes proofs where h: "emap (vec_leaf_hash K) leaf_objects = Inr hashes"
    and p: "emap (inclusion_proof K hashes) (proof_indices (length leaf_objects)) = Inr proofs"
    and v: "v = [(''vector_id'', JStr vector_id), (''description'', JStr description),
                  (''leaf_count'', JInt (int (length leaf_objects))),
                  (''leaves'', JList (map (\<lambda>(lo, h). JDict [(''leaf_object'', lo), (''leaf_hash_hex'', JStr (hex_encode h))])
                     (zip leaf_objects hashes))),
                  (''expected_root_hex'', JStr (hex_encode (mth K hashes))),
                  (''inclusion_proofs'', JList proofs)]"
    using assms(1) by (auto simp: merkle_tree_vector_def result_simps Let_def)
  have len: "length hashes = length leaf_objects"
    using h by (auto simp: emap_Inr_iff dest: list_all2_lengthD)
  from p have all: "list_all2 (\<lambda>i p. inclusion_proof K hashes i = Inr p) (proof_indices (length leaf_objects)) proofs"
    by (simp add: emap_Inr_iff)
  have acc: "vector_proof_accepted K v p"
    if "i \<in> set (proof_indices (length leaf_objects))" and "inclusion_proof K hashes i = Inr p" for i p
  proof -
    have r: "0 \<le> i" "nat i < length hashes"
      using proof_indices_range [of "length leaf_objects" i] that(1) assms(2) len by auto
    show ?thesis
      by (rule inclusion_proof_accepted [OF r that(2),
            where leaves = "map (\<lambda>(lo, h). JDict [(''leaf_object'', lo), (''leaf_hash_hex'', JStr (hex_encode h))])
                     (zip leaf_objects hashes)"
              and leaf = "[(''leaf_object'', leaf_objects ! nat i), (''leaf_hash_hex'', JStr (hex_encode (hashes ! nat i)))]"])
        (use r len in \<open>simp_all add: v dget_simps\<close>)
  qed
  have "list_all (vector_proof_accepted K v) proofs"
    unfolding list_all_length
  proof (intro allI impI)
    fix j
    assume j: "j < length proofs"
    then have j': "j < length (proof_indices (length leaf_objects))"
      using list_all2_lengthD [OF all] by simp
    show "vector_proof_accepted K v (proofs ! j)"
      by (rule acc [OF nth_mem [OF j'] list_all2_nthD [OF all j']])
  qed
  then show ?thesis using list_all2_lengthD [OF all] by (simp add: v dget_simps)
qed

section \<open>Events vectors\<close>

definition EVENTS_SPEC_VERSION :: string where
  "EVENTS_SPEC_VERSION = ''ario.events/v1''"

definition sign_events_envelope_vector ::
  "kernel \<Rightarrow> string \<Rightarrow> string \<Rightarrow> json \<Rightarrow> items \<Rightarrow> string \<Rightarrow> exc + items" where
  "sign_events_envelope_vector K vector_id description event_record envelope_pre_signature seed_hex =
     ebind (signing_key_from_seed_hex seed_hex)
       (\<lambda>seed. ebind (k_jcs K event_record)
         (\<lambda>payload_jcs.
            let payload_hash = sha256_hex K payload_jcs;
                env = vector_scope K envelope_pre_signature payload_hash seed
            in ebind (k_jcs K (JDict env))
              (\<lambda>env_for_sig_jcs.
                 let signature = hex_encode (k_ed_sign K seed env_for_sig_jcs);
                     complete = dput ''signature'' (JStr signature) env
                 in ebind (k_jcs K (JDict complete))
                   (\<lambda>envelope_jcs. Inr
                    [(''vector_id'', JStr vector_id),
                     (''description'', JStr description),
                     (''spec_version'', JStr EVENTS_SPEC_VERSION),
                     (''profile'', JDict [(''payload_mode'', JStr ''external_commitment''),
                                          (''disclosure'', JStr ''minimal'')]),
                     (''fixed_keypair'', fixed_keypair K seed_hex seed),
                     (''inputs'', JDict
                       [(''event_record'', event_record),
                        (''envelope_pre_signature'', JDict envelope_pre_signature)]),
                     (''expected_outputs'', JDict
                       [(''payload_jcs_bytes_hex'', JStr (hex_encode payload_jcs)),
                        (''payload_hash_hex'', JStr payload_hash),
                        (''envelope_for_sig_jcs_bytes_hex'', JStr (hex_encode env_for_sig_jcs)),
                        (''signature_hex'', JStr signature),
                        (''envelope_jcs_bytes_hex'', JStr (hex_encode envelope_jcs))])]))))"

text \<open>
  The complete envelope of a vector, put together from its inputs and expected outputs, as
  \<open>_checkpoint_over\<close> and \<open>corpus_cases\<close> do it.
\<close>

definition rebuild_envelope :: "items \<Rightarrow> exc + items" where
  "rebuild_envelope vec =
     ebind (py_item (JDict vec) ''inputs'')
       (\<lambda>inputs. ebind (py_item inputs ''envelope_pre_signature'')
         (\<lambda>pre. ebind (py_item (JDict vec) ''expected_outputs'')
           (\<lambda>outs. ebind (py_item outs ''payload_hash_hex'')
             (\<lambda>payload_hash. ebind (py_item (JDict vec) ''fixed_keypair'')
               (\<lambda>keypair. ebind (py_item keypair ''ed25519_public_hex'')
                 (\<lambda>public_key. ebind (py_item outs ''signature_hex'')
                   (\<lambda>signature.
                      case pre of
                        JDict p \<Rightarrow> Inr (dput ''signature'' signature
                          (dput ''public_key'' public_key (dput ''payload_hash'' payload_hash p)))
                      | _ \<Rightarrow> Inl TypeError)))))))"

section \<open>Checkpoint windows\<close>

definition vector_subject :: json where
  "vector_subject = JDict [(''type'', JStr ''producer''), (''producer_id'', JStr ''acme-app'')]"

text \<open>The record of an event or a checkpoint; the constant fields are in the order of the source.\<close>

definition event_record ::
  "string \<Rightarrow> json \<Rightarrow> json \<Rightarrow> items \<Rightarrow> json" where
  "event_record event_type previous_hash event context_items =
     JDict
      [(''payload_version'', JInt 1), (''spec_version'', JStr EVENTS_SPEC_VERSION),
       (''event_type'', JStr event_type), (''subject'', vector_subject),
       (''previous_hash'', previous_hash), (''event'', event),
       (''context'', JDict context_items), (''metadata'', JDict []), (''extras'', JDict [])]"

definition leaf_record :: "kernel \<Rightarrow> bytes \<Rightarrow> json" where
  "leaf_record K content =
     event_record ''event'' (JStr ''GENESIS'')
       (JDict [(''content_hash'', JStr (sha256_hex K content)),
               (''content_length'', JInt (int (length content)))]) []"

definition pre_envelope :: "string \<Rightarrow> string \<Rightarrow> items" where
  "pre_envelope event_id signed_at =
     [(''spec_version'', JStr EVENTS_SPEC_VERSION), (''event_id'', JStr event_id),
      (''signed_at'', JStr signed_at), (''environment'', JStr ''dev'')]"

text \<open>\<open>f"{i:04d}"\<close>.\<close>

definition pad4 :: "nat \<Rightarrow> string" where
  "pad4 i = replicate (4 - length (dec_text i)) (CHR ''0'') @ dec_text i"

text \<open>One turn of the loop over \<open>leaf_contents\<close>: the complete envelope and its vector.\<close>

definition checkpoint_leaf ::
  "kernel \<Rightarrow> string \<Rightarrow> string \<Rightarrow> string \<Rightarrow> nat \<times> bytes \<Rightarrow> exc + (items \<times> items)" where
  "checkpoint_leaf K vector_id base_event_id signed_at leaf =
     (case leaf of (i, content) \<Rightarrow>
        ebind (sign_events_envelope_vector K (vector_id @ ''-leaf-'' @ dec_text i)
                 (vector_id @ '' leaf '' @ dec_text i @ '' (not written standalone)'')
                 (leaf_record K content) (pre_envelope (base_event_id @ pad4 i) signed_at) FIXED_SEED_HEX)
          (\<lambda>vec. ebind (rebuild_envelope vec) (\<lambda>env. Inr (env, vec))))"

definition leaf_entry :: "items \<Rightarrow> bytes \<Rightarrow> exc + json" where
  "leaf_entry vec h =
     ebind (py_item (JDict vec) ''expected_outputs'')
       (\<lambda>outs. ebind (py_item outs ''envelope_jcs_bytes_hex'')
         (\<lambda>jcs. Inr (JDict [(''envelope_jcs_bytes_hex'', jcs), (''leaf_hash_hex'', JStr (hex_encode h))])))"

definition checkpoint_over ::
  "kernel \<Rightarrow> string \<Rightarrow> bytes list \<Rightarrow> json \<Rightarrow> string \<Rightarrow> string \<Rightarrow> string \<Rightarrow> json \<Rightarrow> exc + items" where
  "checkpoint_over K vector_id leaf_contents previous_hash chain_key base_event_id signed_at window =
     ebind (emap (checkpoint_leaf K vector_id base_event_id signed_at) (enumerate 0 leaf_contents))
       (\<lambda>leaves. ebind (emap (\<lambda>(env, vec). vec_leaf_hash K (JDict env)) leaves)
         (\<lambda>hashes.
            let root = mth K hashes;
                checkpoint_record =
                  event_record ''checkpoint'' previous_hash
                    (JDict [(''merkle_root'', JStr (hex_encode root)),
                            (''leaf_count'', JInt (int (length leaves))), (''window'', window)])
                    [(''chain_key'', JStr chain_key)]
            in ebind (sign_events_envelope_vector K vector_id
                        (vector_id @ '' checkpoint over '' @ dec_text (length leaf_contents) @ '' leaves'')
                        checkpoint_record (pre_envelope (base_event_id @ ''ffff'') signed_at) FIXED_SEED_HEX)
                 (\<lambda>cp. ebind (emap (\<lambda>((env, vec), h). leaf_entry vec h) (zip leaves hashes))
                   (\<lambda>entries. ebind (emap (inclusion_proof K hashes) (map int [0..<length leaf_contents]))
                     (\<lambda>proofs. Inr (dput ''merkle''
                        (JDict
                          [(''leaves'', JList entries),
                           (''expected_root_hex'', JStr (hex_encode root)),
                           (''inclusion_proofs'', JList proofs)]) cp))))))"

text \<open>Two chained windows; the literal contents and times of the source are arguments.\<close>

definition window_record_hash :: "items \<Rightarrow> exc + json" where
  "window_record_hash w =
     ebind (py_item (JDict w) ''expected_outputs'') (\<lambda>outs. py_item outs ''payload_hash_hex'')"

definition ascii_bytes :: "string \<Rightarrow> bytes" where
  "ascii_bytes s = map (\<lambda>c. byte_of (of_char c)) s"

definition time_window :: "string \<Rightarrow> string \<Rightarrow> json" where
  "time_window start stop = JDict [(''start'', JStr start), (''end'', JStr stop)]"

definition events_checkpoint_chain_vector :: "kernel \<Rightarrow> exc + items" where
  "events_checkpoint_chain_vector K =
     (let chain_key = ''batcher:chain-demo''
      in ebind (checkpoint_over K ''events-checkpoint-chain-01-w1''
                  (map ascii_bytes [''w1-leaf-0'', ''w1-leaf-1'']) (JStr ''GENESIS'') chain_key
                  ''5c6d7e8f-0a1b-4c2d-8e3f-'' ''2026-06-15T00:00:00.000Z''
                  (time_window ''2026-06-15T00:00:00.000Z'' ''2026-06-15T00:01:00.000Z''))
           (\<lambda>w1. ebind (window_record_hash w1)
             (\<lambda>w1_record_hash.
                ebind (checkpoint_over K ''events-checkpoint-chain-01-w2''
                         (map ascii_bytes [''w2-leaf-0'', ''w2-leaf-1'', ''w2-leaf-2'']) w1_record_hash chain_key
                         ''6d7e8f90-1b2c-4d3e-9f4a-'' ''2026-06-15T00:01:30.000Z''
                         (time_window ''2026-06-15T00:01:00.000Z'' ''2026-06-15T00:02:00.000Z''))
                  (\<lambda>w2. ebind (py_item (JDict w1) ''fixed_keypair'')
                    (\<lambda>keypair. ebind (py_item (JDict w2) ''inputs'')
                      (\<lambda>inputs. ebind (py_item inputs ''event_record'')
                        (\<lambda>rec. ebind (py_item rec ''previous_hash'')
                          (\<lambda>w2_previous_hash. Inr
                            [(''vector_id'', JStr ''events-checkpoint-chain-01''),
                             (''description'', JStr (''ario.events/v1 per-batcher checkpoint continuity: two windows on ''
                               @ ''one chain_key; window-2's checkpoint record previous_hash equals ''
                               @ ''SHA-256(JCS(window-1 checkpoint record)). Each checkpoint is a ''
                               @ ''complete signed envelope verifiable through verifyEnvelope.'')),
                             (''spec_version'', JStr EVENTS_SPEC_VERSION),
                             (''profile'', JDict [(''payload_mode'', JStr ''external_commitment''),
                                                  (''disclosure'', JStr ''minimal'')]),
                             (''fixed_keypair'', keypair),
                             (''chain_key'', JStr chain_key),
                             (''windows'', JList [JDict w1, JDict w2]),
                             (''chain_link'', JDict
                               [(''window1_record_hash'', w1_record_hash),
                                (''window2_previous_hash'', w2_previous_hash)])]))))))))"

section \<open>The vectors against the kernel\<close>

lemma signing_key_length: "signing_key_from_seed_hex s = Inr seed \<Longrightarrow> length seed = 32"
  by (auto simp: signing_key_from_seed_hex_def result_simps split: if_splits)

text \<open>What a successful events vector is made of.\<close>

lemma events_vector_Inr:
  assumes "sign_events_envelope_vector K vid desc rec pre seed_hex = Inr v"
  obtains seed rj sj where "signing_key_from_seed_hex seed_hex = Inr seed" and "k_jcs K rec = Inr rj"
    and "k_jcs K (JDict (vector_scope K pre (sha256_hex K rj) seed)) = Inr sj"
    and "rebuild_envelope v = Inr (dput ''signature'' (JStr (hex_encode (k_ed_sign K seed sj)))
       (dput ''public_key'' (JStr (hex_encode (k_ed_public K seed)))
         (dput ''payload_hash'' (JStr (sha256_hex K rj)) pre)))"
    and "window_record_hash v = Inr (JStr (sha256_hex K rj))"
    and "ebind (py_item (JDict v) ''inputs'') (\<lambda>i. py_item i ''event_record'') = Inr rec"
    and "dget (case dget v ''expected_outputs'' of JDict d \<Rightarrow> d) ''payload_jcs_bytes_hex'' = JStr (hex_encode rj)"
proof -
  have hk: "has_key k ((k', x) # d) \<longleftrightarrow> k = k' \<or> has_key k d" "\<not> has_key k []" for k k' x d
    by (simp_all add: has_key_def)
  show thesis
    using assms
    by (auto simp: sign_events_envelope_vector_def result_simps Let_def rebuild_envelope_def fixed_keypair_def
        window_record_hash_def dget_simps hk intro!: that)
qed

lemma scope_of_rebuilt:
  assumes "\<not> has_key ''co_signatures'' pre" and "\<not> strips_annotations pre"
  shows "envelope_for_signature (dput ''signature'' s (dput ''public_key'' pk (dput ''payload_hash'' ph pre)))
     = dpop ''signature'' (dput ''public_key'' pk (dput ''payload_hash'' ph pre))"
proof -
  let ?e = "dput ''public_key'' pk (dput ''payload_hash'' ph pre)"
  have "\<not> strips_annotations ?e" using assms(2) by (subst strips_annotations_cong [of _ pre]) simp_all
  moreover have "k \<noteq> ''co_signatures''" if "(k, v) \<in> set ?e" for k v
  proof
    assume "k = ''co_signatures''"
    with that have "has_key ''co_signatures'' ?e" by (force simp: has_key_def map_of_eq_None_iff)
    with assms(1) show False by simp
  qed
  ultimately show ?thesis
    by (subst scope_put_unsigned)
      (auto simp: UNSIGNED_FIELDS_def envelope_for_signature_def Let_def dpop_def intro!: filter_cong)
qed

lemma rebuilt_signature:
  assumes "ed25519_contract K" and "length seed = 32"
    and "\<not> has_key ''co_signatures'' pre" and "\<not> strips_annotations pre"
    and "k_jcs K (JDict (vector_scope K pre ph seed)) = Inr sj"
    and "depth (JDict (vector_scope K pre ph seed)) \<le> MAX_CANONICAL_DEPTH"
  shows "check_signature K (dput ''signature'' (JStr (hex_encode (k_ed_sign K seed sj)))
       (dput ''public_key'' (JStr (hex_encode (k_ed_public K seed))) (dput ''payload_hash'' (JStr ph) pre)))"
    (is "check_signature K ?env")
proof -
  have "envelope_for_signature ?env = vector_scope K pre ph seed"
    unfolding vector_scope_def by (rule scope_of_rebuilt [OF assms(3,4)])
  then have "canonical K (JDict (envelope_for_signature ?env)) = Inr sj"
    using assms(5,6) by (simp add: canonical_def canonical_json_Inr)
  then show ?thesis
    using assms(1,2) by (auto simp: check_signature_iff fromhex_hex_encode ed25519_contract_def)
qed

text \<open>An events vector is an envelope the kernel accepts together with the record it commits to.\<close>

definition events_vector_verifies :: "kernel \<Rightarrow> items \<Rightarrow> bool" where
  "events_vector_verifies K v \<longleftrightarrow>
     (\<exists>env rec rb. rebuild_envelope v = Inr env
        \<and> ebind (py_item (JDict v) ''inputs'') (\<lambda>i. py_item i ''event_record'') = Inr rec
        \<and> k_jcs K rec = Inr rb
        \<and> vr_ok (verify_envelope K (JDict env) (Some rb) None False)
        \<and> vr_payload_hash_ok (verify_envelope K (JDict env) (Some rb) None False) = Some True)"

lemma events_vector_accepted:
  assumes "ed25519_contract K"
    and "sign_events_envelope_vector K vid desc rec pre seed_hex = Inr v"
    and "\<not> has_key ''co_signatures'' pre" and "\<not> strips_annotations pre" and "\<not> has_key ''payload'' pre"
    and "spec_version_supported (dget pre ''spec_version'')"
    and "\<And>ph seed. depth (JDict (vector_scope K pre ph seed)) \<le> MAX_CANONICAL_DEPTH"
  shows "events_vector_verifies K v"
proof -
  from assms(2) obtain seed rj sj where
    k: "signing_key_from_seed_hex seed_hex = Inr seed" and r: "k_jcs K rec = Inr rj"
    and sj: "k_jcs K (JDict (vector_scope K pre (sha256_hex K rj) seed)) = Inr sj"
    and rb: "rebuild_envelope v = Inr (dput ''signature'' (JStr (hex_encode (k_ed_sign K seed sj)))
       (dput ''public_key'' (JStr (hex_encode (k_ed_public K seed)))
         (dput ''payload_hash'' (JStr (sha256_hex K rj)) pre)))" (is "_ = Inr ?env")
    and rec: "ebind (py_item (JDict v) ''inputs'') (\<lambda>i. py_item i ''event_record'') = Inr rec"
    by (rule events_vector_Inr) blast
  have sig: "check_signature K ?env"
    by (rule rebuilt_signature [OF assms(1) signing_key_length [OF k] assms(3,4) sj assms(7)])
  have pl: "\<not> has_key ''payload'' ?env" "dget ?env ''payload_hash'' = JStr (sha256_hex K rj)"
    "dget ?env ''spec_version'' = dget pre ''spec_version''"
    using assms(5) by simp_all
  have "dget pre ''spec_version'' \<noteq> JNull" using assms(6) by auto
  then have "vr_ok (verify_envelope K (JDict ?env) (Some rj) None False)"
    unfolding verify_envelope_fields check_spec_version_ok check_payload_ok pl(2,3)
    using sig pl(1) assms(6) by simp
  moreover have "vr_payload_hash_ok (verify_envelope K (JDict ?env) (Some rj) None False) = Some True"
    unfolding verify_envelope_fields using pl by (simp add: check_payload_def Let_def)
  ultimately show ?thesis unfolding events_vector_verifies_def using rb rec r by blast
qed

lemma pre_envelope_vector:
  assumes "ed25519_contract K"
    and "sign_events_envelope_vector K vid desc rec (pre_envelope event_id signed_at) seed_hex = Inr v"
  shows "events_vector_verifies K v"
proof (rule events_vector_accepted [OF assms])
  show "\<not> strips_annotations (pre_envelope event_id signed_at)"
    by (simp add: strips_annotations_def pre_envelope_def dget_simps EVENTS_SPEC_VERSION_def
        matches_major_def Let_def starts_with_def)
  show "spec_version_supported (dget (pre_envelope event_id signed_at) ''spec_version'')"
    by (simp add: pre_envelope_def dget_simps EVENTS_SPEC_VERSION_def ACCEPTED_SPEC_VERSIONS_def matches_major_def)
  show "depth (JDict (vector_scope K (pre_envelope event_id signed_at) ph seed)) \<le> MAX_CANONICAL_DEPTH" for ph seed
    by (simp add: vector_scope_def pre_envelope_def dput_def dpop_def MAX_CANONICAL_DEPTH_def)
qed (simp_all add: pre_envelope_def has_key_def)

text \<open>Adding the block \<open>merkle\<close> to a vector does not touch what the checks read.\<close>

lemma rebuild_put: "rebuild_envelope (dput ''merkle'' m v) = rebuild_envelope v"
  by (simp add: rebuild_envelope_def)

lemma events_vector_put: "events_vector_verifies K (dput ''merkle'' m v) = events_vector_verifies K v"
  by (simp add: events_vector_verifies_def rebuild_put)

text \<open>
  A sound window over \<open>n\<close> leaves: the checkpoint and the leaf envelopes verify with their
  records, the checkpoint's record commits the root of the tree over the leaf envelopes, and
  the proof listed for each leaf verifies under it.
\<close>

definition window_sound :: "kernel \<Rightarrow> nat \<Rightarrow> items \<Rightarrow> bool" where
  "window_sound K n cp \<longleftrightarrow>
     events_vector_verifies K cp
     \<and> (\<exists>rec ev envs hashes m proofs.
          ebind (py_item (JDict cp) ''inputs'') (\<lambda>i. py_item i ''event_record'') = Inr (JDict rec)
          \<and> dget rec ''event'' = JDict ev
          \<and> dget ev ''merkle_root'' = JStr (hex_encode (merkle_root (k_sha256 K) hashes))
          \<and> dget ev ''leaf_count'' = JInt (int n)
          \<and> dget cp ''merkle'' = JDict m \<and> dget m ''inclusion_proofs'' = JList proofs
          \<and> length proofs = n \<and> length envs = n
          \<and> list_all2 (\<lambda>e h. (\<exists>b. k_jcs K (JDict e) = Inr b \<and> h = leaf_hash (k_sha256 K) b)
               \<and> (\<exists>rb. vr_ok (verify_envelope K (JDict e) (Some rb) None False))) envs hashes
          \<and> list_all2 (\<lambda>i p. \<exists>path. p = JDict [(''leaf_index'', JInt (int i)),
                    (''audit_path_hex'', JList (map (\<lambda>h. JStr (hex_encode h)) path))]
                 \<and> verify_inclusion (k_sha256 K) (hashes ! i) (int i) (int n) path
                     (merkle_root (k_sha256 K) hashes)) [0..<n] proofs)"

lemma checkpoint_leaf_Inr:
  assumes "ed25519_contract K" and "checkpoint_leaf K vid base at x = Inr (e, vec)"
  shows "\<exists>rb. vr_ok (verify_envelope K (JDict e) (Some rb) None False)"
proof -
  obtain i content where x: "x = (i, content)" by (cases x)
  from assms(2) have s: "sign_events_envelope_vector K (vid @ ''-leaf-'' @ dec_text i)
                 (vid @ '' leaf '' @ dec_text i @ '' (not written standalone)'')
                 (leaf_record K content) (pre_envelope (base @ pad4 i) at) FIXED_SEED_HEX = Inr vec"
    and r: "rebuild_envelope vec = Inr e"
    by (auto simp: x checkpoint_leaf_def result_simps)
  from pre_envelope_vector [OF assms(1) s] r show ?thesis by (auto simp: events_vector_verifies_def)
qed

lemma emap_map: "emap f (map g xs) = emap (\<lambda>x. f (g x)) xs"
  by (induction xs) simp_all

lemma window_soundI:
  assumes "events_vector_verifies K cp"
    and "ebind (py_item (JDict cp) ''inputs'') (\<lambda>i. py_item i ''event_record'') = Inr (JDict rec)"
    and "dget rec ''event'' = JDict ev" and "dget ev ''merkle_root'' = JStr (hex_encode (mth K hashes))"
    and "dget ev ''leaf_count'' = JInt (int n)"
    and "list_all (\<lambda>e. \<exists>rb. vr_ok (verify_envelope K (JDict e) (Some rb) None False)) envs"
    and "emap (\<lambda>e. vec_leaf_hash K (JDict e)) envs = Inr hashes" and "length envs = n" and "0 < n"
    and "emap (inclusion_proof K hashes) (map int [0..<n]) = Inr proofs"
    and "dget m ''inclusion_proofs'' = JList proofs"
  shows "window_sound K n (dput ''merkle'' (JDict m) cp)"
proof -
  have h2: "list_all2 (\<lambda>e h. vec_leaf_hash K (JDict e) = Inr h) envs hashes"
    using assms(7) by (simp add: emap_Inr_iff)
  then have len: "length hashes = n" using assms(8) by (simp add: list_all2_lengthD)
  then have "hashes \<noteq> []" using assms(9) by auto
  have envs: "list_all2 (\<lambda>e h. (\<exists>b. k_jcs K (JDict e) = Inr b \<and> h = leaf_hash (k_sha256 K) b)
               \<and> (\<exists>rb. vr_ok (verify_envelope K (JDict e) (Some rb) None False))) envs hashes"
    by (rule list.rel_mono_strong [OF h2]) (use assms(6) in \<open>auto simp: vec_leaf_hash_eq result_simps list_all_iff\<close>)
  have "list_all2 (\<lambda>i p. inclusion_proof K hashes (int i) = Inr p) [0..<n] proofs"
    using assms(10) by (simp add: emap_Inr_iff list_all2_map1)
  then have proofs: "list_all2 (\<lambda>i p. \<exists>path. p = JDict [(''leaf_index'', JInt (int i)),
                    (''audit_path_hex'', JList (map (\<lambda>h. JStr (hex_encode h)) path))]
                 \<and> verify_inclusion (k_sha256 K) (hashes ! i) (int i) (int n) path
                     (merkle_root (k_sha256 K) hashes)) [0..<n] proofs"
    by (rule list.rel_mono_strong)
      (use verify_inclusion_audit_path [of _ hashes "k_sha256 K"] len vec_audit_path_eq [OF \<open>hashes \<noteq> []\<close>, of K]
        in \<open>auto simp: inclusion_proof_def\<close>)
  have "length proofs = n" using list_all2_lengthD [OF proofs] by simp
  note parts = assms(2-5,8,11) envs proofs this
  show ?thesis
    unfolding window_sound_def events_vector_put
    by (rule conjI [OF assms(1)], rule exI [of _ rec], rule exI [of _ ev], rule exI [of _ envs],
        rule exI [of _ hashes], rule exI [of _ m], rule exI [of _ proofs]) (use parts in \<open>auto simp: mth_eq split: if_splits\<close>)
qed

lemma checkpoint_over_sound:
  assumes "ed25519_contract K" and "contents \<noteq> []"
    and "checkpoint_over K vid contents prev ck base at win = Inr cp"
  shows "window_sound K (length contents) cp
     \<and> ebind (py_item (JDict cp) ''inputs'') (\<lambda>i. ebind (py_item i ''event_record'') (\<lambda>r. py_item r ''previous_hash''))
         = Inr prev
     \<and> (\<exists>rec rb. ebind (py_item (JDict cp) ''inputs'') (\<lambda>i. py_item i ''event_record'') = Inr rec
          \<and> k_jcs K rec = Inr rb \<and> window_record_hash cp = Inr (JStr (sha256_hex K rb)))"
proof -
  let ?ev = "\<lambda>hashes n. [(''merkle_root'', JStr (hex_encode (mth K hashes))),
                            (''leaf_count'', JInt (int n)), (''window'', win)]"
  let ?rec = "\<lambda>hashes n. event_record ''checkpoint'' prev (JDict (?ev hashes n)) [(''chain_key'', JStr ck)]"
  obtain leaves hashes cp0 entries proofs where
    l: "emap (checkpoint_leaf K vid base at) (enumerate 0 contents) = Inr leaves"
    and h: "emap (\<lambda>(env, vec). vec_leaf_hash K (JDict env)) leaves = Inr hashes"
    and c: "sign_events_envelope_vector K vid
              (vid @ '' checkpoint over '' @ dec_text (length contents) @ '' leaves'')
              (?rec hashes (length leaves)) (pre_envelope (base @ ''ffff'') at) FIXED_SEED_HEX = Inr cp0"
    and p: "emap (inclusion_proof K hashes) (map int [0..<length contents]) = Inr proofs"
    and cp: "cp = dput ''merkle''
                        (JDict
                          [(''leaves'', JList entries),
                           (''expected_root_hex'', JStr (hex_encode (mth K hashes))),
                           (''inclusion_proofs'', JList proofs)]) cp0"
    using assms(3) by (auto simp: checkpoint_over_def result_simps Let_def)
  from l have l2: "list_all2 (\<lambda>x y. checkpoint_leaf K vid base at x = Inr y) (enumerate 0 contents) leaves"
    by (simp add: emap_Inr_iff)
  have len: "length leaves = length contents" using list_all2_lengthD [OF l2] by simp
  have env_ok: "\<exists>rb. vr_ok (verify_envelope K (JDict e) (Some rb) None False)" if "(e, vec) \<in> set leaves" for e vec
  proof -
    from that obtain j where j: "j < length leaves" "leaves ! j = (e, vec)" by (auto simp: in_set_conv_nth)
    then have "checkpoint_leaf K vid base at (enumerate 0 contents ! j) = Inr (e, vec)"
      using list_all2_nthD2 [OF l2 j(1)] by simp
    then show ?thesis by (rule checkpoint_leaf_Inr [OF assms(1)])
  qed
  obtain R where R: "?rec hashes (length leaves) = JDict R" "dget R ''event'' = JDict (?ev hashes (length leaves))"
    "dget R ''previous_hash'' = prev" "has_key ''previous_hash'' R"
    by (simp add: event_record_def dget_simps has_key_def)
  obtain rj where rj: "k_jcs K (JDict R) = Inr rj"
    "window_record_hash cp0 = Inr (JStr (sha256_hex K rj))"
    "ebind (py_item (JDict cp0) ''inputs'') (\<lambda>i. py_item i ''event_record'') = Inr (JDict R)"
    using c [unfolded R(1)] by (rule events_vector_Inr) blast
  have put: "py_item (JDict cp) ''inputs'' = py_item (JDict cp0) ''inputs''"
    "window_record_hash cp = window_record_hash cp0"
    by (simp_all add: cp window_record_hash_def)
  have hs: "emap (\<lambda>e. vec_leaf_hash K (JDict e)) (map fst leaves) = Inr hashes"
    using h by (simp add: emap_map case_prod_beta')
  have es: "list_all (\<lambda>e. \<exists>rb. vr_ok (verify_envelope K (JDict e) (Some rb) None False)) (map fst leaves)"
    using env_ok by (auto simp: list_all_iff)
  have n: "length (map fst leaves) = length contents" "0 < length contents" using len assms(2) by auto
  have "window_sound K (length contents) cp"
    unfolding cp
    by (rule window_soundI [OF pre_envelope_vector [OF assms(1) c] rj(3) R(2) _ _ es hs n p])
      (simp_all add: dget_simps len)
  moreover have "ebind (py_item (JDict cp) ''inputs'') (\<lambda>i. ebind (py_item i ''event_record'') (\<lambda>r. py_item r ''previous_hash''))
         = Inr prev"
    using rj(3) R(3,4) unfolding put by (cases "py_item (JDict cp0) ''inputs''") auto
  ultimately show ?thesis using rj unfolding put by blast
qed

text \<open>
  The chained checkpoint windows conform.  With Ed25519 as documented, the chain vector holds
  two sound windows of two and three leaves (every envelope verifies with its record, the
  records commit the roots, every listed proof verifies), and the second record's
  \<open>previous_hash\<close> is the SHA-256 of the canonical first record.
\<close>

lemma checkpoint_chain_conforms:
  assumes "ed25519_contract K" and "events_checkpoint_chain_vector K = Inr v"
  shows "\<exists>w1 w2 record1 b. dget v ''windows'' = JList [JDict w1, JDict w2]
     \<and> window_sound K 2 w1 \<and> window_sound K 3 w2
     \<and> ebind (py_item (JDict w1) ''inputs'') (\<lambda>i. py_item i ''event_record'') = Inr record1
     \<and> k_jcs K record1 = Inr b
     \<and> ebind (py_item (JDict w2) ''inputs'') (\<lambda>i. ebind (py_item i ''event_record'') (\<lambda>r. py_item r ''previous_hash''))
         = Inr (JStr (sha256_hex K b))"
proof -
  obtain w1 w2 h where
    w1: "checkpoint_over K ''events-checkpoint-chain-01-w1''
                  (map ascii_bytes [''w1-leaf-0'', ''w1-leaf-1'']) (JStr ''GENESIS'') ''batcher:chain-demo''
                  ''5c6d7e8f-0a1b-4c2d-8e3f-'' ''2026-06-15T00:00:00.000Z''
                  (time_window ''2026-06-15T00:00:00.000Z'' ''2026-06-15T00:01:00.000Z'') = Inr w1"
    and h: "window_record_hash w1 = Inr h"
    and w2: "checkpoint_over K ''events-checkpoint-chain-01-w2''
                         (map ascii_bytes [''w2-leaf-0'', ''w2-leaf-1'', ''w2-leaf-2'']) h ''batcher:chain-demo''
                         ''6d7e8f90-1b2c-4d3e-9f4a-'' ''2026-06-15T00:01:30.000Z''
                         (time_window ''2026-06-15T00:01:00.000Z'' ''2026-06-15T00:02:00.000Z'') = Inr w2"
    and v: "dget v ''windows'' = JList [JDict w1, JDict w2]"
    using assms(2) by (auto simp: events_checkpoint_chain_vector_def ebind_Inr_iff Let_def dget_simps
        simp del: ebind_simps)
  from checkpoint_over_sound [OF assms(1) _ w1] obtain record1 b where
    "window_sound K 2 w1" "ebind (py_item (JDict w1) ''inputs'') (\<lambda>i. py_item i ''event_record'') = Inr record1"
    "k_jcs K record1 = Inr b" "window_record_hash w1 = Inr (JStr (sha256_hex K b))"
    by (auto simp: numeral_2_eq_2)
  moreover from checkpoint_over_sound [OF assms(1) _ w2] have "window_sound K 3 w2"
    "ebind (py_item (JDict w2) ''inputs'') (\<lambda>i. ebind (py_item i ''event_record'') (\<lambda>r. py_item r ''previous_hash'')) = Inr h"
    by (auto simp: numeral_3_eq_3)
  ultimately show ?thesis using v h by auto
qed

section \<open>The generator runs\<close>

text \<open>With a serializer that returns on every value no step of the generator fails.\<close>

definition jcs_total :: "kernel \<Rightarrow> bool" where
  "jcs_total K \<longleftrightarrow> (\<forall>v. \<exists>b. k_jcs K v = Inr b)"

lemma toy_jcs_total: "jcs_total toy"
  by (simp add: jcs_total_def)

lemma fixed_seed: "\<exists>seed. signing_key_from_seed_hex FIXED_SEED_HEX = Inr seed"
proof -
  let ?bs = "[0x01, 0x23, 0x45, 0x67, 0x89, 0xAB, 0xCD, 0xEF] :: bytes"
  have s: "''0123456789abcdef'' = hex_encode ?bs" by code_simp
  have "FIXED_SEED_HEX = hex_encode (?bs @ ?bs @ ?bs @ ?bs)"
    unfolding FIXED_SEED_HEX_def s hex_encode_append by (simp add: eval_nat_numeral del: hex_encode_simps)
  then have "fromhex FIXED_SEED_HEX = Inr (?bs @ ?bs @ ?bs @ ?bs)"
    using fromhex_hex_encode [of "?bs @ ?bs @ ?bs @ ?bs"] by metis
  then show ?thesis by (simp add: signing_key_from_seed_hex_def)
qed

lemma emap_returns: "(\<And>x. x \<in> set xs \<Longrightarrow> \<exists>y. f x = Inr y) \<Longrightarrow> \<exists>ys. emap f xs = Inr ys"
proof (induction xs)
  case (Cons x xs)
  then obtain y ys where "f x = Inr y" "emap f xs = Inr ys" by fastforce
  then show ?case by simp
qed simp

lemma events_vector_returns:
  assumes "jcs_total K"
  shows "\<exists>v. sign_events_envelope_vector K vid desc rec pre FIXED_SEED_HEX = Inr v"
proof -
  obtain seed where s: "signing_key_from_seed_hex FIXED_SEED_HEX = Inr seed" using fixed_seed by blast
  obtain rj where r: "k_jcs K rec = Inr rj" using assms by (auto simp: jcs_total_def)
  obtain sj where e: "k_jcs K (JDict (vector_scope K pre (sha256_hex K rj) seed)) = Inr sj"
    using assms by (auto simp: jcs_total_def)
  obtain cj where "k_jcs K (JDict (dput ''signature'' (JStr (hex_encode (k_ed_sign K seed sj)))
      (vector_scope K pre (sha256_hex K rj) seed))) = Inr cj"
    using assms by (auto simp: jcs_total_def)
  with s r e show ?thesis by (simp add: sign_events_envelope_vector_def Let_def)
qed

lemma leaf_entry_returns:
  assumes "sign_events_envelope_vector K vid desc rec pre seed_hex = Inr v"
  shows "\<exists>j. leaf_entry v h = Inr j"
proof -
  have hk: "has_key k ((k', x) # d) \<longleftrightarrow> k = k' \<or> has_key k d" "\<not> has_key k []" for k k' x d
    by (simp_all add: has_key_def)
  show ?thesis
    using assms
    by (auto simp: sign_events_envelope_vector_def result_simps Let_def leaf_entry_def dget_simps hk)
qed

lemma checkpoint_leaf_returns:
  assumes "jcs_total K"
  shows "\<exists>e vec. checkpoint_leaf K vid base at x = Inr (e, vec) \<and> (\<forall>h. \<exists>j. leaf_entry vec h = Inr j)"
proof -
  obtain i content where x: "x = (i, content)" by (cases x)
  obtain v where v: "sign_events_envelope_vector K (vid @ ''-leaf-'' @ dec_text i)
                 (vid @ '' leaf '' @ dec_text i @ '' (not written standalone)'')
                 (leaf_record K content) (pre_envelope (base @ pad4 i) at) FIXED_SEED_HEX = Inr v"
    using events_vector_returns [OF assms] by blast
  then obtain e where "rebuild_envelope v = Inr e" by (rule events_vector_Inr) blast
  with v leaf_entry_returns [OF v] show ?thesis by (simp add: x checkpoint_leaf_def)
qed

lemma checkpoint_over_returns:
  assumes "jcs_total K" and "contents \<noteq> []"
  shows "\<exists>cp. checkpoint_over K vid contents prev ck base at win = Inr cp"
proof -
  obtain leaves where l: "emap (checkpoint_leaf K vid base at) (enumerate 0 contents) = Inr leaves"
    using emap_returns [of "enumerate 0 contents" "checkpoint_leaf K vid base at"]
      checkpoint_leaf_returns [OF assms(1)] by blast
  then have l2: "list_all2 (\<lambda>x y. checkpoint_leaf K vid base at x = Inr y) (enumerate 0 contents) leaves"
    by (simp add: emap_Inr_iff)
  have entry: "\<exists>j. leaf_entry vec h = Inr j" if "(e, vec) \<in> set leaves" for e vec h
  proof -
    from that obtain j where j: "j < length leaves" "leaves ! j = (e, vec)" by (auto simp: in_set_conv_nth)
    then have "checkpoint_leaf K vid base at (enumerate 0 contents ! j) = Inr (e, vec)"
      using list_all2_nthD2 [OF l2 j(1)] by simp
    with checkpoint_leaf_returns [OF assms(1), of vid base at "enumerate 0 contents ! j"] show ?thesis by auto
  qed
  have "\<exists>hashes. emap (\<lambda>(env, vec). vec_leaf_hash K (JDict env)) leaves = Inr hashes"
  proof (rule emap_returns)
    fix x
    show "\<exists>y. (case x of (env, vec) \<Rightarrow> vec_leaf_hash K (JDict env)) = Inr y"
      using assms(1) [unfolded jcs_total_def, rule_format, of "JDict (fst x)"]
      by (auto simp: case_prod_beta vec_leaf_hash_eq)
  qed
  then obtain hashes where h: "emap (\<lambda>(env, vec). vec_leaf_hash K (JDict env)) leaves = Inr hashes" by blast
  have len: "length leaves = length contents" "length hashes = length contents"
    using list_all2_lengthD [OF l2] h by (auto simp: emap_Inr_iff dest: list_all2_lengthD)
  then have "hashes \<noteq> []" using assms(2) by auto
  have "\<exists>entries. emap (\<lambda>((env, vec), h). leaf_entry vec h) (zip leaves hashes) = Inr entries"
    by (rule emap_returns) (auto dest: set_zip_leftD entry)
  moreover have "\<exists>proofs. emap (inclusion_proof K hashes) (map int [0..<length contents]) = Inr proofs"
    by (rule emap_returns) (simp add: inclusion_proof_def vec_audit_path_eq [OF \<open>hashes \<noteq> []\<close>])
  moreover obtain cp where "sign_events_envelope_vector K vid
              (vid @ '' checkpoint over '' @ dec_text (length contents) @ '' leaves'')
              (event_record ''checkpoint'' prev
                    (JDict [(''merkle_root'', JStr (hex_encode (mth K hashes))),
                            (''leaf_count'', JInt (int (length leaves))), (''window'', win)])
                    [(''chain_key'', JStr ck)]) (pre_envelope (base @ ''ffff'') at) FIXED_SEED_HEX = Inr cp"
    using events_vector_returns [OF assms(1)] by blast
  ultimately show ?thesis using l h by (auto simp: checkpoint_over_def Let_def)
qed

section \<open>Signing twice\<close>

text \<open>
  What the generator signs and what the kernel's \<open>sign_envelope\<close> returns for the same inline
  envelope.
\<close>

lemma has_key_simps [simp]:
  "\<not> has_key k []"
  "has_key k ((k', v) # d) \<longleftrightarrow> k = k' \<or> has_key k d"
  "has_key k (d @ d') \<longleftrightarrow> has_key k d \<or> has_key k d'"
  by (auto simp: has_key_def map_add_def split: option.splits)

lemma dsetdefault_new: "\<not> has_key k d \<Longrightarrow> dsetdefault k v d = dput k v d"
  by (simp add: dsetdefault_def)

lemma vector_agrees_with_sign:
  assumes "sign_envelope_vector K vid desc pre seed_hex = Inr v"
    and "signing_key_from_seed_hex seed_hex = Inr seed"
    and "list_all (\<lambda>k. \<not> has_key k pre) [''signature'', ''co_signatures'', ''payload_hash'', ''public_key'']"
    and "\<not> strips_annotations pre"
    and "depth (JDict pre) \<le> MAX_CANONICAL_DEPTH"
  shows "\<exists>env. rebuild_envelope v = Inr env \<and> sign_envelope K pre seed = Inr env"
proof -
  have nk: "\<not> has_key ''signature'' pre" "\<not> has_key ''co_signatures'' pre" "\<not> has_key ''payload_hash'' pre"
    "\<not> has_key ''public_key'' pre" using assms(3) by simp_all
  have pl: "has_key ''payload'' pre"
    using assms(1) by (auto simp: sign_envelope_vector_def result_simps split: if_splits)
  obtain pj where pj: "k_jcs K (dget pre ''payload'') = Inr pj"
    using assms(1) pl by (auto simp: sign_envelope_vector_def result_simps)
  let ?ph = "sha256_hex K pj"
  let ?env = "dput ''public_key'' (JStr (hex_encode (k_ed_public K seed))) (dput ''payload_hash'' (JStr ?ph) pre)"
  obtain sj where sj: "k_jcs K (JDict (vector_scope K pre ?ph seed)) = Inr sj"
    using assms(1,2) pl pj by (auto simp: sign_envelope_vector_def result_simps Let_def)
  let ?res = "dput ''signature'' (JStr (hex_encode (k_ed_sign K seed sj))) ?env"
  have hk: "has_key k ((k', x) # d) \<longleftrightarrow> k = k' \<or> has_key k d" "\<not> has_key k []" for k k' x d
    by (simp_all add: has_key_def)
  have "rebuild_envelope v = Inr ?res"
    using assms(1,2) pl pj sj
    by (auto simp: sign_envelope_vector_def result_simps Let_def rebuild_envelope_def fixed_keypair_def dget_simps hk)
  moreover have "sign_envelope K pre seed = Inr ?res"
  proof -
    have scope: "envelope_for_signature ?env = vector_scope K pre ?ph seed"
      using scope_of_rebuilt [OF nk(2) assms(4), of "JStr []" "JStr (hex_encode (k_ed_public K seed))" "JStr ?ph"]
      by (simp add: scope_put_unsigned UNSIGNED_FIELDS_def vector_scope_def)
    have vs: "vector_scope K pre ?ph seed = pre @ [(''payload_hash'', JStr ?ph), (''public_key'', JStr (hex_encode (k_ed_public K seed)))]"
      unfolding vector_scope_def using nk by (subst dpop_id) (simp_all add: dput_new)
    have "depth (JDict (vector_scope K pre ?ph seed)) \<le> MAX_CANONICAL_DEPTH"
      using assms(5) depth_dict_le [of "vector_scope K pre ?ph seed" "MAX_CANONICAL_DEPTH - 1"]
        depth_dict_le [of pre "MAX_CANONICAL_DEPTH - 1"]
      by (auto simp: vs MAX_CANONICAL_DEPTH_def simp del: depth.simps(2))
    then have can: "canonical K (JDict (vector_scope K pre ?ph seed)) = Inr sj"
      using sj by (simp add: canonical_def canonical_json_Inr)
    have "depth (dget pre ''payload'') \<le> MAX_CANONICAL_DEPTH" using depth_dget [of pre "''payload''"] assms(5) by linarith
    then have ch: "canonical_hash K (dget pre ''payload'') = Inr ?ph"
      using pj by (simp add: canonical_hash_Inr canonical_def canonical_json_Inr)
    show ?thesis
      using nk pl ch can unfolding sign_envelope_def
      by (simp add: dsetdefault_new Let_def public_key_hex_def scope sign_def)
  qed
  ultimately show ?thesis by blast
qed

section \<open>Properties\<close>

text \<open>
  C28: two implementations of RFC 9162.  The tree hash of the corpus generator is the kernel's
  \<open>merkle_root\<close>, and every path the kernel returns the generator returns too; they differ only
  where the kernel raises \<open>IndexError\<close>.
\<close>

theorem generator_tree_agrees:
  "mth K hs = merkle_root (k_sha256 K) hs
   \<and> (case audit_path (k_sha256 K) m hs of
        Inl e \<Rightarrow> e = IndexError
      | Inr path \<Rightarrow> vec_audit_path K m hs = Inr path)"
proof (cases "m < 0 \<or> int (length hs) \<le> m")
  case False
  then have "hs \<noteq> []" by auto
  with False show ?thesis by (simp add: mth_eq audit_path_def vec_audit_path_eq)
qed (simp add: mth_eq audit_path_def)

text \<open>
  The tree vectors conform.  Every inclusion proof of a tree vector the generator writes, for
  one leaf or more, passes the kernel's \<open>verify_inclusion\<close> when its fields are read back from
  the JSON: leaf hash, index, leaf count, path and root.
\<close>

lemma tree_vectors_conform:
  assumes "merkle_tree_vector K vector_id description leaf_objects = Inr v" and "leaf_objects \<noteq> []"
  shows "\<exists>proofs. dget v ''inclusion_proofs'' = JList proofs \<and> length proofs = length (proof_indices (length leaf_objects))
     \<and> list_all (vector_proof_accepted K v) proofs"
  using assms by (rule merkle_vector_accepted)

lemma tree_vectors_conform_witness:
  "\<exists>v p q. merkle_tree_vector toy ''t'' ''two leaves'' [JInt 1, JInt 2] = Inr v
     \<and> dget v ''inclusion_proofs'' = JList [p, q]
     \<and> vector_proof_accepted toy v p \<and> vector_proof_accepted toy v q"
proof -
  have "\<exists>v. merkle_tree_vector toy ''t'' ''two leaves'' [JInt 1, JInt 2] = Inr v"
    by (simp add: merkle_tree_vector_def vec_leaf_hash_def proof_indices_def inclusion_proof_def
        vec_audit_path_eq Let_def)
  then obtain v where v: "merkle_tree_vector toy ''t'' ''two leaves'' [JInt 1, JInt 2] = Inr v" by blast
  from tree_vectors_conform [OF v] obtain proofs where
    "dget v ''inclusion_proofs'' = JList proofs" "length proofs = 2" "list_all (vector_proof_accepted toy v) proofs"
    by (auto simp: proof_indices_def)
  then show ?thesis using v by (auto simp: numeral_2_eq_2 length_Suc_conv)
qed

lemma window_fields:
  assumes "window_sound K n cp"
  shows "\<exists>h. window_record_hash cp = Inr h" "\<exists>k. py_item (JDict cp) ''fixed_keypair'' = Inr k"
  using assms
  by (auto simp: window_sound_def events_vector_verifies_def rebuild_envelope_def window_record_hash_def
      ebind_Inr_iff simp del: py_item.simps)

lemma chain_returns:
  assumes "jcs_total K" and "ed25519_contract K"
  shows "\<exists>v. events_checkpoint_chain_vector K = Inr v"
proof -
  obtain w1 where
    w1: "checkpoint_over K ''events-checkpoint-chain-01-w1''
                  (map ascii_bytes [''w1-leaf-0'', ''w1-leaf-1'']) (JStr ''GENESIS'') ''batcher:chain-demo''
                  ''5c6d7e8f-0a1b-4c2d-8e3f-'' ''2026-06-15T00:00:00.000Z''
                  (time_window ''2026-06-15T00:00:00.000Z'' ''2026-06-15T00:01:00.000Z'') = Inr w1"
    using checkpoint_over_returns [OF assms(1)] by (metis list.map_disc_iff list.distinct(1))
  from checkpoint_over_sound [OF assms(2) _ w1] have s1: "window_sound K 2 w1" by (auto simp: numeral_2_eq_2)
  obtain h k where h: "window_record_hash w1 = Inr h" "py_item (JDict w1) ''fixed_keypair'' = Inr k"
    using window_fields [OF s1] by blast
  obtain w2 where
    w2: "checkpoint_over K ''events-checkpoint-chain-01-w2''
                         (map ascii_bytes [''w2-leaf-0'', ''w2-leaf-1'', ''w2-leaf-2'']) h ''batcher:chain-demo''
                         ''6d7e8f90-1b2c-4d3e-9f4a-'' ''2026-06-15T00:01:30.000Z''
                         (time_window ''2026-06-15T00:01:00.000Z'' ''2026-06-15T00:02:00.000Z'') = Inr w2"
    using checkpoint_over_returns [OF assms(1)] by (metis list.map_disc_iff list.distinct(1))
  from checkpoint_over_sound [OF assms(2) _ w2] obtain i r p where
    "py_item (JDict w2) ''inputs'' = Inr i" "py_item i ''event_record'' = Inr r" "py_item r ''previous_hash'' = Inr p"
    by (auto simp: ebind_Inr_iff simp del: py_item.simps)
  with w1 w2 h show ?thesis
    by (auto simp: events_checkpoint_chain_vector_def Let_def simp del: py_item.simps list.map)
qed

lemma checkpoint_chain_conforms_witness:
  "\<exists>v w1 w2. events_checkpoint_chain_vector toy = Inr v \<and> dget v ''windows'' = JList [JDict w1, JDict w2]
     \<and> window_sound toy 2 w1 \<and> window_sound toy 3 w2"
proof -
  obtain v where v: "events_checkpoint_chain_vector toy = Inr v"
    using chain_returns [OF toy_jcs_total toy_ed25519] by blast
  from checkpoint_chain_conforms [OF toy_ed25519 v] v show ?thesis by blast
qed

text \<open>
  The generator signs what the kernel signs.  For an inline envelope that leaves the filled-in
  fields open and keeps its annotations in scope, the envelope put together from a vector's
  expected outputs is the one \<open>sign_envelope\<close> returns for the same key: same payload hash, same
  signed bytes, same signature.
\<close>

lemma envelope_vectors_agree:
  assumes "sign_envelope_vector K vid desc pre seed_hex = Inr v"
    and "signing_key_from_seed_hex seed_hex = Inr seed"
    and "list_all (\<lambda>k. \<not> has_key k pre) [''signature'', ''co_signatures'', ''payload_hash'', ''public_key'']"
    and "\<not> strips_annotations pre"
    and "depth (JDict pre) \<le> MAX_CANONICAL_DEPTH"
  shows "\<exists>env. rebuild_envelope v = Inr env \<and> sign_envelope K pre seed = Inr env"
  using assms by (rule vector_agrees_with_sign)

lemma envelope_vectors_agree_witness:
  "\<exists>v seed env. sign_envelope_vector toy ''v'' ''d'' toy_envelope FIXED_SEED_HEX = Inr v
     \<and> signing_key_from_seed_hex FIXED_SEED_HEX = Inr seed
     \<and> rebuild_envelope v = Inr env \<and> sign_envelope toy toy_envelope seed = Inr env"
proof -
  obtain seed where s: "signing_key_from_seed_hex FIXED_SEED_HEX = Inr seed" using fixed_seed by blast
  have "\<exists>v. sign_envelope_vector toy ''v'' ''d'' toy_envelope FIXED_SEED_HEX = Inr v"
    using s by (simp add: sign_envelope_vector_def Let_def toy_envelope_def toy_unsigned_def has_key_def)
  then obtain v where v: "sign_envelope_vector toy ''v'' ''d'' toy_envelope FIXED_SEED_HEX = Inr v" by blast
  have "\<exists>env. rebuild_envelope v = Inr env \<and> sign_envelope toy toy_envelope seed = Inr env"
    by (rule envelope_vectors_agree [OF v s])
      (simp_all add: toy_envelope_def toy_unsigned_def has_key_def strips_annotations_def dget_simps
        matches_major_def starts_with_def MAX_CANONICAL_DEPTH_def)
  with v s show ?thesis by blast
qed

end
