(* ===== verification/Export_Vectors.thy ===== *)
theory Export_Vectors
  imports Evidence_Spec Vectors
begin

text \<open>
  The builder of the export conformance cases, \<open>tools/gen-vectors/export_vectors.py\<close>: a golden
  export bundle, one programmatic mutation of it per failure class, re-signed with the
  published stack seed where the wrapper has to stay valid, and the exit code declared for
  each class.  The lemmas show that the verifier gives the declared codes.
\<close>

section \<open>Item assignment along a path\<close>

text \<open>
  \<open>v[k] = x\<close>, and an assignment whose target is a path: the part at the key or index is
  changed in place.  A deep copy of the bundle is mutated, so no part is shared and the
  change is a functional update.  Indexing a dict by a number is a \<open>KeyError\<close>.
\<close>

fun py_setitem :: "string \<Rightarrow> json \<Rightarrow> json \<Rightarrow> exc + json" where
  "py_setitem k x (JDict d) = Inr (JDict (dput k x d))"
| "py_setitem k x v = Inl TypeError"

fun py_delitem :: "string \<Rightarrow> json \<Rightarrow> exc + json" where
  "py_delitem k (JDict d) = (if has_key k d then Inr (JDict (dpop k d)) else Inl KeyError)"
| "py_delitem k v = Inl TypeError"

definition at_key :: "string \<Rightarrow> (json \<Rightarrow> exc + json) \<Rightarrow> json \<Rightarrow> exc + json" where
  "at_key k f v = ebind (py_item v k) (\<lambda>x. ebind (f x) (\<lambda>x'. py_setitem k x' v))"

fun at_first :: "(json \<Rightarrow> exc + json) \<Rightarrow> json \<Rightarrow> exc + json" where
  "at_first f (JList []) = Inl IndexError"
| "at_first f (JList (x # xs)) = ebind (f x) (\<lambda>x'. Inr (JList (x' # xs)))"
| "at_first f (JStr []) = Inl IndexError"
| "at_first f (JDict d) = Inl KeyError"
| "at_first f v = Inl TypeError"

text \<open>
  \<open>v[0] = x\<close>.  On a dict Python would add an integer key, which no JSON value has; the
  model raises there.
\<close>

fun set_first :: "json \<Rightarrow> json \<Rightarrow> exc + json" where
  "set_first x (JList []) = Inl IndexError"
| "set_first x (JList (y # ys)) = Inr (JList (x # ys))"
| "set_first x v = Inl TypeError"

section \<open>The helpers of the builder\<close>

definition stack_seed :: bytes where
  "stack_seed = concat (replicate 4 [0x01, 0x23, 0x45, 0x67, 0x89, 0xAB, 0xCD, 0xEF])"

definition PUB_HEX :: "kernel \<Rightarrow> string" where
  "PUB_HEX K = hex_encode (k_ed_public K stack_seed)"

definition EXPECTED_EXIT :: "(string \<times> int) list" where
  "EXPECTED_EXIT =
     [(''positive'', 0),
      (''wrapper-signature-break'', 1),
      (''body-hash-mismatch'', 1),
      (''source-bundle-hash-mismatch'', 1),
      (''verdict-disagreement'', 1),
      (''forged-attestation-signature'', 1),
      (''mis-salted-attestation'', 1),
      (''operator-address-binding-break'', 1),
      (''data-hash-binding-break'', 1),
      (''disclosed-content-mismatch'', 1),
      (''subject-ref-tamper'', 1),
      (''malformed-rsa-key'', 2),
      (''malformed-signature-alg'', 2),
      (''source-bundle-ref-offline'', 3)]"

text \<open>
  \<open>s[:-1]\<close> drops the last character, which in UTF-8 is a lead byte and its continuation bytes.
\<close>

definition is_continuation :: "char \<Rightarrow> bool" where
  "is_continuation c \<longleftrightarrow> (let n = (of_char c :: nat) in 128 \<le> n \<and> n < 192)"

definition drop_last_char :: "string \<Rightarrow> string" where
  "drop_last_char s = rev (tl (dropWhile is_continuation (rev s)))"

fun flip_last :: "json \<Rightarrow> exc + json" where
  "flip_last (JStr s) =
     (if s = [] then Inl IndexError
      else Inr (JStr (drop_last_char s @ (if last s = CHR ''0'' then ''1'' else ''0''))))"
| "flip_last (JList xs) = Inl (if xs = [] then IndexError else TypeError)"
| "flip_last v = Inl TypeError"

fun re_sign_wrapper :: "kernel \<Rightarrow> json \<Rightarrow> exc + json" where
  "re_sign_wrapper K (JDict bundle) =
     ebind (py_item (JDict bundle) ''body'')
       (\<lambda>body. ebind (k_jcs K body)
         (\<lambda>body_jcs.
            let bundle = dput ''body_hash'' (JStr (sha256_hex K body_jcs)) bundle;
                pre = filter (\<lambda>(k, v). k \<noteq> ''signature'') bundle;
                bundle = dput ''public_key'' (JStr (PUB_HEX K)) bundle
            in ebind (k_jcs K (JDict pre))
                 (\<lambda>pre_jcs. Inr (JDict (dput ''signature''
                    (JStr (hex_encode (k_ed_sign K stack_seed pre_jcs))) bundle)))))"
| "re_sign_wrapper K v = Inl TypeError"

text \<open>The source bundle is re-signed inside the body, its hash re-linked, the export re-signed.\<close>

definition re_link :: "kernel \<Rightarrow> json \<Rightarrow> exc + json" where
  "re_link K body =
     ebind (py_item body ''source_bundle'')
       (\<lambda>sb. ebind (k_jcs K sb) (\<lambda>b. py_setitem ''source_bundle_hash'' (JStr (sha256_hex K b)) body))"

definition re_sign_source_and_export :: "kernel \<Rightarrow> json \<Rightarrow> exc + json" where
  "re_sign_source_and_export K export =
     ebind (at_key ''body''
              (\<lambda>body. ebind (at_key ''source_bundle'' (re_sign_wrapper K) body) (re_link K)) export)
       (re_sign_wrapper K)"

section \<open>The cases\<close>

record export_case =
  xc_id :: string
  xc_klass :: string
  xc_expected_exit :: int
  xc_bundle :: json

definition add_case :: "string \<times> string \<times> (exc + json) \<Rightarrow> exc + export_case" where
  "add_case c =
     (case c of (vid, klass, mutation) \<Rightarrow>
        ebind mutation
          (\<lambda>bundle. case map_of EXPECTED_EXIT klass of
              None \<Rightarrow> Inl KeyError
            | Some n \<Rightarrow> Inr \<lparr> xc_id = vid, xc_klass = klass, xc_expected_exit = n, xc_bundle = bundle \<rparr>))"

text \<open>A change of the body, and of its first attestation, under a fresh wrapper signature.\<close>

definition tampered_body :: "kernel \<Rightarrow> (json \<Rightarrow> exc + json) \<Rightarrow> json \<Rightarrow> exc + json" where
  "tampered_body K f export = ebind (at_key ''body'' f export) (re_sign_wrapper K)"

definition tampered_attestation :: "kernel \<Rightarrow> (json \<Rightarrow> exc + json) \<Rightarrow> json \<Rightarrow> exc + json" where
  "tampered_attestation K f = tampered_body K (at_key ''attestations'' (at_first f))"

definition SOURCE_REF :: string where
  "SOURCE_REF = ''ar://some-large-source-bundle-txid''"

definition mutations :: "kernel \<Rightarrow> json \<Rightarrow> json \<Rightarrow> (string \<times> string \<times> (exc + json)) list" where
  "mutations K export tamper =
     [(''evidence-export-positive-01'', ''positive'', Inr export),
      (''evidence-export-tamper-wrapper-signature'', ''wrapper-signature-break'',
        at_key ''signature'' flip_last export),
      (''evidence-export-tamper-body-hash'', ''body-hash-mismatch'',
        at_key ''body_hash'' flip_last export),
      (''evidence-export-tamper-source-linkage'', ''source-bundle-hash-mismatch'',
        tampered_body K (at_key ''source_bundle_hash'' flip_last) export),
      (''evidence-export-tamper-verdict-disagreement'', ''verdict-disagreement'',
        tampered_body K
          (at_key ''kernel_verdict'' (at_key ''events''
             (at_first (py_setitem ''signature_ok'' (JBool False))))) export),
      (''evidence-export-tamper-attestation-signature'', ''forged-attestation-signature'',
        tampered_attestation K (at_key ''signature'' flip_last) export),
      (''evidence-export-tamper-mis-salt'', ''mis-salted-attestation'',
        ebind (py_item tamper ''att0_mis_salt_sig'')
          (\<lambda>s. tampered_attestation K (py_setitem ''signature'' s) export)),
      (''evidence-export-tamper-operator-binding'', ''operator-address-binding-break'',
        ebind (py_item tamper ''wrong_operator_attestation'')
          (\<lambda>a. tampered_body K (at_key ''attestations'' (set_first a)) export)),
      (''evidence-export-tamper-data-hash-binding'', ''data-hash-binding-break'',
        ebind (py_item tamper ''wrong_data_hash_attestation'')
          (\<lambda>a. tampered_body K (at_key ''attestations'' (set_first a)) export)),
      (''evidence-export-tamper-disclosed-content'', ''disclosed-content-mismatch'',
        ebind (at_key ''body'' (at_key ''source_bundle'' (at_key ''body'' (at_key ''events''
                 (at_first (at_key ''content'' flip_last))))) export)
          (re_sign_source_and_export K)),
      (''evidence-export-tamper-subject-ref'', ''subject-ref-tamper'',
        tampered_attestation K
          (at_key ''payload'' (at_key ''subject_ref'' (at_key ''hash'' flip_last))) export),
      (''evidence-export-malformed-rsa-key'', ''malformed-rsa-key'',
        tampered_attestation K (at_key ''public_key'' (py_setitem ''kty'' (JStr ''oct''))) export),
      (''evidence-export-malformed-signature-alg'', ''malformed-signature-alg'',
        tampered_attestation K (py_setitem ''signature_alg'' (JStr ''ed25519'')) export),
      (''evidence-export-source-bundle-ref'', ''source-bundle-ref-offline'',
        tampered_body K
          (\<lambda>body. ebind (py_delitem ''source_bundle'' body)
             (py_setitem ''source_bundle_ref'' (JStr SOURCE_REF))) export)]"

definition build_cases :: "kernel \<Rightarrow> json \<Rightarrow> exc + export_case list" where
  "build_cases K fixture =
     ebind (py_item fixture ''export'')
       (\<lambda>export. ebind (py_item fixture ''_tamper'')
         (\<lambda>tamper. emap add_case (mutations K export tamper)))"

section \<open>What a mutation leaves and changes\<close>

lemma dput_same: "map_of d k = Some v \<Longrightarrow> dput k v d = d"
  by (induction d) (auto simp: dput_def split: if_splits)

lemma dput_same_str: "dget d k = JStr s \<Longrightarrow> dput k (JStr s) d = d"
  by (rule dput_same) (auto simp: dget_def split: option.splits)

lemma set_dput: "set (dput k v d) \<subseteq> insert (k, v) (set d)"
  by (induction d) (auto simp: dput_def)

lemma depth_dput: "depth x < depth (JDict d) \<Longrightarrow> depth (JDict (dput k x d)) \<le> depth (JDict d)"
proof -
  assume x: "depth x < depth (JDict d)"
  have "depth v < depth (JDict d)" if "(k', v) \<in> set (dput k x d)" for k' v
    using that set_dput [of k x d] x depth_child [of v "JDict d"] by force
  then have "depth (JDict (dput k x d)) \<le> Suc (depth (JDict d) - 1)"
    unfolding depth_dict_le by fastforce
  then show ?thesis using x by simp
qed

lemma py_setitem_Inr [result_simps]:
  "py_setitem k x v = Inr v' \<longleftrightarrow> (\<exists>d. v = JDict d \<and> v' = JDict (dput k x d))"
  by (cases v) auto

lemma py_delitem_Inr [result_simps]:
  "py_delitem k v = Inr v' \<longleftrightarrow> (\<exists>d. v = JDict d \<and> has_key k d \<and> v' = JDict (dpop k d))"
  by (cases v) auto

lemma py_item_Inr [result_simps]:
  "py_item v k = Inr x \<longleftrightarrow> (\<exists>d. v = JDict d \<and> has_key k d \<and> x = dget d k)"
  by (cases v) auto

lemma at_key_Inr [result_simps]:
  "at_key k f v = Inr v' \<longleftrightarrow>
     (\<exists>d x. v = JDict d \<and> has_key k d \<and> f (dget d k) = Inr x \<and> v' = JDict (dput k x d))"
  by (cases v) (auto simp: at_key_def ebind_Inr_iff)

lemma at_first_Inr [result_simps]:
  "at_first f v = Inr v' \<longleftrightarrow> (\<exists>x xs x'. v = JList (x # xs) \<and> f x = Inr x' \<and> v' = JList (x' # xs))"
  by (cases "(f, v)" rule: at_first.cases) (auto simp: ebind_Inr_iff)

lemma set_first_Inr [result_simps]:
  "set_first x v = Inr v' \<longleftrightarrow> (\<exists>y ys. v = JList (y # ys) \<and> v' = JList (x # ys))"
  by (cases "(x, v)" rule: set_first.cases) auto

lemma flip_last_Inr:
  assumes "flip_last v = Inr v'"
  obtains s t where "v = JStr s" and "v' = JStr t" and "s \<noteq> []" and "t \<noteq> []" and "last t \<noteq> last s"
  using assms by (cases v) (auto split: if_splits)

text \<open>Mutations that nest no deeper.\<close>

named_theorems mutation_depth \<open>rules bounding the depth of a mutated value\<close>

lemma at_key_depth [mutation_depth]:
  assumes "\<And>x x'. f x = Inr x' \<Longrightarrow> depth x' \<le> depth x" and "at_key k f v = Inr v'"
  shows "depth v' \<le> depth v"
proof -
  obtain d x where v: "v = JDict d" "f (dget d k) = Inr x" "v' = JDict (dput k x d)"
    using assms(2) by (auto simp: at_key_Inr)
  have "depth x \<le> depth (dget d k)" by (rule assms(1) [OF v(2)])
  then show ?thesis unfolding v(1,3) using depth_dget [of d k] by (intro depth_dput) simp
qed

lemma at_first_depth [mutation_depth]:
  assumes "\<And>x x'. f x = Inr x' \<Longrightarrow> depth x' \<le> depth x" and "at_first f v = Inr v'"
  shows "depth v' \<le> depth v"
proof -
  obtain x xs x' where v: "v = JList (x # xs)" "f x = Inr x'" "v' = JList (x' # xs)"
    using assms(2) by (auto simp: at_first_Inr)
  have "\<forall>c \<in> set (children (JList (x' # xs))). Suc (depth c) \<le> depth v"
    using assms(1) [OF v(2)] depth_child [of x v] depth_child [of _ v] unfolding v(1) by fastforce
  then show ?thesis
    unfolding v(3) using depth_children [of "JList (x' # xs)" "depth v"] unfolding v(1) by (auto simp: is_container_def)
qed

lemma setitem_depth [mutation_depth]:
  "depth x = 0 \<Longrightarrow> py_setitem k x v = Inr v' \<Longrightarrow> depth v' \<le> depth v"
  by (auto simp: py_setitem_Inr intro!: depth_dput simp del: depth.simps(2)) simp

lemma flip_last_depth [mutation_depth]: "flip_last v = Inr v' \<Longrightarrow> depth v' \<le> depth v"
  by (elim flip_last_Inr) simp

section \<open>Signing again\<close>

lemma re_sign_Inr:
  assumes "re_sign_wrapper K (JDict b) = Inr v"
  obtains bj pj where "k_jcs K (dget b ''body'') = Inr bj"
    and "k_jcs K (JDict (dpop ''signature'' (dput ''body_hash'' (JStr (sha256_hex K bj)) b))) = Inr pj"
    and "v = JDict (dput ''signature'' (JStr (hex_encode (k_ed_sign K stack_seed pj)))
       (dput ''public_key'' (JStr (PUB_HEX K)) (dput ''body_hash'' (JStr (sha256_hex K bj)) b)))"
  using assms by (auto simp: ebind_Inr_iff Let_def dpop_def split: if_splits)

lemma length_stack_seed [simp]: "length stack_seed = 32"
  by (simp add: stack_seed_def eval_nat_numeral)

text \<open>
  What the wrapper needs to be valid once it is signed again: everything but the hash and the
  signature, under the stack key, and no co-signatures, which the verifier leaves out of the
  signed scope and the builder does not.
\<close>

definition resignable :: "kernel \<Rightarrow> items \<Rightarrow> bool" where
  "resignable K b \<longleftrightarrow>
     depth (JDict b) \<le> MAX_CANONICAL_DEPTH
     \<and> matches_evidence_major (dget b ''spec_version'')
     \<and> (is_str (dget b ''signature_alg'') \<longrightarrow> dget b ''signature_alg'' = JStr ''ed25519'')
     \<and> dget b ''body'' \<noteq> JNull
     \<and> dget b ''public_key'' = JStr (PUB_HEX K) \<and> \<not> has_key ''co_signatures'' b"

lemma re_signed_valid:
  assumes "ed25519_contract K" and "resignable K b" and "re_sign_wrapper K (JDict b) = Inr v"
  obtains b' where "v = JDict b'" and "wrapper_valid K b'" and "resignable K b'"
    and "\<And>k. k \<noteq> ''body_hash'' \<Longrightarrow> k \<noteq> ''signature'' \<Longrightarrow> dget b' k = dget b k"
    and "\<And>k. k \<noteq> ''body_hash'' \<Longrightarrow> k \<noteq> ''signature'' \<Longrightarrow> has_key k b' = has_key k b"
    and "depth (JDict b') \<le> depth (JDict b)"
proof -
  from assms(3) obtain bj pj where bj: "k_jcs K (dget b ''body'') = Inr bj"
    and pj: "k_jcs K (JDict (dpop ''signature'' (dput ''body_hash'' (JStr (sha256_hex K bj)) b))) = Inr pj"
    and v: "v = JDict (dput ''signature'' (JStr (hex_encode (k_ed_sign K stack_seed pj)))
       (dput ''public_key'' (JStr (PUB_HEX K)) (dput ''body_hash'' (JStr (sha256_hex K bj)) b)))"
    by (rule re_sign_Inr)
  let ?b1 = "dput ''body_hash'' (JStr (sha256_hex K bj)) b"
  let ?b2 = "dput ''signature'' (JStr (hex_encode (k_ed_sign K stack_seed pj))) ?b1"
  have pk: "dget b ''public_key'' = JStr (PUB_HEX K)" and co: "\<not> has_key ''co_signatures'' b"
    using assms(2) by (simp_all add: resignable_def)
  have "dput ''public_key'' (JStr (PUB_HEX K)) ?b1 = ?b1" using pk by (intro dput_same_str) simp
  then have v: "v = JDict ?b2" using v by simp
  have "depth (JDict ?b1) \<le> depth (JDict b)" by (rule depth_dput) simp
  moreover have "depth (JDict ?b2) \<le> depth (JDict ?b1)" by (rule depth_dput) simp
  ultimately have db: "depth (JDict ?b2) \<le> depth (JDict b)"
    and d: "depth (JDict ?b1) \<le> MAX_CANONICAL_DEPTH" "depth (JDict ?b2) \<le> MAX_CANONICAL_DEPTH"
    using assms(2) by (simp_all only: resignable_def) linarith+
  have nco: "k \<noteq> ''co_signatures''" if "(k, x) \<in> set ?b1" for k x
    using that co by (auto dest!: set_mp [OF set_dput] simp: has_key_def map_of_eq_None_iff image_iff)
  have scope: "bundle_for_sig ?b2 = dpop ''signature'' ?b1"
  proof -
    have "bundle_for_sig ?b2 = bundle_for_sig ?b1"
      unfolding bundle_for_sig_def by (rule filter_dput_out) simp
    also have "\<dots> = dpop ''signature'' ?b1"
      unfolding bundle_for_sig_def dpop_def using nco by (intro filter_cong) auto
    finally show ?thesis .
  qed
  have "depth (JDict (dpop ''signature'' ?b1)) \<le> depth (JDict ?b1)"
    unfolding dpop_def by (rule depth_mono) auto
  then have "canonical K (JDict (bundle_for_sig ?b2)) = Inr pj"
    unfolding scope canonical_def canonical_json_Inr using pj d(1) by linarith
  moreover have "canonical K (dget b ''body'') = Inr bj"
    unfolding canonical_def canonical_json_Inr using bj assms(2) depth_dget [of b "''body''"]
    by (simp add: resignable_def del: depth.simps)
  then have "canonical_hash K (dget b ''body'') = Inr (sha256_hex K bj)" by (simp add: canonical_hash_Inr)
  ultimately have "wrapper_valid K ?b2"
    using assms(1,2) d(2) unfolding wrapper_valid_def resignable_def
    by (simp add: verify_signature_iff PUB_HEX_def fromhex_hex_encode ed25519_contract_def del: depth.simps)
  moreover have "resignable K ?b2"
    using assms(2) d(2) by (simp add: resignable_def del: depth.simps)
  ultimately show thesis using that v db by (simp del: depth.simps)
qed

section \<open>The verifier on a mutated export\<close>

text \<open>The golden export: verified, an export, signed with the stack key, without co-signatures.\<close>

definition golden_export ::
  "kernel \<Rightarrow> 'w fetch option \<Rightarrow> string list \<Rightarrow> side_input \<Rightarrow> items \<Rightarrow> 'w \<Rightarrow> bool" where
  "golden_export K fetch gateways content b w \<longleftrightarrow>
     (case verify_evidence_bundle K fetch gateways content (JDict b) w of
        Inl e \<Rightarrow> False
      | Inr (r, w') \<Rightarrow> er_status r = Verified)
     \<and> body_type_of b = Some EXPORT_BODY_TYPE
     \<and> dget b ''public_key'' = JStr (PUB_HEX K) \<and> \<not> has_key ''co_signatures'' b"

text \<open>The verifier returns and the result has the exit code.\<close>

definition exits ::
  "kernel \<Rightarrow> 'w fetch option \<Rightarrow> string list \<Rightarrow> side_input \<Rightarrow> json \<Rightarrow> 'w \<Rightarrow> int \<Rightarrow> bool" where
  "exits K fetch gateways content v w n \<longleftrightarrow>
     (case verify_evidence_bundle K fetch gateways content v w of
        Inl e \<Rightarrow> False
      | Inr (r, w') \<Rightarrow> exit_code r = n)"

lemma exitsI: "verify_evidence_bundle K fetch gateways content v w = Inr (r, w') \<Longrightarrow> exit_code r = n \<Longrightarrow>
    exits K fetch gateways content v w n"
  by (simp add: exits_def)

lemma exit_codes:
  "er_status r = Failed \<Longrightarrow> exit_code r = 1"
  "er_status r = Malformed \<Longrightarrow> exit_code r = 2"
  "er_status r = Verified \<Longrightarrow> exit_code r = 0"
  by (simp_all add: exit_code_def)

lemma golden_parts:
  assumes "golden_export K fetch gateways content b w"
  obtains r body recs source w' as where
    "verify_evidence_bundle K fetch gateways content (JDict b) w = Inr (r, w')"
    "er_status r = Verified" "resignable K b" "wrapper_valid K b"
    "export_shape b body recs" "dget body ''source_bundle'' \<noteq> JNull"
    "canonical_hash K (dget body ''source_bundle'') = Inr (str_or [] (dget body ''source_bundle_hash''))"
    "verify_evidence_bundle K fetch gateways content (dget body ''source_bundle'') w = Inr (source, w')"
    "er_status source = Verified"
    "verify_attestations K recs (source_checkpoints (dget body ''source_bundle'')) = Inr (Inr as)"
    "list_all at_ok as" "agreement K (dget body ''kernel_verdict'') source as"
proof -
  obtain r w' where r: "verify_evidence_bundle K fetch gateways content (JDict b) w = Inr (r, w')"
    "er_status r = Verified"
    using assms by (auto simp: golden_export_def split: sum.splits prod.splits)
  have wv: "wrapper_valid K b"
    using verify_evidence_bundle_invalid [of K b fetch gateways content w] r by fastforce
  then have "verify_export_body (verify_evidence_bundle K fetch gateways content)
             K b (asserted_status_of b) [] w = Inr (r, w')"
    using r(1) assms by (simp add: verify_evidence_bundle_valid golden_export_def)
  from export_verified [OF this r(2)] obtain body recs source as where
    "export_shape b body recs" "dget body ''source_bundle'' \<noteq> JNull"
    "canonical_hash K (dget body ''source_bundle'') = Inr (str_or [] (dget body ''source_bundle_hash''))"
    "verify_evidence_bundle K fetch gateways content (dget body ''source_bundle'') w = Inr (source, w')"
    "er_status source = Verified"
    "verify_attestations K recs (source_checkpoints (dget body ''source_bundle'')) = Inr (Inr as)"
    "list_all at_ok as" "agreement K (dget body ''kernel_verdict'') source as" by blast
  moreover have "resignable K b"
    using wv assms by (simp add: wrapper_valid_def resignable_def golden_export_def)
  ultimately show thesis using that r wv by blast
qed

text \<open>A changed body under a fresh signature: the wrapper is valid and the body is the changed one.\<close>

lemma tampered_body_Inr:
  assumes "ed25519_contract K" and "resignable K b"
    and "body_type_of b = Some EXPORT_BODY_TYPE" and "dget b ''body'' = JDict body"
    and "tampered_body K f (JDict b) = Inr v"
    and "\<And>x. f (JDict body) = Inr x \<Longrightarrow> x \<noteq> JNull \<and> depth x \<le> depth (JDict body)"
  obtains b' x where "v = JDict b'" and "wrapper_valid K b'" and "body_type_of b' = Some EXPORT_BODY_TYPE"
    and "f (JDict body) = Inr x" and "dget b' ''body'' = x"
proof -
  obtain x where x: "f (JDict body) = Inr x" and v: "re_sign_wrapper K (JDict (dput ''body'' x b)) = Inr v"
    using assms(4,5) by (auto simp: tampered_body_def ebind_Inr_iff at_key_Inr)
  have "depth x < depth (JDict b)"
    using assms(6) [OF x] depth_dget [of b "''body''"] assms(4) by simp
  then have "depth (JDict (dput ''body'' x b)) \<le> depth (JDict b)" by (rule depth_dput)
  then have "resignable K (dput ''body'' x b)"
    using assms(2) assms(6) [OF x] by (simp add: resignable_def del: depth.simps)
  from re_signed_valid [OF assms(1) this v] obtain b' where
    "v = JDict b'" "wrapper_valid K b'"
    "\<And>k. k \<noteq> ''body_hash'' \<Longrightarrow> k \<noteq> ''signature'' \<Longrightarrow> dget b' k = dget (dput ''body'' x b) k" by blast
  then show thesis using that x assms(3) by (simp add: body_type_of_def)
qed

lemma export_run:
  assumes "wrapper_valid K b" and "body_type_of b = Some EXPORT_BODY_TYPE"
    and "export_shape b body recs" and "dget body ''source_bundle'' \<noteq> JNull"
    and "verify_evidence_bundle K fetch gateways content (dget body ''source_bundle'') w = Inr (source, w')"
  shows "verify_attestations K recs (source_checkpoints (dget body ''source_bundle'')) = Inr (Inl msg) \<Longrightarrow>
      exits K fetch gateways content (JDict b) w 2"
    and "verify_attestations K recs (source_checkpoints (dget body ''source_bundle'')) = Inr (Inr as) \<Longrightarrow>
      \<not> (fst (check_source_linkage K body) \<and> agreement K (dget body ''kernel_verdict'') source as
         \<and> er_status source = Verified \<and> list_all at_ok as) \<Longrightarrow>
      er_status source \<noteq> Partial \<Longrightarrow>
      exits K fetch gateways content (JDict b) w 1"
  using verify_export_body_run [OF assms(3,4), of "verify_evidence_bundle K fetch gateways content" K
      "asserted_status_of b" "[]" w] assms(1,2,5)
  by (auto simp: exits_def verify_evidence_bundle_valid export_malformed_def wrapper_only_def exit_code_def
      finish_export_fields export_status_def list_ex_iff list_all_iff split: status.splits)
     (cases "er_status source"; auto)+

section \<open>One flipped nibble\<close>

lemma flip_last_ascii:
  assumes "s \<noteq> []" and "\<not> is_continuation (last s)"
  shows "flip_last (JStr s) = Inr (JStr (butlast s @ [if last s = CHR ''0'' then CHR ''1'' else CHR ''0'']))"
proof -
  obtain t c where s: "s = t @ [c]" using assms(1) by (cases s rule: rev_cases) auto
  then have "drop_last_char s = butlast s" using assms(2) by (simp add: drop_last_char_def)
  then show ?thesis using assms(1) by simp
qed

lemma fromhex_chars: "fromhex s = Inr bs \<Longrightarrow> list_all (\<lambda>c. is_space c \<or> hex_val c \<noteq> None) s"
  by (induction s arbitrary: bs rule: fromhex.induct)
    (auto simp: result_simps split: if_splits option.splits)

lemma hex_or_space_ascii: "is_space c \<or> hex_val c \<noteq> None \<Longrightarrow> \<not> is_continuation c"
  by (auto simp: is_space_def hex_val_def is_continuation_def Let_def split: if_splits)

lemma lower_zero: "lower_char c = CHR ''0'' \<longleftrightarrow> c = CHR ''0''"
  by (auto simp: lower_char_def Let_def char_eq_of_char)

text \<open>The flipped text never decodes to the same bytes.\<close>

lemma flip_decodes_apart:
  assumes "fromhex s = Inr bs" and "flip_last (JStr s) = Inr (JStr t)"
  shows "fromhex t \<noteq> Inr bs"
proof
  assume t: "fromhex t = Inr bs"
  have ne: "s \<noteq> []" using assms(2) by (auto split: if_splits)
  define c where "c = (if last s = CHR ''0'' then CHR ''1'' else CHR ''0'')"
  have "is_space (last s) \<or> hex_val (last s) \<noteq> None"
    using fromhex_chars [OF assms(1)] ne by (simp add: list_all_iff)
  then have "\<not> is_continuation (last s)" by (rule hex_or_space_ascii)
  then have "t = butlast s @ [c]" using assms(2) flip_last_ascii [OF ne] by (simp only: c_def) simp
  moreover have "s = butlast s @ [last s]" using ne by simp
  moreover have "lower (filter (\<lambda>c. \<not> is_space c) s) = lower (filter (\<lambda>c. \<not> is_space c) t)"
    using fromhex_strip [OF assms(1)] fromhex_strip [OF t] by simp
  ultimately have "lower (filter (\<lambda>c. \<not> is_space c) (butlast s @ [last s])) = lower (filter (\<lambda>c. \<not> is_space c) (butlast s @ [c]))"
    by metis
  then have "lower (filter (\<lambda>c. \<not> is_space c) [last s]) = lower (filter (\<lambda>c. \<not> is_space c) [c])"
    by (simp only: filter_append lower_def map_append same_append_eq)
  moreover have "\<not> is_space c" by (simp add: is_space_def c_def)
  ultimately have lc: "lower_char (last s) = lower_char c"
    by (cases "is_space (last s)") (simp_all add: lower_def)
  show False
  proof (cases "last s = CHR ''0''")
    case True
    then have "lower_char CHR ''0'' = lower_char CHR ''1''" using lc by (simp add: c_def)
    then show False by code_simp
  next
    case False
    then have "lower_char (last s) = CHR ''0''" using lc lower_zero [of c] by (simp add: c_def)
    with False lower_zero show False by blast
  qed
qed

section \<open>The cases one by one\<close>

lemma broken_wrapper_exits:
  assumes "depth (JDict b) \<le> MAX_CANONICAL_DEPTH" and "matches_evidence_major (dget b ''spec_version'')"
    and "is_str (dget b ''signature_alg'') \<longrightarrow> dget b ''signature_alg'' = JStr ''ed25519''"
    and "dget b ''body'' \<noteq> JNull" and "is_str (dget b ''public_key'')" and "is_str (dget b ''signature'')"
    and "is_str (dget b ''body_hash'')" and "\<not> wrapper_valid K b"
  shows "exits K fetch gateways content (JDict b) w 1"
proof -
  obtain r where r: "check_wrapper K b = Inl r"
    using assms(8) check_wrapper_Inr [of K b] by (cases "check_wrapper K b") auto
  then have "er_status r = Failed"
    using assms(1-7) unfolding check_wrapper_def case_prod_beta Let_def
    by (auto simp: exceeds_depth_iff split: if_splits)
  then show ?thesis using r by (simp add: exits_def verify_evidence_bundle.simps exit_code_def)
qed

lemma flipped_wrapper_exits:
  assumes "wrapper_valid K b" and "k = ''signature'' \<or> k = ''body_hash''"
    and "at_key k flip_last (JDict b) = Inr v"
  obtains b' t where "v = JDict b'" and "b' = dput k (JStr t) b" and "flip_last (dget b k) = Inr (JStr t)"
    and "\<not> wrapper_valid K b' \<Longrightarrow> exits K fetch gateways content v w 1"
proof -
  from assms(3) obtain x where x: "flip_last (dget b k) = Inr x" and v: "v = JDict (dput k x b)"
    by (auto simp: at_key_Inr)
  from x obtain t where t: "x = JStr t" by (rule flip_last_Inr)
  have str: "is_str (dget b ''public_key'')" "is_str (dget b ''signature'')" "is_str (dget b ''body_hash'')"
    using assms(1) verify_signature_strings unfolding wrapper_valid_def by auto
  have "depth (JDict (dput k (JStr t) b)) \<le> depth (JDict b)" by (rule depth_dput) simp
  then have "exits K fetch gateways content v w 1" if "\<not> wrapper_valid K (dput k (JStr t) b)"
    unfolding v t using assms(1,2) str that
    by (intro broken_wrapper_exits) (auto simp: wrapper_valid_def simp del: depth.simps)
  with that x v t show thesis by blast
qed

lemma body_hash_case:
  assumes "wrapper_valid K b" and "at_key ''body_hash'' flip_last (JDict b) = Inr v"
  shows "exits K fetch gateways content v w 1"
proof -
  obtain b' t where v: "v = JDict b'" "b' = dput ''body_hash'' (JStr t) b"
    and t: "flip_last (dget b ''body_hash'') = Inr (JStr t)"
    and e: "\<not> wrapper_valid K b' \<Longrightarrow> exits K fetch gateways content v w 1"
    by (rule flipped_wrapper_exits [OF assms(1) _ assms(2)]) auto
  obtain s where s: "dget b ''body_hash'' = JStr s" "last t \<noteq> last s" using t by (rule flip_last_Inr) auto
  have "\<not> wrapper_valid K b'"
    using assms(1) s unfolding wrapper_valid_def v(2) by auto
  then show ?thesis by (rule e)
qed

text \<open>The parts of the golden export, and a change of its body under a fresh signature.\<close>

definition golden_parts_of ::
  "kernel \<Rightarrow> 'w fetch option \<Rightarrow> string list \<Rightarrow> side_input \<Rightarrow> items \<Rightarrow> 'w
     \<Rightarrow> items \<Rightarrow> json list \<Rightarrow> evidence_result \<Rightarrow> 'w \<Rightarrow> attestation_result list \<Rightarrow> bool" where
  "golden_parts_of K fetch gateways content b w body recs source w' as \<longleftrightarrow>
     export_shape b body recs \<and> dget body ''source_bundle'' \<noteq> JNull
     \<and> canonical_hash K (dget body ''source_bundle'') = Inr (str_or [] (dget body ''source_bundle_hash''))
     \<and> verify_evidence_bundle K fetch gateways content (dget body ''source_bundle'') w = Inr (source, w')
     \<and> er_status source = Verified
     \<and> verify_attestations K recs (source_checkpoints (dget body ''source_bundle'')) = Inr (Inr as)
     \<and> list_all at_ok as \<and> agreement K (dget body ''kernel_verdict'') source as"

definition re_signed_export :: "kernel \<Rightarrow> items \<Rightarrow> items \<Rightarrow> bool" where
  "re_signed_export K b' body' \<longleftrightarrow>
     wrapper_valid K b' \<and> body_type_of b' = Some EXPORT_BODY_TYPE \<and> dget b' ''body'' = JDict body'"

lemma golden_tampered_at:
  assumes "ed25519_contract K" and "golden_export K fetch gateways content b w"
    and "tampered_body K f (JDict b) = Inr v"
    and keeps: "\<And>body x'. dget b ''body'' = JDict body \<Longrightarrow> f (JDict body) = Inr x' \<Longrightarrow>
       is_dict x' \<and> depth x' \<le> depth (JDict body)"
  obtains body recs source w' as b' body' where
    "golden_parts_of K fetch gateways content b w body recs source w' as"
    and "v = JDict b'" and "re_signed_export K b' body'" and "f (JDict body) = Inr (JDict body')"
proof (rule golden_parts [OF assms(2)])
  fix r body recs source w' as
  assume g: "resignable K b" "export_shape b body recs" "dget body ''source_bundle'' \<noteq> JNull"
    "canonical_hash K (dget body ''source_bundle'') = Inr (str_or [] (dget body ''source_bundle_hash''))"
    "verify_evidence_bundle K fetch gateways content (dget body ''source_bundle'') w = Inr (source, w')"
    "er_status source = Verified"
    "verify_attestations K recs (source_checkpoints (dget body ''source_bundle'')) = Inr (Inr as)"
    "list_all at_ok as" "agreement K (dget body ''kernel_verdict'') source as"
  have ty: "body_type_of b = Some EXPORT_BODY_TYPE" using assms(2) by (simp add: golden_export_def)
  have body: "dget b ''body'' = JDict body" using g(2) by (simp add: export_shape_def)
  have "x \<noteq> JNull \<and> depth x \<le> depth (JDict body)" if "f (JDict body) = Inr x" for x
    using keeps [OF body that] by (cases x) simp_all
  from tampered_body_Inr [OF assms(1) g(1) ty body assms(3) this] obtain b' x where
    b': "v = JDict b'" "wrapper_valid K b'" "body_type_of b' = Some EXPORT_BODY_TYPE"
    "f (JDict body) = Inr x" "dget b' ''body'' = x" by metis
  obtain body' where x: "x = JDict body'" using keeps [OF body b'(4)] is_dict_iff by metis
  have "golden_parts_of K fetch gateways content b w body recs source w' as"
    unfolding golden_parts_of_def using g(2-) by (intro conjI)
  moreover have "re_signed_export K b' body'" using b'(2,3,5) x by (simp add: re_signed_export_def)
  ultimately show thesis by (rule that [OF _ b'(1) _ b'(4) [unfolded x]])
qed

lemma golden_tampered:
  assumes "ed25519_contract K" and "golden_export K fetch gateways content b w"
    and "tampered_body K f (JDict b) = Inr v"
    and keeps: "\<And>x x'. f x = Inr x' \<Longrightarrow> is_dict x' \<and> depth x' \<le> depth x"
  obtains body recs source w' as b' body' where
    "golden_parts_of K fetch gateways content b w body recs source w' as"
    and "v = JDict b'" and "re_signed_export K b' body'" and "f (JDict body) = Inr (JDict body')"
  by (rule golden_tampered_at [OF assms(1-3) keeps]) (assumption, rule that)

lemma at_key_keeps:
  assumes "\<And>x x'. f x = Inr x' \<Longrightarrow> depth x' \<le> depth x" and "at_key k f v = Inr v'"
  shows "is_dict v' \<and> depth v' \<le> depth v"
  using at_key_depth [OF assms] assms(2) by (auto simp: at_key_Inr)

lemma flip_key_keeps: "at_key k flip_last x = Inr x' \<Longrightarrow> is_dict x' \<and> depth x' \<le> depth x"
  by (rule at_key_keeps [OF flip_last_depth])

lemma source_linkage_case:
  assumes "ed25519_contract K" and "golden_export K fetch gateways content b w"
    and "tampered_body K (at_key ''source_bundle_hash'' flip_last) (JDict b) = Inr v"
  shows "exits K fetch gateways content v w 1"
proof (rule golden_tampered [OF assms flip_key_keeps [of "''source_bundle_hash''"]])
  fix body recs source w' as b' body'
  assume g: "golden_parts_of K fetch gateways content b w body recs source w' as"
    and v: "v = JDict b'" and b': "re_signed_export K b' body'"
    and x: "at_key ''source_bundle_hash'' flip_last (JDict body) = Inr (JDict body')"
  from x obtain y where y: "flip_last (dget body ''source_bundle_hash'') = Inr y"
    and x: "body' = dput ''source_bundle_hash'' y body" by (auto simp: at_key_Inr)
  from y obtain s t where s: "dget body ''source_bundle_hash'' = JStr s" "y = JStr t" "last t \<noteq> last s"
    by (rule flip_last_Inr) auto
  have sh: "export_shape b' body' recs"
    using g b' by (simp add: golden_parts_of_def re_signed_export_def export_shape_def x s(2))
  have src: "dget body' ''source_bundle'' = dget body ''source_bundle''" by (simp add: x)
  have "\<not> fst (check_source_linkage K body')"
    using check_source_linkage_ok(1) [of body' K] g s by (auto simp: x golden_parts_of_def str_or_def)
  then show ?thesis
    unfolding v using export_run(2) [OF _ _ sh, of K fetch gateways content w source w' as] g b'
    unfolding src by (simp add: golden_parts_of_def re_signed_export_def)
qed

lemma source_ref_keeps:
  assumes "ebind (py_delitem ''source_bundle'' x) (py_setitem ''source_bundle_ref'' (JStr SOURCE_REF)) = Inr x'"
  shows "is_dict x' \<and> depth x' \<le> depth x"
proof -
  from assms obtain d where
    d: "x = JDict d" "x' = JDict (dput ''source_bundle_ref'' (JStr SOURCE_REF) (dpop ''source_bundle'' d))"
    by (auto simp: ebind_Inr_iff py_setitem_Inr py_delitem_Inr)
  have "depth (JDict (dput ''source_bundle_ref'' (JStr SOURCE_REF) (dpop ''source_bundle'' d)))
      \<le> depth (JDict (dpop ''source_bundle'' d))" by (rule depth_dput) simp
  also have "\<dots> \<le> depth (JDict d)" unfolding dpop_def by (rule depth_mono) auto
  finally show ?thesis by (simp only: d is_dict.simps simp_thms)
qed

lemma unavailable_in_note: "occurs_in ''unavailable offline'' SOURCE_REF_NOTE"
  unfolding occurs_in_def sublist_def
  by (rule exI [of _ "''source_bundle is not inline (source_bundle_ref) '' @ em_dash @ '' bytes ''"],
      rule exI [of _ "''; source-dependent checks undetermined''"]) (simp add: SOURCE_REF_NOTE_def)

lemma source_ref_case:
  assumes "ed25519_contract K" and "golden_export K fetch gateways content b w"
    and "tampered_body K
          (\<lambda>body. ebind (py_delitem ''source_bundle'' body)
             (py_setitem ''source_bundle_ref'' (JStr SOURCE_REF))) (JDict b) = Inr v"
  shows "exits K fetch gateways content v w 3"
proof (rule golden_tampered [OF assms source_ref_keeps])
  fix body recs source w' as b' body'
  assume g: "golden_parts_of K fetch gateways content b w body recs source w' as"
    and v: "v = JDict b'" and b': "re_signed_export K b' body'"
    and x: "ebind (py_delitem ''source_bundle'' (JDict body)) (py_setitem ''source_bundle_ref'' (JStr SOURCE_REF)) = Inr (JDict body')"
  have x: "body' = dput ''source_bundle_ref'' (JStr SOURCE_REF) (dpop ''source_bundle'' body)"
    using x by (auto split: if_splits)
  have "export_shape b' body' recs" using g b' by (simp add: golden_parts_of_def re_signed_export_def export_shape_def x)
  moreover have "dget body' ''source_bundle'' = JNull" by (simp add: x)
  ultimately have "verify_evidence_bundle K fetch gateways content (JDict b') w =
      Inr (wrapper_only Partial (Some EXPORT_BODY_TYPE) (asserted_status_of b') [SOURCE_REF_NOTE], w)"
    using b' by (simp add: re_signed_export_def verify_evidence_bundle_valid verify_export_body_def export_shape_def)
  then show ?thesis
    unfolding v using unavailable_in_note
    by (simp add: exits_def exit_code_def wrapper_only_def UNDETERMINED_MARKERS_def)
qed

lemma canonical_field:
  assumes "jcs_closed K" and "canonical K (JDict d) = Inr c" and "dget d k \<noteq> JNull"
  shows "\<exists>c'. canonical K (dget d k) = Inr c'"
  using canonical_dget [OF assms] by blast

text \<open>A change of the first attestation: its verdict decides the exit code.\<close>

lemma attestation_tampered_at:
  assumes "ed25519_contract K" and "golden_export K fetch gateways content b w"
    and "tampered_body K (at_key ''attestations'' g) (JDict b) = Inr v"
    and keeps: "\<And>body x'. dget b ''body'' = JDict body \<Longrightarrow> g (dget body ''attestations'') = Inr x' \<Longrightarrow>
       depth x' \<le> depth (dget body ''attestations'')"
    and g: "\<And>x x'. g x = Inr x' \<Longrightarrow> (\<exists>rec rec' rest. x = JList (rec # rest) \<and> x' = JList (rec' # rest) \<and> f rec = Inr rec')"
  obtains rec rec' a sources body rest where "f rec = Inr rec'"
    and "dget b ''body'' = JDict body" and "dget body ''attestations'' = JList (rec # rest)"
    and "sources = source_checkpoints (dget body ''source_bundle'')"
    and "jcs_closed K \<Longrightarrow> \<exists>c. canonical K rec' = Inr c"
    and "verify_attestation K rec sources = Inr (a, None)" and "at_ok a"
    and "\<And>a' msg. verify_attestation K rec' sources = Inr (a', Some msg) \<Longrightarrow> exits K fetch gateways content v w 2"
    and "\<And>a'. verify_attestation K rec' sources = Inr (a', None) \<Longrightarrow> \<not> at_ok a' \<Longrightarrow>
       exits K fetch gateways content v w 1"
proof (rule golden_tampered_at [OF assms(1-3)])
  fix body x'
  assume body: "dget b ''body'' = JDict body" and "at_key ''attestations'' g (JDict body) = Inr x'"
  then obtain y where y: "g (dget body ''attestations'') = Inr y" and x': "x' = JDict (dput ''attestations'' y body)"
    by (auto simp: at_key_Inr)
  from keeps [OF body y] have "depth y < depth (JDict body)" using depth_dget [of body "''attestations''"] by linarith
  then show "is_dict x' \<and> depth x' \<le> depth (JDict body)" unfolding x' by (simp only: is_dict.simps depth_dput simp_thms)
next
  fix body recs source w' as b' body'
  assume gp: "golden_parts_of K fetch gateways content b w body recs source w' as"
    and v: "v = JDict b'" and b': "re_signed_export K b' body'"
    and x: "at_key ''attestations'' g (JDict body) = Inr (JDict body')"
  let ?S = "source_checkpoints (dget body ''source_bundle'')"
  have recs: "dget body ''attestations'' = JList recs" using gp by (simp add: golden_parts_of_def export_shape_def)
  from x obtain y where y: "g (JList recs) = Inr y" and body': "body' = dput ''attestations'' y body"
    by (auto simp: at_key_Inr recs)
  from g [OF y] obtain rec rec' rest where r: "recs = rec # rest" "y = JList (rec' # rest)" "f rec = Inr rec'" by auto
  have sh: "export_shape b' body' (rec' # rest)"
    using gp b' by (simp add: golden_parts_of_def re_signed_export_def export_shape_def body' r(2))
  have src: "dget body' ''source_bundle'' = dget body ''source_bundle''" by (simp add: body')
  obtain a as' where a: "verify_attestation K rec ?S = Inr (a, None)" "verify_attestations K rest ?S = Inr (Inr as')"
    "at_ok a"
    using gp unfolding golden_parts_of_def verify_attestations_Inr r(1) by (auto simp: list_all2_Cons1)
  note run = export_run [OF _ _ sh, of K fetch gateways content w source w', unfolded src]
  have "exits K fetch gateways content v w 2" if "verify_attestation K rec' ?S = Inr (a', Some msg)" for a' msg
    unfolding v using run(1) [of msg] that gp b' by (simp add: golden_parts_of_def re_signed_export_def)
  moreover have "exits K fetch gateways content v w 1"
    if "verify_attestation K rec' ?S = Inr (a', None)" "\<not> at_ok a'" for a'
    unfolding v using run(2) [of "a' # as'"] that gp b' a(2) by (simp add: golden_parts_of_def re_signed_export_def)
  moreover have "\<exists>c. canonical K rec' = Inr c" if "jcs_closed K"
  proof -
    obtain c where "canonical K (JDict body') = Inr c"
      using b' by (auto simp: re_signed_export_def wrapper_valid_def canonical_hash_Inr)
    from canonical_field [OF that this, of "''attestations''"] obtain c' where
      "canonical K (JList (rec' # rest)) = Inr c'" by (auto simp: body' r(2))
    from canonical_closed [OF that this, of rec'] show ?thesis by auto
  qed
  moreover have "dget b ''body'' = JDict body" "dget body ''attestations'' = JList (rec # rest)"
    using gp recs r(1) by (simp_all add: golden_parts_of_def export_shape_def)
  ultimately show thesis using that r(3) a(1,3) by blast
qed

lemma attestation_tampered:
  assumes "ed25519_contract K" and "golden_export K fetch gateways content b w"
    and "tampered_body K (at_key ''attestations'' g) (JDict b) = Inr v"
    and keeps: "\<And>x x'. g x = Inr x' \<Longrightarrow> depth x' \<le> depth x"
    and g: "\<And>x x'. g x = Inr x' \<Longrightarrow> (\<exists>rec rec' rest. x = JList (rec # rest) \<and> x' = JList (rec' # rest) \<and> f rec = Inr rec')"
  obtains rec rec' a sources body rest where "f rec = Inr rec'"
    and "dget b ''body'' = JDict body" and "dget body ''attestations'' = JList (rec # rest)"
    and "sources = source_checkpoints (dget body ''source_bundle'')"
    and "jcs_closed K \<Longrightarrow> \<exists>c. canonical K rec' = Inr c"
    and "verify_attestation K rec sources = Inr (a, None)" and "at_ok a"
    and "\<And>a' msg. verify_attestation K rec' sources = Inr (a', Some msg) \<Longrightarrow> exits K fetch gateways content v w 2"
    and "\<And>a'. verify_attestation K rec' sources = Inr (a', None) \<Longrightarrow> \<not> at_ok a' \<Longrightarrow>
       exits K fetch gateways content v w 1"
  by (rule attestation_tampered_at [OF assms(1-3) keeps g]) (assumption, assumption, rule that)

lemma first_keeps:
  "(\<And>x x'. f x = Inr x' \<Longrightarrow> depth x' \<le> depth x) \<Longrightarrow> at_first f x = Inr x' \<Longrightarrow> depth x' \<le> depth x"
  by (rule at_first_depth)

lemma first_shape:
  "at_first f x = Inr x' \<Longrightarrow> \<exists>rec rec' rest. x = JList (rec # rest) \<and> x' = JList (rec' # rest) \<and> f rec = Inr rec'"
  by (auto simp: at_first_Inr)

text \<open>A record that no longer has the shape ends the verification as malformed.\<close>

lemma misshaped_attestation:
  assumes "\<And>d payload pub. \<not> attestation_shape rec d payload pub"
  obtains a msg where "verify_attestation K rec sources = Inr (a, Some msg)"
  using assms by (cases rule: verify_attestation_cases [of K rec sources]) auto

lemma malformed_case:
  assumes "ed25519_contract K" and "golden_export K fetch gateways content b w"
    and "tampered_attestation K f (JDict b) = Inr v"
    and keeps: "\<And>x x'. f x = Inr x' \<Longrightarrow> depth x' \<le> depth x"
    and bad: "\<And>rec rec' d payload pub. f rec = Inr rec' \<Longrightarrow> \<not> attestation_shape rec' d payload pub"
  shows "exits K fetch gateways content v w 2"
proof (rule attestation_tampered [OF assms(1,2) assms(3) [unfolded tampered_attestation_def] first_keeps [OF keeps] first_shape])
  fix rec rec' a sources
  assume f: "f rec = Inr rec'"
    and e: "\<And>a' msg. verify_attestation K rec' sources = Inr (a', Some msg) \<Longrightarrow> exits K fetch gateways content v w 2"
  obtain a msg where "verify_attestation K rec' sources = Inr (a, Some msg)"
    using misshaped_attestation [OF bad [OF f]] by blast
  then show ?thesis by (rule e)
qed

lemma rsa_key_case:
  assumes "ed25519_contract K" and "golden_export K fetch gateways content b w"
    and "tampered_attestation K (at_key ''public_key'' (py_setitem ''kty'' (JStr ''oct''))) (JDict b) = Inr v"
  shows "exits K fetch gateways content v w 2"
proof (rule malformed_case [OF assms])
  show "depth x' \<le> depth x" if "at_key ''public_key'' (py_setitem ''kty'' (JStr ''oct'')) x = Inr x'" for x x'
    by (rule at_key_depth [OF _ that], rule setitem_depth) simp_all
  show "\<not> attestation_shape rec' d payload pub"
    if "at_key ''public_key'' (py_setitem ''kty'' (JStr ''oct'')) rec = Inr rec'" for rec rec' d payload pub
    using that by (auto simp: at_key_Inr py_setitem_Inr attestation_shape_def is_rsa_jwk_def)
qed

lemma signature_alg_case:
  assumes "ed25519_contract K" and "golden_export K fetch gateways content b w"
    and "tampered_attestation K (py_setitem ''signature_alg'' (JStr ''ed25519'')) (JDict b) = Inr v"
  shows "exits K fetch gateways content v w 2"
proof (rule malformed_case [OF assms])
  show "depth x' \<le> depth x" if "py_setitem ''signature_alg'' (JStr ''ed25519'') x = Inr x'" for x x'
    by (rule setitem_depth [OF _ that]) simp
  show "\<not> attestation_shape rec' d payload pub"
    if "py_setitem ''signature_alg'' (JStr ''ed25519'') rec = Inr rec'" for rec rec' d payload pub
    using that by (auto simp: py_setitem_Inr attestation_shape_def)
qed

section \<open>Attestations under a changed signature or payload\<close>

lemma strict_hex_digits:
  "strict_hex_to_bytes (JStr s) = Inr bs \<longleftrightarrow>
     even (length s) \<and> list_all (\<lambda>c. hex_val c \<noteq> None) s \<and> fromhex s = Inr bs"
proof
  assume a: "strict_hex_to_bytes (JStr s) = Inr bs"
  then have s: "even (length s)" "re_star_match (\<lambda>c. hex_val c \<noteq> None) s" "fromhex s = Inr bs"
    by (auto split: if_splits)
  have "list_all (\<lambda>c. hex_val c \<noteq> None) s"
  proof (rule ccontr)
    assume "\<not> ?thesis"
    with s(2) obtain t where "s = t @ [CHR 0x0A]" "list_all (\<lambda>c. hex_val c \<noteq> None) t"
      unfolding re_star_match_iff by blast
    with s fromhex_newline [of t] show False by simp
  qed
  with s show "even (length s) \<and> list_all (\<lambda>c. hex_val c \<noteq> None) s \<and> fromhex s = Inr bs" by simp
qed (simp add: re_star_match_all)

text \<open>The flip of a strict hexadecimal text is one, and decodes to other bytes.\<close>

lemma strict_hex_flip:
  assumes "strict_hex_to_bytes (JStr s) = Inr bs" and "flip_last (JStr s) = Inr (JStr t)"
  shows "\<exists>bs'. strict_hex_to_bytes (JStr t) = Inr bs' \<and> bs' \<noteq> bs"
proof -
  have s: "even (length s)" "list_all (\<lambda>c. hex_val c \<noteq> None) s" "fromhex s = Inr bs"
    using assms(1) unfolding strict_hex_digits by simp_all
  have ne: "s \<noteq> []" using assms(2) by (auto split: if_splits)
  then have "hex_val (last s) \<noteq> None" using s(2) by (simp add: list_all_iff)
  then have t: "t = butlast s @ [if last s = CHR ''0'' then CHR ''1'' else CHR ''0'']"
    using flip_last_ascii [OF ne hex_or_space_ascii] assms(2) by simp
  have "length t = length s" using ne by (simp add: t)
  moreover have "list_all (\<lambda>c. hex_val c \<noteq> None) t"
    using s(2) by (auto simp: t list_all_iff hex_val_def dest: in_set_butlastD)
  ultimately have d: "even (length t)" "list_all (\<lambda>c. hex_val c \<noteq> None) t" using s(1) by simp_all
  obtain bs' where "fromhex t = Inr bs'" using fromhex_digits [OF d(2,1)] by blast
  with d flip_decodes_apart [OF s(3) assms(2)] show ?thesis unfolding strict_hex_digits by auto
qed

text \<open>With an importable key the RSA verification returns for every strict hexadecimal text.\<close>

lemma rsa_returns:
  assumes "verify_rsa_pss_sha256 K m sig (JDict pub) = Inr True" and "strict_hex_to_bytes sig' = Inr bs"
  shows "\<exists>n e bs0. verify_rsa_pss_sha256 K m' sig' (JDict pub) = Inr (k_rsa_verify K n e RSA_PSS_SALT_LENGTH bs m' = RsaVerified)
     \<and> rsa_public_key_from_jwk K (JDict pub) = Inr (n, e)
     \<and> strict_hex_to_bytes sig = Inr bs0 \<and> k_rsa_verify K n e RSA_PSS_SALT_LENGTH bs0 m = RsaVerified"
  using assms unfolding verify_rsa_pss_sha256_def Let_def
  by (cases "strict_hex_to_bytes sig") (auto simp: ebind_Inr_iff split: if_splits)

lemma attestation_returns:
  assumes "attestation_shape rec d payload pub" and "canonical K (JDict payload) = Inr pb"
    and "verify_rsa_pss_sha256 K pb (dget d ''signature'') (JDict pub) = Inr ok"
    and "derive_operator_address K (dget pub ''n'') = Inr addr"
  shows "\<exists>a. verify_attestation K rec sources = Inr (a, None) \<and> (at_ok a \<longrightarrow> ok)"
proof -
  obtain a where a: "check_attestation_crypto K sources d payload (JDict pub) (filled_attestation d payload) = Inr (a, None)"
    using assms(2-4) by (simp add: check_attestation_crypto_def catch_malformed_def Let_def)
  have v: "verify_attestation K rec sources = Inr (a, None)"
  proof (rule verify_attestation_cases [of K rec sources])
    fix d' payload' pub'
    assume "attestation_shape rec d' payload' pub'"
      and "verify_attestation K rec sources =
        check_attestation_crypto K sources d' payload' (JDict pub') (filled_attestation d' payload')"
    with attestation_shape_unique [OF assms(1), of d' payload' pub'] a show ?thesis by simp
  qed (use assms(1) in blast)
  have "at_ok a \<Longrightarrow> ok"
    using check_attestation_crypto_ok [OF assms(1) a] assms(2,3)
    unfolding attestation_valid_shape [OF assms(1)] by simp
  with v show ?thesis by blast
qed

section \<open>What would have to go wrong\<close>

text \<open>
  A mutation the cryptography is to catch goes unnoticed only if a verifier accepts two
  different inputs, both taken from this export: a signature and its flipped twin, one
  signature over two payloads, or one canonical text of two verdicts.
\<close>

inductive export_accident :: "kernel \<Rightarrow> items \<Rightarrow> string \<Rightarrow> bool" for K :: kernel and b :: items where
  signature_twin:
    "export_accident K b ''wrapper-signature-break''"
    if "canonical K (JDict (bundle_for_sig b)) = Inr m" and "py_fromhex (dget b ''public_key'') = Inr p"
      and "dget b ''signature'' = JStr s" and "flip_last (JStr s) = Inr (JStr t)"
      and "fromhex s = Inr x" and "fromhex t = Inr x'" and "x' \<noteq> x"
      and "k_ed_verify K p m x" and "k_ed_verify K p m x'"
| verdict_twin:
    "export_accident K b ''verdict-disagreement''"
    if "dget b ''body'' = JDict body"
      and "at_key ''events'' (at_first (py_setitem ''signature_ok'' (JBool False))) (dget body ''kernel_verdict'') = Inr kv"
      and "list_field (project_verdict_for_agreement kv) ''events'' = e # es" and "g_field e ''signature_ok'' = JBool False"
      and "list_all (\<lambda>e. g_field e ''signature_ok'' = JBool True) (list_field p ''events'')"
      and "canonical K (project_verdict_for_agreement kv) = Inr c" and "canonical K p = Inr c"
| attestation_twin:
    "export_accident K b ''forged-attestation-signature''"
    if "dget b ''body'' = JDict body" and "dget body ''attestations'' = JList (JDict d # rest)"
      and "canonical K (dget d ''payload'') = Inr m"
      and "dget d ''signature'' = JStr s" and "flip_last (JStr s) = Inr (JStr t)"
      and "strict_hex_to_bytes (JStr s) = Inr x" and "strict_hex_to_bytes (JStr t) = Inr x'" and "x' \<noteq> x"
      and "rsa_public_key_from_jwk K (dget d ''public_key'') = Inr (n, e)"
      and "k_rsa_verify K n e RSA_PSS_SALT_LENGTH x m = RsaVerified"
      and "k_rsa_verify K n e RSA_PSS_SALT_LENGTH x' m = RsaVerified"
| payload_twin:
    "export_accident K b ''subject-ref-tamper''"
    if "dget b ''body'' = JDict body" and "dget body ''attestations'' = JList (JDict d # rest)"
      and "at_key ''subject_ref'' (at_key ''hash'' flip_last) (dget d ''payload'') = Inr payload'"
      and "payload' \<noteq> dget d ''payload''"
      and "canonical K (dget d ''payload'') = Inr m" and "canonical K payload' = Inr m'"
      and "strict_hex_to_bytes (dget d ''signature'') = Inr x"
      and "rsa_public_key_from_jwk K (dget d ''public_key'') = Inr (n, e)"
      and "k_rsa_verify K n e RSA_PSS_SALT_LENGTH x m = RsaVerified"
      and "k_rsa_verify K n e RSA_PSS_SALT_LENGTH x m' = RsaVerified"

lemma signature_case:
  assumes "wrapper_valid K b" and "at_key ''signature'' flip_last (JDict b) = Inr v"
  shows "exits K fetch gateways content v w 1 \<or> export_accident K b ''wrapper-signature-break''"
proof -
  obtain b' t where v: "v = JDict b'" "b' = dput ''signature'' (JStr t) b"
    and t: "flip_last (dget b ''signature'') = Inr (JStr t)"
    and e: "\<not> wrapper_valid K b' \<Longrightarrow> exits K fetch gateways content v w 1"
    by (rule flipped_wrapper_exits [OF assms(1) _ assms(2)]) auto
  obtain s where s: "dget b ''signature'' = JStr s" using t by (rule flip_last_Inr) auto
  have "export_accident K b ''wrapper-signature-break''" if wv: "wrapper_valid K b'"
  proof -
    have scope: "bundle_for_sig b' = bundle_for_sig b"
      unfolding bundle_for_sig_def v(2) by (rule filter_dput_out) simp
    obtain m x p where m: "canonical K (JDict (bundle_for_sig b)) = Inr m" "py_fromhex (dget b ''public_key'') = Inr p"
      "fromhex s = Inr x" "k_ed_verify K p m x"
      using assms(1) s by (auto simp: wrapper_valid_def verify_signature_iff)
    moreover obtain x' where x': "fromhex t = Inr x'" "k_ed_verify K p m x'"
      using wv m(1,2) by (auto simp: wrapper_valid_def verify_signature_iff scope [unfolded v(2)] v(2))
    moreover have "x' \<noteq> x" using flip_decodes_apart [OF m(3) t [unfolded s]] x'(1) by auto
    ultimately show ?thesis using signature_twin [OF m(1,2) s t [unfolded s] m(3) x'(1)] by blast
  qed
  with e show ?thesis by blast
qed

lemma verified_attestation_parts:
  assumes "verify_attestation K rec sources = Inr (a, None)" and "at_ok a"
  obtains d payload pub pb addr where "attestation_shape rec d payload pub" and "canonical K (JDict payload) = Inr pb"
    and "verify_rsa_pss_sha256 K pb (dget d ''signature'') (JDict pub) = Inr True"
    and "derive_operator_address K (dget pub ''n'') = Inr addr"
  using assms(2) unfolding verify_attestation_ok [OF assms(1)] attestation_valid_def by blast

lemma forged_case:
  assumes "ed25519_contract K" and "golden_export K fetch gateways content b w"
    and "tampered_attestation K (at_key ''signature'' flip_last) (JDict b) = Inr v"
  shows "exits K fetch gateways content v w 1 \<or> export_accident K b ''forged-attestation-signature''"
proof (rule attestation_tampered [OF assms(1,2) assms(3) [unfolded tampered_attestation_def]
      first_keeps [OF flip_key_keeps [of "''signature''", THEN conjunct2]] first_shape])
  fix rec rec' a sources body rest
  assume f: "at_key ''signature'' flip_last rec = Inr rec'"
    and body: "dget b ''body'' = JDict body" "dget body ''attestations'' = JList (rec # rest)"
    and a: "verify_attestation K rec sources = Inr (a, None)" "at_ok a"
    and e: "\<And>a'. verify_attestation K rec' sources = Inr (a', None) \<Longrightarrow> \<not> at_ok a' \<Longrightarrow>
       exits K fetch gateways content v w 1"
  obtain d payload pub pb addr where sh: "attestation_shape rec d payload pub" and pb: "canonical K (JDict payload) = Inr pb"
    and sig: "verify_rsa_pss_sha256 K pb (dget d ''signature'') (JDict pub) = Inr True"
    and addr: "derive_operator_address K (dget pub ''n'') = Inr addr"
    by (rule verified_attestation_parts [OF a])
  have rec: "rec = JDict d" using sh by (simp add: attestation_shape_def)
  obtain y where y: "flip_last (dget d ''signature'') = Inr y" and rec': "rec' = JDict (dput ''signature'' y d)"
    using f by (auto simp: rec at_key_Inr)
  obtain s t where st: "dget d ''signature'' = JStr s" "y = JStr t" using y by (rule flip_last_Inr) auto
  have sh': "attestation_shape rec' (dput ''signature'' (JStr t) d) payload pub"
    using sh by (simp add: attestation_shape_def rec' st(2))
  obtain x where x: "strict_hex_to_bytes (JStr s) = Inr x"
    using sig unfolding st(1) verify_rsa_pss_sha256_def by (auto split: sum.splits)
  obtain x' where x': "strict_hex_to_bytes (JStr t) = Inr x'" "x' \<noteq> x"
    using strict_hex_flip [OF x y [unfolded st]] by blast
  obtain n e where v: "verify_rsa_pss_sha256 K pb (JStr t) (JDict pub) = Inr (k_rsa_verify K n e RSA_PSS_SALT_LENGTH x' pb = RsaVerified)"
    "k_rsa_verify K n e RSA_PSS_SALT_LENGTH x pb = RsaVerified" "rsa_public_key_from_jwk K (JDict pub) = Inr (n, e)"
    using rsa_returns [OF sig x'(1), of pb] x unfolding st(1) by auto
  obtain a' where a': "verify_attestation K rec' sources = Inr (a', None)"
    "at_ok a' \<longrightarrow> k_rsa_verify K n e RSA_PSS_SALT_LENGTH x' pb = RsaVerified"
    using attestation_returns [OF sh' pb _ addr, of _ sources] v(1) by auto
  show ?thesis
  proof (cases "at_ok a'")
    case True
    have "canonical K (dget d ''payload'') = Inr pb" "rsa_public_key_from_jwk K (dget d ''public_key'') = Inr (n, e)"
      using sh pb v(3) by (simp_all add: attestation_shape_def)
    from attestation_twin [OF body(1) body(2) [unfolded rec] this(1) st(1) y [unfolded st] x x' this(2) v(2)] True a'(2)
    show ?thesis by blast
  next
    case False
    with e [OF a'(1)] show ?thesis by blast
  qed
qed

lemma subject_ref_case:
  assumes "ed25519_contract K" and "golden_export K fetch gateways content b w" and "jcs_closed K"
    and "tampered_attestation K (at_key ''payload'' (at_key ''subject_ref'' (at_key ''hash'' flip_last))) (JDict b) = Inr v"
  shows "exits K fetch gateways content v w 1 \<or> export_accident K b ''subject-ref-tamper''"
proof -
  let ?g = "at_key ''subject_ref'' (at_key ''hash'' flip_last)"
  have keeps: "depth x' \<le> depth x" if "at_key ''payload'' ?g x = Inr x'" for x x'
    by (rule at_key_depth [OF at_key_depth [OF at_key_depth [OF flip_last_depth]] that])
  show ?thesis
  proof (rule attestation_tampered [OF assms(1,2) assms(4) [unfolded tampered_attestation_def] first_keeps [OF keeps] first_shape])
    fix rec rec' a sources body rest
    assume f: "at_key ''payload'' ?g rec = Inr rec'"
      and body: "dget b ''body'' = JDict body" "dget body ''attestations'' = JList (rec # rest)"
      and can: "jcs_closed K \<Longrightarrow> \<exists>c. canonical K rec' = Inr c"
      and a: "verify_attestation K rec sources = Inr (a, None)" "at_ok a"
      and e: "\<And>a'. verify_attestation K rec' sources = Inr (a', None) \<Longrightarrow> \<not> at_ok a' \<Longrightarrow>
         exits K fetch gateways content v w 1"
    obtain d payload pub pb addr where sh: "attestation_shape rec d payload pub" and pb: "canonical K (JDict payload) = Inr pb"
      and sig: "verify_rsa_pss_sha256 K pb (dget d ''signature'') (JDict pub) = Inr True"
      and addr: "derive_operator_address K (dget pub ''n'') = Inr addr"
      by (rule verified_attestation_parts [OF a])
    have rec: "rec = JDict d" and pl: "dget d ''payload'' = JDict payload"
      using sh by (simp_all add: attestation_shape_def)
    obtain y where y: "?g (JDict payload) = Inr y" and rec': "rec' = JDict (dput ''payload'' y d)"
      using f by (auto simp: rec at_key_Inr pl)
    obtain sr h where sr: "dget payload ''subject_ref'' = JDict sr" and h: "flip_last (dget sr ''hash'') = Inr h"
      and y': "y = JDict (dput ''subject_ref'' (JDict (dput ''hash'' h sr)) payload)"
      using y by (auto simp: at_key_Inr)
    have "h \<noteq> dget sr ''hash''" using h by (rule flip_last_Inr) auto
    then have "dget (dput ''subject_ref'' (JDict (dput ''hash'' h sr)) payload) ''subject_ref'' \<noteq> dget payload ''subject_ref''"
      unfolding sr by (metis dget_dput json.inject(6))
    then have ne: "y \<noteq> JDict payload" unfolding y' by (metis json.inject(6))
    let ?payload' = "dput ''subject_ref'' (JDict (dput ''hash'' h sr)) payload"
    have sh': "attestation_shape rec' (dput ''payload'' y d) ?payload' pub"
      using sh by (simp add: attestation_shape_def rec' y')
    obtain c where "canonical K rec' = Inr c" using can [OF assms(3)] by blast
    from canonical_field [OF assms(3) this [unfolded rec'], of "''payload''"] obtain pb' where
      pb': "canonical K (JDict ?payload') = Inr pb'" by (auto simp: y')
    obtain x where x: "strict_hex_to_bytes (dget d ''signature'') = Inr x"
      using sig unfolding verify_rsa_pss_sha256_def by (auto split: sum.splits)
    obtain n e where v: "verify_rsa_pss_sha256 K pb' (dget d ''signature'') (JDict pub)
        = Inr (k_rsa_verify K n e RSA_PSS_SALT_LENGTH x pb' = RsaVerified)"
      "k_rsa_verify K n e RSA_PSS_SALT_LENGTH x pb = RsaVerified" "rsa_public_key_from_jwk K (JDict pub) = Inr (n, e)"
      using rsa_returns [OF sig x, of pb'] x by auto
    have key: "rsa_public_key_from_jwk K (dget d ''public_key'') = Inr (n, e)"
      using sh v(3) by (simp add: attestation_shape_def)
    have sd: "dget (dput ''payload'' y d) ''signature'' = dget d ''signature''" by simp
    obtain a' where a': "verify_attestation K rec' sources = Inr (a', None)"
      "at_ok a' \<longrightarrow> k_rsa_verify K n e RSA_PSS_SALT_LENGTH x pb' = RsaVerified"
      using attestation_returns [OF sh' pb' _ addr, unfolded sd, OF v(1)] by blast
    show ?thesis
    proof (cases "at_ok a'")
      case True
      from payload_twin [OF body(1) body(2) [unfolded rec] y [folded pl] ne [folded pl] pb [folded pl]
          pb' [folded y'] x key v(2)] True a'(2)
      show ?thesis by blast
    next
      case False
      with e [OF a'(1)] show ?thesis by blast
    qed
  qed
qed

lemma verdict_case:
  assumes "ed25519_contract K" and "golden_export K fetch gateways content b w" and "jcs_closed K"
    and "tampered_body K
          (at_key ''kernel_verdict'' (at_key ''events''
             (at_first (py_setitem ''signature_ok'' (JBool False))))) (JDict b) = Inr v"
  shows "exits K fetch gateways content v w 1 \<or> export_accident K b ''verdict-disagreement''"
proof -
  let ?h = "at_first (py_setitem ''signature_ok'' (JBool False))"
  have keeps: "is_dict x' \<and> depth x' \<le> depth x" if "at_key ''kernel_verdict'' (at_key ''events'' ?h) x = Inr x'" for x x'
    by (rule at_key_keeps [OF at_key_depth [OF at_first_depth [OF setitem_depth [OF depth.simps(4)]]] that])
  show ?thesis
  proof (rule golden_tampered [OF assms(1,2,4) keeps])
    fix body recs source w' as b' body'
    assume g: "golden_parts_of K fetch gateways content b w body recs source w' as"
      and v: "v = JDict b'" and b': "re_signed_export K b' body'"
      and x: "at_key ''kernel_verdict'' (at_key ''events'' ?h) (JDict body) = Inr (JDict body')"
    have body: "dget b ''body'' = JDict body" using g by (simp add: golden_parts_of_def export_shape_def)
    obtain kv where kv: "at_key ''events'' ?h (dget body ''kernel_verdict'') = Inr kv"
      and body': "body' = dput ''kernel_verdict'' kv body" using x by (auto simp: at_key_Inr)
    obtain kd ev evs where kv': "dget body ''kernel_verdict'' = JDict kd"
      "kv = JDict (dput ''events'' (JList (JDict (dput ''signature_ok'' (JBool False) ev) # evs)) kd)"
      using kv by (auto simp: at_key_Inr at_first_Inr py_setitem_Inr)
    have src: "verify_evidence_bundle K fetch gateways content (dget body ''source_bundle'') w = Inr (source, w')"
      "er_status source = Verified"
      and att: "verify_attestations K recs (source_checkpoints (dget body ''source_bundle'')) = Inr (Inr as)" "list_all at_ok as"
      using g by (simp_all add: golden_parts_of_def)
    obtain cps es where rep: "reports K content cps es source"
      using verified_is_valid [OF assms(3) src] by blast
    let ?built = "project_verdict_for_agreement (JDict (build_verdict_object source as))"
    have built: "?built = expected_projection K content cps es recs"
      by (rule expected_projection_reported [OF rep att])
    have changed: "list_field (project_verdict_for_agreement kv) ''events''
        = project_event (JDict (dput ''signature_ok'' (JBool False) ev)) # map project_event evs"
      "g_field (project_event (JDict (dput ''signature_ok'' (JBool False) ev))) ''signature_ok'' = JBool False"
      by (simp_all add: project_verdict_for_agreement_def project_event_def list_field_def g_field_def kv'(2) dget_simps)
    have claimed: "list_all (\<lambda>e. g_field e ''signature_ok'' = JBool True) (list_field ?built ''events'')"
      unfolding built by (simp add: expected_projection_def expected_event_def list_field_def g_field_def
          list_all_iff Let_def dget_simps)
    have sh: "export_shape b' body' recs"
      using g b' kv'(2) by (simp add: golden_parts_of_def re_signed_export_def export_shape_def body')
    have sb: "dget body' ''source_bundle'' = dget body ''source_bundle''" "dget body' ''kernel_verdict'' = kv"
      by (simp_all add: body')
    show ?thesis
    proof (cases "agreement K kv source as")
      case True
      then obtain c where "canonical K (project_verdict_for_agreement kv) = Inr c" "canonical K ?built = Inr c"
        by (auto simp: agreement_def)
      from verdict_twin [OF body kv changed claimed this] show ?thesis ..
    next
      case False
      then show ?thesis
        using export_run(2) [OF _ _ sh, of K fetch gateways content w source w' as] g b'
        unfolding sb v by (simp add: golden_parts_of_def re_signed_export_def)
    qed
  qed
qed

section \<open>Another record in the place of the first attestation\<close>

lemma set_first_shape:
  "set_first rec' x = Inr x' \<Longrightarrow>
   \<exists>rec rec'' rest. x = JList (rec # rest) \<and> x' = JList (rec'' # rest) \<and> (\<lambda>_. Inr rec') rec = Inr rec''"
  by (auto simp: set_first_Inr)

lemma set_first_depth:
  assumes "depth rec' \<le> depth rec" and "set_first rec' (JList (rec # rest)) = Inr x'"
  shows "depth x' \<le> depth (JList (rec # rest))"
proof -
  have "\<forall>c \<in> set (children (JList (rec' # rest))). Suc (depth c) \<le> depth (JList (rec # rest))"
    using assms(1) depth_child [of rec "JList (rec # rest)"] depth_child [of _ "JList (rec # rest)"] by fastforce
  then show ?thesis
    using assms(2) depth_children [of "JList (rec' # rest)" "depth (JList (rec # rest))"] by (auto simp: is_container_def)
qed

lemma swap_case:
  assumes "ed25519_contract K" and "golden_export K fetch gateways content b w"
    and "dget b ''body'' = JDict body" and "dget body ''attestations'' = JList (rec # rest)"
    and "depth rec' \<le> depth rec"
    and "verify_attestation K rec' (source_checkpoints (dget body ''source_bundle'')) = Inr (a', None)"
    and "\<not> at_ok a'"
    and "tampered_body K (at_key ''attestations'' (set_first rec')) (JDict b) = Inr v"
  shows "exits K fetch gateways content v w 1"
proof (rule attestation_tampered_at [OF assms(1,2,8) _ set_first_shape])
  show "depth x' \<le> depth (dget body' ''attestations'')"
    if "dget b ''body'' = JDict body'" and "set_first rec' (dget body' ''attestations'') = Inr x'" for body' x'
  proof -
    have e: "dget body' ''attestations'' = JList (rec # rest)" using that(1) assms(3,4) by simp
    show ?thesis unfolding e by (rule set_first_depth [OF assms(5) that(2) [unfolded e]])
  qed
qed (use assms in auto)

section \<open>Disclosed content inside the source bundle\<close>

lemma trace_first_event_fails:
  assumes "verify_anchor_trace K fetch gateways content b sv asserted errors w = Inr (r, w')"
    and "dget b ''body'' = JDict body" and "is_list (dget body ''checkpoints'')"
    and "dget body ''events'' = JList (JDict ev # evs)"
    and "dget b' ''body'' = JDict (dput ''events'' (JList (JDict ev' # evs)) body)"
    and "\<And>m. \<not> ev_ok (check_event K m content ev')"
  shows "\<exists>r' w''. verify_anchor_trace K fetch gateways content b' sv' asserted' errors' w = Inr (r', w'')
     \<and> er_status r' = Failed"
proof -
  obtain xs where xs: "dget body ''checkpoints'' = JList xs" using assms(3) is_list_iff by blast
  have "verify_anchor_trace K fetch gateways content b sv asserted errors w \<noteq> Inl AttributeError"
    using assms(1) by simp
  then have "list_all is_dict xs \<and> list_all is_dict evs"
    unfolding verify_anchor_trace_raises_iff using assms(2,4) xs by auto
  then obtain cps ds where d: "xs = map JDict cps" "evs = map JDict ds" using is_dict_list by metis
  let ?body' = "dput ''events'' (JList (JDict ev' # evs)) body"
  have l: "dget ?body' ''checkpoints'' = JList (map JDict cps)" "dget ?body' ''events'' = JList (map JDict (ev' # ds))"
    by (simp_all add: xs d)
  obtain m crs where c: "check_checkpoints K [] (map JDict cps) = Inr (m, crs)" by (rule check_checkpoints_map)
  obtain crs' u w1 where p: "on_chain_pass K fetch gateways m crs w = ((crs', u), w1)" by (metis surj_pair)
  from verify_anchor_trace_run [OF assms(5) l c p, where content = content and sv = sv'
      and asserted = asserted' and errors = errors']
  obtain r' where r': "verify_anchor_trace K fetch gateways content b' sv' asserted' errors' w = Inr (r', w1)"
    "er_status r' = trace_status crs' (map (check_event K m content) (ev' # ds)) u" by blast
  have "trace_status crs' (map (check_event K m content) (ev' # ds)) u = Failed"
    unfolding trace_status_failed using assms(6) by simp
  with r' show ?thesis by simp
qed

lemma hex_encode_hex: "list_all (\<lambda>c. hex_val c \<noteq> None) (hex_encode bs)"
  by (induction bs) auto

lemma flipped_content:
  assumes "flip_last (JStr (hex_encode x)) = Inr (JStr t)"
  shows "\<exists>x'. hex_to_bytes t = Inr x' \<and> x' \<noteq> x"
proof -
  have "strict_hex_to_bytes (JStr (hex_encode x)) = Inr x" by (rule strict_hex_encode)
  from strict_hex_flip [OF this assms] obtain x' where
    "strict_hex_to_bytes (JStr t) = Inr x'" "x' \<noteq> x" by blast
  then show ?thesis unfolding strict_hex_digits by (auto simp: hex_to_bytes_def)
qed

text \<open>An event whose disclosed content is flipped fails, unless the other content is committed too.\<close>

lemma flipped_event_fails:
  assumes "dget ev ''content'' = JStr (hex_encode x)"
    and "sha256_hex K x \<in> set (committed_hashes K ev (fst (decode_record ev)))"
    and "flip_last (JStr (hex_encode x)) = Inr (JStr t)" and "hex_to_bytes t = Inr x'"
    and "sha256_hex K x' \<notin> set (committed_hashes K ev (fst (decode_record ev)))"
  shows "\<not> ev_ok (check_event K m content (dput ''content'' (JStr t) ev))"
proof -
  let ?ev = "dput ''content'' (JStr t) ev"
  have rec: "decode_record ?ev = decode_record ev" by (simp add: decode_record_def)
  have com: "committed_hashes K ?ev rb = committed_hashes K ev rb" for rb
    unfolding committed_hashes_def by (simp only: dget_dput) simp
  have "fst (in_body_content ?ev) = Some x'" using assms(4) by (simp add: in_body_content_def)
  then have "fst (evaluate_content K ?ev (fst (decode_record ?ev)) i content) = Some False" for i
    using assms(2,5) unfolding rec
    by (auto simp: evaluate_content_def case_prod_beta Let_def com split: option.split)
  then show ?thesis unfolding check_event_fields(6) check_event_fields(2) by simp
qed

lemma source_checkpoints_same:
  "dget sb' ''body'' = JDict body' \<Longrightarrow> dget sb ''body'' = JDict body \<Longrightarrow>
   dget body' ''checkpoints'' = dget body ''checkpoints'' \<Longrightarrow>
   source_checkpoints (JDict sb') = source_checkpoints (JDict sb)"
  by (simp add: source_checkpoints_def)

text \<open>The source bundle the builder mutates: a trace, signed with the stack key.\<close>

definition stack_signed_trace :: "kernel \<Rightarrow> items \<Rightarrow> bool" where
  "stack_signed_trace K sb \<longleftrightarrow>
     body_type_of sb = Some ANCHOR_TRACE_BODY_TYPE
     \<and> dget sb ''public_key'' = JStr (PUB_HEX K) \<and> \<not> has_key ''co_signatures'' sb"

text \<open>A verified trace bundle with a first event that now fails, signed again.\<close>

lemma re_signed_source_fails:
  assumes "ed25519_contract K" and "stack_signed_trace K sb"
    and "verify_evidence_bundle K fetch gateways content (JDict sb) w = Inr (source, w')"
    and "er_status source = Verified"
    and "dget sb ''body'' = JDict sbody" and "dget sbody ''events'' = JList (JDict ev # evs)"
    and "depth (JDict ev') \<le> depth (JDict ev)"
    and "\<And>m. \<not> ev_ok (check_event K m content ev')"
    and "re_sign_wrapper K (JDict (dput ''body'' (JDict (dput ''events'' (JList (JDict ev' # evs)) sbody)) sb)) = Inr v"
  obtains sb' r' w'' where "v = JDict sb'" and "depth (JDict sb') \<le> depth (JDict sb)"
    and "source_checkpoints (JDict sb') = source_checkpoints (JDict sb)"
    and "verify_evidence_bundle K fetch gateways content (JDict sb') w = Inr (r', w'')" and "er_status r' = Failed"
proof -
  let ?sbody' = "dput ''events'' (JList (JDict ev' # evs)) sbody"
  let ?sb1 = "dput ''body'' (JDict ?sbody') sb"
  have wv: "wrapper_valid K sb"
    using verify_evidence_bundle_invalid [of K sb fetch gateways content w] assms(3,4) by fastforce
  have ty: "body_type_of sb = Some ANCHOR_TRACE_BODY_TYPE" using assms(2) by (simp add: stack_signed_trace_def)
  have run: "verify_anchor_trace K fetch gateways content sb True (asserted_status_of sb) [] w = Inr (source, w')"
    using assms(3) wv ty by (simp add: verify_evidence_bundle_valid)
  have "depth (JList (JDict ev' # evs)) \<le> depth (JList (JDict ev # evs))"
    using set_first_depth [OF assms(7), of evs "JList (JDict ev' # evs)"] by (simp del: depth.simps)
  also have "\<dots> < depth (JDict sbody)" using depth_dget [of sbody "''events''"] assms(6) by simp
  finally have "depth (JDict ?sbody') \<le> depth (JDict sbody)" by (rule depth_dput)
  also have "\<dots> < depth (JDict sb)" using depth_dget [of sb "''body''"] assms(5) by simp
  finally have d1: "depth (JDict ?sb1) \<le> depth (JDict sb)" by (rule depth_dput)
  have "resignable K ?sb1"
    using wv assms(2) d1 by (simp add: resignable_def wrapper_valid_def stack_signed_trace_def del: depth.simps)
  from re_signed_valid [OF assms(1) this assms(9)] obtain sb' where
    v: "v = JDict sb'" and wv': "wrapper_valid K sb'"
    and same: "\<And>k. k \<noteq> ''body_hash'' \<Longrightarrow> k \<noteq> ''signature'' \<Longrightarrow> dget sb' k = dget ?sb1 k"
    and d2: "depth (JDict sb') \<le> depth (JDict ?sb1)" by blast
  have body': "dget sb' ''body'' = JDict ?sbody'" by (simp add: same)
  have ty': "body_type_of sb' = Some ANCHOR_TRACE_BODY_TYPE" using ty by (simp add: body_type_of_def same)
  have cps: "is_list (dget sbody ''checkpoints'')"
    using run assms(4,5) by (cases "dget sbody ''checkpoints''") (auto simp: verify_anchor_trace_def)
  obtain r' w'' where r': "verify_anchor_trace K fetch gateways content sb' True (asserted_status_of sb') [] w = Inr (r', w'')"
    "er_status r' = Failed"
    using trace_first_event_fails [OF run assms(5) cps assms(6) body' assms(8)] by blast
  have "verify_evidence_bundle K fetch gateways content (JDict sb') w = Inr (r', w'')"
    using r'(1) by (simp add: verify_evidence_bundle_valid [OF wv'] ty')
  moreover have "source_checkpoints (JDict sb') = source_checkpoints (JDict sb)"
    by (rule source_checkpoints_same [OF body' assms(5)]) simp
  moreover have "depth (JDict sb') \<le> depth (JDict sb)" by (rule order_trans [OF d2 d1])
  ultimately show thesis using that [OF v] r'(2) by blast
qed

lemma re_signed_export_fails:
  assumes "ed25519_contract K" and "golden_export K fetch gateways content b w"
    and "dget b ''body'' = JDict body" and "dget body ''source_bundle'' = JDict sb"
    and "depth (JDict sb') \<le> depth (JDict sb)"
    and "source_checkpoints (JDict sb') = source_checkpoints (JDict sb)"
    and "verify_evidence_bundle K fetch gateways content (JDict sb') w = Inr (r', w'')" and "er_status r' = Failed"
    and "re_sign_wrapper K (JDict (dput ''body'' (JDict (dput ''source_bundle_hash'' (JStr h)
           (dput ''source_bundle'' (JDict sb') body))) b)) = Inr v"
  shows "exits K fetch gateways content v w 1"
proof (rule golden_parts [OF assms(2)])
  fix r body0 recs source w' as
  assume re: "resignable K b" and sh: "export_shape b body0 recs"
    and att: "verify_attestations K recs (source_checkpoints (dget body0 ''source_bundle'')) = Inr (Inr as)"
  have eq: "body0 = body" using sh assms(3) by (simp add: export_shape_def)
  let ?body' = "dput ''source_bundle_hash'' (JStr h) (dput ''source_bundle'' (JDict sb') body)"
  have "depth (JDict ?body') \<le> depth (JDict (dput ''source_bundle'' (JDict sb') body))" by (rule depth_dput) simp
  also have "\<dots> \<le> depth (JDict body)"
    by (rule depth_dput) (use depth_dget [of body "''source_bundle''"] assms(4,5) in \<open>simp del: depth.simps\<close>)
  also have "\<dots> < depth (JDict b)" using depth_dget [of b "''body''"] assms(3) by simp
  finally have "depth (JDict (dput ''body'' (JDict ?body') b)) \<le> depth (JDict b)" by (rule depth_dput)
  then have "resignable K (dput ''body'' (JDict ?body') b)" using re by (simp add: resignable_def del: depth.simps)
  from re_signed_valid [OF assms(1) this assms(9)] obtain b' where
    v: "v = JDict b'" and wv: "wrapper_valid K b'"
    and same: "\<And>k. k \<noteq> ''body_hash'' \<Longrightarrow> k \<noteq> ''signature'' \<Longrightarrow> dget b' k = dget (dput ''body'' (JDict ?body') b) k"
    by blast
  have ty: "body_type_of b' = Some EXPORT_BODY_TYPE"
    using assms(2) by (simp add: body_type_of_def same golden_export_def)
  have sh': "export_shape b' ?body' recs" using sh by (simp add: export_shape_def same eq)
  have sb: "dget ?body' ''source_bundle'' = JDict sb'" by simp
  show ?thesis
    unfolding v
    by (rule export_run(2) [OF wv ty sh', unfolded sb, OF _ assms(7), of as])
      (use att assms(4,6,8) in \<open>simp_all add: eq\<close>)
qed

lemma disclosed_case:
  assumes "ed25519_contract K" and "golden_export K fetch gateways content b w"
    and "dget b ''body'' = JDict body" and "dget body ''source_bundle'' = JDict sb"
    and "stack_signed_trace K sb"
    and "dget sb ''body'' = JDict sbody" and "dget sbody ''events'' = JList (JDict ev # evs)"
    and "dget ev ''content'' = JStr (hex_encode x)"
    and "sha256_hex K x \<in> set (committed_hashes K ev (fst (decode_record ev)))"
    and "at_key ''body'' (at_key ''source_bundle'' (at_key ''body'' (at_key ''events''
                 (at_first (at_key ''content'' flip_last))))) (JDict b) = Inr e"
    and "re_sign_source_and_export K e = Inr v"
  shows "exits K fetch gateways content v w 1
    \<or> (\<exists>t x'. flip_last (JStr (hex_encode x)) = Inr (JStr t) \<and> hex_to_bytes t = Inr x' \<and> x' \<noteq> x
         \<and> sha256_hex K x' \<in> set (committed_hashes K ev (fst (decode_record ev))))"
proof (cases "\<exists>t x'. flip_last (JStr (hex_encode x)) = Inr (JStr t) \<and> hex_to_bytes t = Inr x' \<and> x' \<noteq> x
         \<and> sha256_hex K x' \<in> set (committed_hashes K ev (fst (decode_record ev)))")
  case False
  obtain r source w' where r: "verify_evidence_bundle K fetch gateways content (JDict sb) w = Inr (source, w')"
    "er_status source = Verified"
    using golden_parts [OF assms(2)] assms(3,4) unfolding export_shape_def by (metis json.inject(6))
  obtain y where y: "flip_last (JStr (hex_encode x)) = Inr y"
    and e: "e = JDict (dput ''body'' (JDict (dput ''source_bundle'' (JDict (dput ''body''
       (JDict (dput ''events'' (JList (JDict (dput ''content'' y ev) # evs)) sbody)) sb)) body)) b)"
    using assms(10) by (auto simp: at_key_Inr at_first_Inr assms(3,4,6-8))
  from y obtain t where t: "y = JStr t" by (rule flip_last_Inr)
  obtain x' where x': "hex_to_bytes t = Inr x'" "x' \<noteq> x" using flipped_content [OF y [unfolded t]] by blast
  have fail: "\<not> ev_ok (check_event K m content (dput ''content'' y ev))" for m
    unfolding t by (rule flipped_event_fails [OF assms(8,9) y [unfolded t] x'(1)]) (use False x' y [unfolded t] in blast)
  have d: "depth (JDict (dput ''content'' y ev)) \<le> depth (JDict ev)" unfolding t by (rule depth_dput) simp
  let ?body1 = "dput ''source_bundle'' (JDict (dput ''body''
       (JDict (dput ''events'' (JList (JDict (dput ''content'' y ev) # evs)) sbody)) sb)) body"
  obtain body2 where
    body2: "ebind (at_key ''source_bundle'' (re_sign_wrapper K) (JDict ?body1)) (re_link K) = Inr body2"
    and v: "re_sign_wrapper K (JDict (dput ''body'' body2 (dput ''body'' (JDict ?body1) b))) = Inr v"
    using assms(11) unfolding re_sign_source_and_export_def e by (auto simp: ebind_Inr_iff at_key_Inr)
  obtain sv where sv: "re_sign_wrapper K (JDict (dput ''body'' (JDict (dput ''events''
      (JList (JDict (dput ''content'' y ev) # evs)) sbody)) sb)) = Inr sv"
    and link: "re_link K (JDict (dput ''source_bundle'' sv ?body1)) = Inr body2"
    using body2 by (auto simp: ebind_Inr_iff at_key_Inr)
  obtain sb' r' w'' where s: "sv = JDict sb'" "depth (JDict sb') \<le> depth (JDict sb)"
    "source_checkpoints (JDict sb') = source_checkpoints (JDict sb)"
    "verify_evidence_bundle K fetch gateways content (JDict sb') w = Inr (r', w'')" "er_status r' = Failed"
    by (rule re_signed_source_fails [OF assms(1,5) r assms(6,7) d fail sv])
  have put: "dput k a (dput k c d) = dput k a d" for k a c and d :: items
    by (simp add: dput_def AList.update_last)
  obtain h where "body2 = JDict (dput ''source_bundle_hash'' (JStr h) (dput ''source_bundle'' (JDict sb') body))"
    using link by (auto simp: re_link_def ebind_Inr_iff py_item_Inr py_setitem_Inr s(1) put)
  with v have "re_sign_wrapper K (JDict (dput ''body'' (JDict (dput ''source_bundle_hash'' (JStr h)
      (dput ''source_bundle'' (JDict sb') body))) b)) = Inr v" by (simp only: put)
  from re_signed_export_fails [OF assms(1-4) s(2-5) this] show ?thesis ..
qed blast

section \<open>The pieces of the fixture's tamper block\<close>

text \<open>
  What the builder says of the pieces: a signature over the first attestation's payload that is
  no PSS signature with salt length 32, a record whose key does not hash to the operator it
  names, a record whose \<open>data_hash\<close> does not bind the checkpoint.  The records have the shape of
  an attestation, and nest no deeper than the one they replace.
\<close>

definition checkable_record :: "kernel \<Rightarrow> json \<Rightarrow> items \<Rightarrow> items \<Rightarrow> string \<Rightarrow> bool" where
  "checkable_record K rec d payload addr \<longleftrightarrow>
     (\<exists>pub pb ok. attestation_shape rec d payload pub \<and> canonical K (JDict payload) = Inr pb
        \<and> verify_rsa_pss_sha256 K pb (dget d ''signature'') (JDict pub) = Inr ok
        \<and> derive_operator_address K (dget pub ''n'') = Inr addr)"

definition tamper_documented :: "kernel \<Rightarrow> items \<Rightarrow> items \<Rightarrow> bool" where
  "tamper_documented K body tamper \<longleftrightarrow>
     (\<exists>d rest. dget body ''attestations'' = JList (JDict d # rest)
        \<and> (\<exists>s bs m. dget tamper ''att0_mis_salt_sig'' = JStr s \<and> strict_hex_to_bytes (JStr s) = Inr bs
             \<and> canonical K (dget d ''payload'') = Inr m
             \<and> (\<forall>n e. rsa_public_key_from_jwk K (dget d ''public_key'') = Inr (n, e) \<longrightarrow>
                  k_rsa_verify K n e RSA_PSS_SALT_LENGTH bs m \<noteq> RsaVerified))
        \<and> (\<exists>d' payload addr. checkable_record K (dget tamper ''wrong_operator_attestation'') d' payload addr
             \<and> addr \<noteq> str_or [] (dget payload ''operator'')
             \<and> depth (dget tamper ''wrong_operator_attestation'') \<le> depth (JDict d))
        \<and> (\<exists>d' payload addr. checkable_record K (dget tamper ''wrong_data_hash_attestation'') d' payload addr
             \<and> \<not> data_hash_bound K (source_checkpoints (dget body ''source_bundle'')) d' payload
             \<and> depth (dget tamper ''wrong_data_hash_attestation'') \<le> depth (JDict d)))"

lemma checkable_returns:
  assumes "checkable_record K rec d payload addr"
    and "addr \<noteq> str_or [] (dget payload ''operator'') \<or> \<not> data_hash_bound K sources d payload"
  obtains a where "verify_attestation K rec sources = Inr (a, None)" and "\<not> at_ok a"
proof -
  obtain pub pb ok where r: "attestation_shape rec d payload pub" "canonical K (JDict payload) = Inr pb"
    "verify_rsa_pss_sha256 K pb (dget d ''signature'') (JDict pub) = Inr ok"
    "derive_operator_address K (dget pub ''n'') = Inr addr"
    using assms(1) unfolding checkable_record_def by blast
  obtain a where a: "verify_attestation K rec sources = Inr (a, None)"
    using attestation_returns [OF r] by blast
  have "\<not> attestation_valid K sources rec"
    unfolding attestation_valid_shape [OF r(1)] using r(4) assms(2) by auto
  with a verify_attestation_ok [OF a] that show thesis by blast
qed

lemma mis_salt_case:
  assumes "ed25519_contract K" and "golden_export K fetch gateways content b w"
    and "dget b ''body'' = JDict body" and "tamper_documented K body tamper"
    and "tampered_attestation K (py_setitem ''signature'' (dget tamper ''att0_mis_salt_sig'')) (JDict b) = Inr v"
  shows "exits K fetch gateways content v w 1"
proof -
  obtain d0 rest0 s bs m where
    d0: "dget body ''attestations'' = JList (JDict d0 # rest0)" and s: "dget tamper ''att0_mis_salt_sig'' = JStr s"
    "strict_hex_to_bytes (JStr s) = Inr bs" and m: "canonical K (dget d0 ''payload'') = Inr m"
    and no: "\<And>n e. rsa_public_key_from_jwk K (dget d0 ''public_key'') = Inr (n, e) \<Longrightarrow>
      k_rsa_verify K n e RSA_PSS_SALT_LENGTH bs m \<noteq> RsaVerified"
    using assms(4) unfolding tamper_documented_def by blast
  show ?thesis
  proof (rule attestation_tampered [OF assms(1,2) assms(5) [unfolded tampered_attestation_def s(1)]
        first_keeps [OF setitem_depth [OF depth.simps(7)]] first_shape])
    fix rec rec' a sources body' rest
    assume f: "py_setitem ''signature'' (JStr s) rec = Inr rec'"
      and body: "dget b ''body'' = JDict body'" "dget body' ''attestations'' = JList (rec # rest)"
      and a: "verify_attestation K rec sources = Inr (a, None)" "at_ok a"
      and e: "\<And>a'. verify_attestation K rec' sources = Inr (a', None) \<Longrightarrow> \<not> at_ok a' \<Longrightarrow>
         exits K fetch gateways content v w 1"
    obtain d payload pub pb addr where sh: "attestation_shape rec d payload pub" and pb: "canonical K (JDict payload) = Inr pb"
      and sig: "verify_rsa_pss_sha256 K pb (dget d ''signature'') (JDict pub) = Inr True"
      and addr: "derive_operator_address K (dget pub ''n'') = Inr addr"
      by (rule verified_attestation_parts [OF a])
    have rec: "rec = JDict d" using sh by (simp add: attestation_shape_def)
    have rec': "rec' = JDict (dput ''signature'' (JStr s) d)" using f by (simp add: rec)
    have "d = d0" using body assms(3) d0 rec by simp
    then have pl: "pb = m" "dget d0 ''public_key'' = JDict pub"
      using sh pb m by (simp_all add: attestation_shape_def)
    have sh': "attestation_shape rec' (dput ''signature'' (JStr s) d) payload pub"
      using sh by (simp add: attestation_shape_def rec')
    obtain n e where v: "verify_rsa_pss_sha256 K pb (JStr s) (JDict pub)
        = Inr (k_rsa_verify K n e RSA_PSS_SALT_LENGTH bs pb = RsaVerified)"
      "rsa_public_key_from_jwk K (JDict pub) = Inr (n, e)"
      using rsa_returns [OF sig s(2), of pb] by blast
    obtain a' where a': "verify_attestation K rec' sources = Inr (a', None)"
      "at_ok a' \<longrightarrow> k_rsa_verify K n e RSA_PSS_SALT_LENGTH bs pb = RsaVerified"
      using attestation_returns [OF sh' pb _ addr, of _ sources] v(1) by auto
    with no [unfolded pl(2), OF v(2)] pl(1) have "\<not> at_ok a'" by blast
    with e [OF a'(1)] show ?thesis by blast
  qed
qed

lemma tamper_record_case:
  assumes "ed25519_contract K" and "golden_export K fetch gateways content b w"
    and "dget b ''body'' = JDict body" and "tamper_documented K body tamper"
    and "k = ''wrong_operator_attestation'' \<or> k = ''wrong_data_hash_attestation''"
    and "tampered_body K (at_key ''attestations'' (set_first (dget tamper k))) (JDict b) = Inr v"
  shows "exits K fetch gateways content v w 1"
proof -
  obtain d rest where d: "dget body ''attestations'' = JList (JDict d # rest)"
    and k: "depth (dget tamper k) \<le> depth (JDict d)"
    and c: "\<exists>d' payload addr. checkable_record K (dget tamper k) d' payload addr
      \<and> (addr \<noteq> str_or [] (dget payload ''operator'')
         \<or> \<not> data_hash_bound K (source_checkpoints (dget body ''source_bundle'')) d' payload)"
    using assms(4,5) unfolding tamper_documented_def by blast
  then obtain a where "verify_attestation K (dget tamper k) (source_checkpoints (dget body ''source_bundle'')) = Inr (a, None)"
    "\<not> at_ok a"
    using checkable_returns by blast
  from swap_case [OF assms(1-3) d k this assms(6)] show ?thesis .
qed

section \<open>The declared exit codes\<close>

lemma build_cases_in:
  assumes "build_cases K fixture = Inr cs" and "c \<in> set cs"
  obtains export tamper vid where "py_item fixture ''export'' = Inr export" and "py_item fixture ''_tamper'' = Inr tamper"
    and "(vid, xc_klass c, Inr (xc_bundle c)) \<in> set (mutations K export tamper)"
    and "map_of EXPECTED_EXIT (xc_klass c) = Some (xc_expected_exit c)"
proof -
  obtain export tamper where e: "py_item fixture ''export'' = Inr export" "py_item fixture ''_tamper'' = Inr tamper"
    and "emap add_case (mutations K export tamper) = Inr cs"
    using assms(1) unfolding build_cases_def ebind_Inr_iff by blast
  then have all: "list_all2 (\<lambda>m c. add_case m = Inr c) (mutations K export tamper) cs" by (simp only: emap_Inr_iff)
  obtain i where i: "i < length cs" "cs ! i = c" using assms(2) unfolding in_set_conv_nth by blast
  obtain vid klass x where mm: "mutations K export tamper ! i = (vid, klass, x)" by (metis surj_pair)
  have "add_case (vid, klass, x) = Inr c" using list_all2_nthD2 [OF all i(1)] by (simp only: mm i(2))
  then have "x = Inr (xc_bundle c)" "klass = xc_klass c" "map_of EXPECTED_EXIT (xc_klass c) = Some (xc_expected_exit c)"
    by (auto simp: add_case_def ebind_Inr_iff split: option.splits)
  moreover have "mutations K export tamper ! i \<in> set (mutations K export tamper)"
    using i(1) list_all2_lengthD [OF all] by (intro nth_mem) simp
  ultimately show thesis using that e mm by simp
qed

text \<open>The mutation of a class.\<close>

lemma mutation_of_class:
  assumes "(vid, klass, m) \<in> set (mutations K export tamper)"
  shows "map_of (map snd (mutations K export tamper)) klass = Some m"
proof (rule map_of_is_SomeI)
  show "distinct (map fst (map snd (mutations K export tamper)))" by (simp add: mutations_def)
  show "(klass, m) \<in> set (map snd (mutations K export tamper))" using assms by force
qed

lemma class_mutations:
  "map_of (map snd (mutations K e t)) ''positive'' = Some (Inr e)"
  "map_of (map snd (mutations K e t)) ''wrapper-signature-break'' = Some (at_key ''signature'' flip_last e)"
  "map_of (map snd (mutations K e t)) ''body-hash-mismatch'' = Some (at_key ''body_hash'' flip_last e)"
  "map_of (map snd (mutations K e t)) ''source-bundle-hash-mismatch'' =
     Some (tampered_body K (at_key ''source_bundle_hash'' flip_last) e)"
  "map_of (map snd (mutations K e t)) ''verdict-disagreement'' =
     Some (tampered_body K
          (at_key ''kernel_verdict'' (at_key ''events''
             (at_first (py_setitem ''signature_ok'' (JBool False))))) e)"
  "map_of (map snd (mutations K e t)) ''forged-attestation-signature'' =
     Some (tampered_attestation K (at_key ''signature'' flip_last) e)"
  "map_of (map snd (mutations K e t)) ''mis-salted-attestation'' =
     Some (ebind (py_item t ''att0_mis_salt_sig'')
          (\<lambda>s. tampered_attestation K (py_setitem ''signature'' s) e))"
  "map_of (map snd (mutations K e t)) ''operator-address-binding-break'' =
     Some (ebind (py_item t ''wrong_operator_attestation'')
          (\<lambda>a. tampered_body K (at_key ''attestations'' (set_first a)) e))"
  "map_of (map snd (mutations K e t)) ''data-hash-binding-break'' =
     Some (ebind (py_item t ''wrong_data_hash_attestation'')
          (\<lambda>a. tampered_body K (at_key ''attestations'' (set_first a)) e))"
  "map_of (map snd (mutations K e t)) ''disclosed-content-mismatch'' =
     Some (ebind (at_key ''body'' (at_key ''source_bundle'' (at_key ''body'' (at_key ''events''
                 (at_first (at_key ''content'' flip_last))))) e)
          (re_sign_source_and_export K))"
  "map_of (map snd (mutations K e t)) ''subject-ref-tamper'' =
     Some (tampered_attestation K
          (at_key ''payload'' (at_key ''subject_ref'' (at_key ''hash'' flip_last))) e)"
  "map_of (map snd (mutations K e t)) ''malformed-rsa-key'' =
     Some (tampered_attestation K (at_key ''public_key'' (py_setitem ''kty'' (JStr ''oct''))) e)"
  "map_of (map snd (mutations K e t)) ''malformed-signature-alg'' =
     Some (tampered_attestation K (py_setitem ''signature_alg'' (JStr ''ed25519'')) e)"
  "map_of (map snd (mutations K e t)) ''source-bundle-ref-offline'' =
     Some (tampered_body K
          (\<lambda>body. ebind (py_delitem ''source_bundle'' body)
             (py_setitem ''source_bundle_ref'' (JStr SOURCE_REF))) e)"
  unfolding mutations_def list.map snd_conv by simp_all

lemma case_mutation:
  assumes "build_cases K fixture = Inr cs" and "c \<in> set cs" and "py_item fixture ''export'' = Inr e"
  obtains t where "py_item fixture ''_tamper'' = Inr t"
    and "map_of (map snd (mutations K e t)) (xc_klass c) = Some (Inr (xc_bundle c))"
    and "map_of EXPECTED_EXIT (xc_klass c) = Some (xc_expected_exit c)"
proof (rule build_cases_in [OF assms(1,2)])
  fix export tamper vid
  assume "py_item fixture ''export'' = Inr export" "py_item fixture ''_tamper'' = Inr tamper"
    "(vid, xc_klass c, Inr (xc_bundle c)) \<in> set (mutations K export tamper)"
    "map_of EXPECTED_EXIT (xc_klass c) = Some (xc_expected_exit c)"
  with mutation_of_class assms(3) that show thesis by simp
qed

lemma positive_case:
  assumes "golden_export K fetch gateways content b w"
  shows "exits K fetch gateways content (JDict b) w 0"
  by (rule golden_parts [OF assms]) (auto intro: exitsI exit_codes)

lemma golden_wrapper: "golden_export K fetch gateways content b w \<Longrightarrow> wrapper_valid K b"
  by (erule golden_parts)

lemma structural_classes:
  assumes "ed25519_contract K" and "golden_export K fetch gateways content b w"
    and "build_cases K fixture = Inr cs" and "py_item fixture ''export'' = Inr (JDict b)"
    and "c \<in> set cs"
    and "xc_klass c \<in> set [''positive'', ''body-hash-mismatch'', ''source-bundle-hash-mismatch'',
           ''malformed-rsa-key'', ''malformed-signature-alg'', ''source-bundle-ref-offline'']"
  shows "exits K fetch gateways content (xc_bundle c) w (xc_expected_exit c)"
proof (rule case_mutation [OF assms(3,5,4)])
  fix t
  assume m: "map_of (map snd (mutations K (JDict b) t)) (xc_klass c) = Some (Inr (xc_bundle c))"
    and n: "map_of EXPECTED_EXIT (xc_klass c) = Some (xc_expected_exit c)"
  note n = n [unfolded EXPECTED_EXIT_def]
  from assms(6) consider "xc_klass c = ''positive''" | "xc_klass c = ''body-hash-mismatch''"
    | "xc_klass c = ''source-bundle-hash-mismatch''" | "xc_klass c = ''malformed-rsa-key''"
    | "xc_klass c = ''malformed-signature-alg''" | "xc_klass c = ''source-bundle-ref-offline''"
    unfolding list.set insert_iff empty_iff by blast
  then show ?thesis
  proof cases
    case 1
    with m n positive_case [OF assms(2)] show ?thesis by (simp add: class_mutations)
  next
    case 2
    with m n body_hash_case [OF golden_wrapper [OF assms(2)], where v = "xc_bundle c" and fetch = fetch and gateways = gateways and content = content and w = w] show ?thesis by (simp add: class_mutations)
  next
    case 3
    with m n source_linkage_case [OF assms(1,2)] show ?thesis by (simp add: class_mutations)
  next
    case 4
    with m n rsa_key_case [OF assms(1,2)] show ?thesis by (simp add: class_mutations)
  next
    case 5
    with m n signature_alg_case [OF assms(1,2)] show ?thesis by (simp add: class_mutations)
  next
    case 6
    with m n source_ref_case [OF assms(1,2)] show ?thesis by (simp add: class_mutations)
  qed
qed

lemma cryptographic_classes:
  assumes "ed25519_contract K" and "jcs_closed K" and "golden_export K fetch gateways content b w"
    and "build_cases K fixture = Inr cs" and "py_item fixture ''export'' = Inr (JDict b)"
    and "c \<in> set cs"
    and "xc_klass c \<in> set [''wrapper-signature-break'', ''verdict-disagreement'',
           ''forged-attestation-signature'', ''subject-ref-tamper'']"
  shows "exits K fetch gateways content (xc_bundle c) w (xc_expected_exit c) \<or> export_accident K b (xc_klass c)"
proof (rule case_mutation [OF assms(4,6,5)])
  fix t
  assume m: "map_of (map snd (mutations K (JDict b) t)) (xc_klass c) = Some (Inr (xc_bundle c))"
    and n: "map_of EXPECTED_EXIT (xc_klass c) = Some (xc_expected_exit c)"
  note n = n [unfolded EXPECTED_EXIT_def]
  from assms(7) consider "xc_klass c = ''wrapper-signature-break''" | "xc_klass c = ''verdict-disagreement''"
    | "xc_klass c = ''forged-attestation-signature''" | "xc_klass c = ''subject-ref-tamper''"
    unfolding list.set insert_iff empty_iff by blast
  then show ?thesis
  proof cases
    case 1
    with m n signature_case [OF golden_wrapper [OF assms(3)], where v = "xc_bundle c" and fetch = fetch and gateways = gateways and content = content and w = w] show ?thesis by (simp add: class_mutations)
  next
    case 2
    with m n verdict_case [OF assms(1,3,2)] show ?thesis by (simp add: class_mutations)
  next
    case 3
    with m n forged_case [OF assms(1,3)] show ?thesis by (simp add: class_mutations)
  next
    case 4
    with m n subject_ref_case [OF assms(1,3,2)] show ?thesis by (simp add: class_mutations)
  qed
qed

lemma tamper_classes:
  assumes "ed25519_contract K" and "golden_export K fetch gateways content b w"
    and "build_cases K fixture = Inr cs" and "py_item fixture ''export'' = Inr (JDict b)"
    and "py_item fixture ''_tamper'' = Inr (JDict tamper)" and "dget b ''body'' = JDict body"
    and "tamper_documented K body tamper"
    and "c \<in> set cs"
    and "xc_klass c \<in> set [''mis-salted-attestation'', ''operator-address-binding-break'', ''data-hash-binding-break'']"
  shows "exits K fetch gateways content (xc_bundle c) w (xc_expected_exit c)"
proof (rule case_mutation [OF assms(3,8,4)])
  fix t
  assume t: "py_item fixture ''_tamper'' = Inr t"
    and m: "map_of (map snd (mutations K (JDict b) t)) (xc_klass c) = Some (Inr (xc_bundle c))"
    and n: "map_of EXPECTED_EXIT (xc_klass c) = Some (xc_expected_exit c)"
  note n = n [unfolded EXPECTED_EXIT_def]
  have t: "t = JDict tamper" using t assms(5) by simp
  have item: "ebind (py_item (JDict tamper) k) f = Inr v \<Longrightarrow> f (dget tamper k) = Inr v" for k f and v :: json
    by (auto simp: ebind_Inr_iff split: if_splits)
  from assms(9) consider "xc_klass c = ''mis-salted-attestation''" | "xc_klass c = ''operator-address-binding-break''"
    | "xc_klass c = ''data-hash-binding-break''"
    unfolding list.set insert_iff empty_iff by blast
  then show ?thesis
  proof cases
    case 1
    with m have "ebind (py_item (JDict tamper) ''att0_mis_salt_sig'')
        (\<lambda>s. tampered_attestation K (py_setitem ''signature'' s) (JDict b)) = Inr (xc_bundle c)"
      by (simp only: class_mutations t option.inject)
    from mis_salt_case [OF assms(1,2,6,7) item [OF this]] n 1 show ?thesis by simp
  next
    case 2
    with m have "ebind (py_item (JDict tamper) ''wrong_operator_attestation'')
        (\<lambda>a. tampered_body K (at_key ''attestations'' (set_first a)) (JDict b)) = Inr (xc_bundle c)"
      by (simp only: class_mutations t option.inject)
    from tamper_record_case [OF assms(1,2,6,7) _ item [OF this]] n 2 show ?thesis by simp
  next
    case 3
    with m have "ebind (py_item (JDict tamper) ''wrong_data_hash_attestation'')
        (\<lambda>a. tampered_body K (at_key ''attestations'' (set_first a)) (JDict b)) = Inr (xc_bundle c)"
      by (simp only: class_mutations t option.inject)
    from tamper_record_case [OF assms(1,2,6,7) _ item [OF this]] n 3 show ?thesis by simp
  qed
qed

lemma disclosed_class:
  assumes "ed25519_contract K" and "golden_export K fetch gateways content b w"
    and "build_cases K fixture = Inr cs" and "py_item fixture ''export'' = Inr (JDict b)"
    and "dget b ''body'' = JDict body" and "dget body ''source_bundle'' = JDict sb"
    and "stack_signed_trace K sb"
    and "dget sb ''body'' = JDict sbody" and "dget sbody ''events'' = JList (JDict ev # evs)"
    and "dget ev ''content'' = JStr (hex_encode x)"
    and "sha256_hex K x \<in> set (committed_hashes K ev (fst (decode_record ev)))"
    and "c \<in> set cs" and "xc_klass c = ''disclosed-content-mismatch''"
  shows "exits K fetch gateways content (xc_bundle c) w (xc_expected_exit c)
    \<or> (\<exists>t x'. flip_last (JStr (hex_encode x)) = Inr (JStr t) \<and> hex_to_bytes t = Inr x' \<and> x' \<noteq> x
         \<and> sha256_hex K x' \<in> set (committed_hashes K ev (fst (decode_record ev))))"
proof (rule case_mutation [OF assms(3,12,4)])
  fix t
  assume m: "map_of (map snd (mutations K (JDict b) t)) (xc_klass c) = Some (Inr (xc_bundle c))"
    and n: "map_of EXPECTED_EXIT (xc_klass c) = Some (xc_expected_exit c)"
  have n: "xc_expected_exit c = 1" using n unfolding EXPECTED_EXIT_def assms(13) by simp
  have "ebind (at_key ''body'' (at_key ''source_bundle'' (at_key ''body'' (at_key ''events''
                 (at_first (at_key ''content'' flip_last))))) (JDict b)) (re_sign_source_and_export K) = Inr (xc_bundle c)"
    using m by (simp only: assms(13) class_mutations option.inject)
  then obtain e where "at_key ''body'' (at_key ''source_bundle'' (at_key ''body'' (at_key ''events''
                 (at_first (at_key ''content'' flip_last))))) (JDict b) = Inr e"
    "re_sign_source_and_export K e = Inr (xc_bundle c)"
    unfolding ebind_Inr_iff by blast
  from disclosed_case [OF assms(1,2,5-11) this] show ?thesis unfolding n .
qed

section \<open>A fixture in the toy environment\<close>

definition toy_tamper :: "items \<Rightarrow> items" where
  "toy_tamper cenv =
     [(''att0_mis_salt_sig'', JStr ''00''),
      (''wrong_operator_attestation'', JDict (dput ''payload''
        (JDict (dput ''operator'' (JStr ''other'') (toy_att_payload (JDict cenv)))) (toy_attestation (JDict cenv)))),
      (''wrong_data_hash_attestation'', JDict (dput ''payload''
        (JDict (dput ''data_hash'' (JStr ''00'') (toy_att_payload (JDict cenv)))) (toy_attestation (JDict cenv))))]"

definition toy_fixture :: "items \<Rightarrow> items \<Rightarrow> json" where
  "toy_fixture env cenv =
     JDict [(''export'', JDict (toy_export env cenv)), (''_tamper'', JDict (toy_tamper cenv))]"

lemma toy_fixture_items:
  "py_item (toy_fixture env cenv) ''export'' = Inr (JDict (toy_export env cenv))"
  "py_item (toy_fixture env cenv) ''_tamper'' = Inr (JDict (toy_tamper cenv))"
  by (simp_all add: toy_fixture_def dget_simps)

lemma toy_stack_key: "PUB_HEX toy = hex_encode toy_seed"
  by (simp add: PUB_HEX_def stack_seed_def toy_seed_def)

lemma toy_bundle_keys:
  "dget (toy_bundle t body) ''public_key'' = JStr (PUB_HEX toy)" "\<not> has_key ''co_signatures'' (toy_bundle t body)"
  by (simp_all add: toy_bundle_def toy_unsigned_bundle_def dget_simps toy_stack_key)

lemma toy_golden:
  assumes "bundle_valid toy [] (JDict (toy_export env cenv)) cps evs"
  shows "golden_export toy (None :: unit fetch option) [] [] (toy_export env cenv) ()"
  using valid_is_verified [OF assms, where fetch = "None :: unit fetch option" and w = "()"]
  by (auto simp: golden_export_def toy_export_def toy_bundle_keys)

lemma re_sign_returns:
  assumes "jcs_total K" and "has_key ''body'' b"
  obtains b' where "re_sign_wrapper K (JDict b) = Inr (JDict b')" and "dget b' ''body'' = dget b ''body''" and "has_key ''body'' b'"
proof -
  obtain bj where bj: "k_jcs K (dget b ''body'') = Inr bj" using assms(1) by (auto simp: jcs_total_def)
  obtain pj where "k_jcs K (JDict (filter (\<lambda>(k, v). k \<noteq> ''signature'')
      (dput ''body_hash'' (JStr (sha256_hex K bj)) b))) = Inr pj" using assms(1) by (auto simp: jcs_total_def)
  with bj assms(2) that show thesis by (simp add: Let_def)
qed

lemma tampered_body_returns:
  assumes "jcs_total K" and "dget b ''body'' = JDict body" and "f (JDict body) = Inr x"
  shows "\<exists>v. tampered_body K f (JDict b) = Inr v"
proof -
  have "has_key ''body'' b" by (rule dget_has_key) (simp add: assms(2))
  then have 1: "at_key ''body'' f (JDict b) = Inr (JDict (dput ''body'' x b))"
    using assms(2,3) by (simp add: at_key_def)
  have "has_key ''body'' (dput ''body'' x b)" by simp
  from re_sign_returns [OF assms(1) this] obtain b' where "re_sign_wrapper K (JDict (dput ''body'' x b)) = Inr (JDict b')" .
  with 1 show ?thesis unfolding tampered_body_def by simp
qed

lemma flip_returns: "s \<noteq> [] \<Longrightarrow> \<exists>t. flip_last (JStr s) = Inr (JStr t)"
  by simp

lemma at_key_returns:
  "has_key k d \<Longrightarrow> f (dget d k) = Inr x \<Longrightarrow> at_key k f (JDict d) = Inr (JDict (dput k x d))"
  by (simp add: at_key_def)

text \<open>The paths the builder walks in the toy export.\<close>

lemma toy_export_paths:
  "dget (toy_export env cenv) ''body'' = JDict (toy_export_body env cenv)"
  "has_key ''body'' (toy_export env cenv)" "has_key ''signature'' (toy_export env cenv)"
  "has_key ''body_hash'' (toy_export env cenv)"
  "\<exists>s. s \<noteq> [] \<and> dget (toy_export env cenv) ''signature'' = JStr s"
  "\<exists>s. s \<noteq> [] \<and> dget (toy_export env cenv) ''body_hash'' = JStr s"
proof -
  have h: "hex_encode x \<noteq> []" if "x \<noteq> []" for x using that by (cases x) simp_all
  have s: "toy_sign p m \<noteq> []" for p m
    using length_toy_seed by (auto simp: toy_sign_def)
  show "\<exists>s. s \<noteq> [] \<and> dget (toy_export env cenv) ''signature'' = JStr s"
    by (simp add: toy_export_def toy_bundle_def toy_unsigned_bundle_def dget_simps h s del: toy_jcs.simps)
  show "\<exists>s. s \<noteq> [] \<and> dget (toy_export env cenv) ''body_hash'' = JStr s"
    by (simp add: toy_export_def toy_bundle_def toy_unsigned_bundle_def dget_simps sha256_hex_def h
        toy_hash.digest_not_Nil del: toy_jcs.simps)
qed (simp_all add: toy_export_def toy_bundle_def toy_unsigned_bundle_def dget_simps)

lemma toy_attestation_path:
  assumes "f (JDict (toy_attestation (JDict cenv))) = Inr x"
  shows "\<exists>y. at_key ''attestations'' (at_first f) (JDict (toy_export_body env cenv)) = Inr y"
  using assms by (simp add: at_key_def toy_export_body_def dget_simps)

lemma toy_first_event: "\<exists>d. dget (toy_export_body env cenv) ''kernel_verdict'' = JDict d \<and>
    has_key ''events'' d \<and> (\<exists>e. dget d ''events'' = JList [JDict e])"
  by (simp add: toy_export_body_def expected_projection_def expected_event_def Let_def dget_simps)

lemma toy_body_mutations:
  "\<exists>y. at_key ''source_bundle_hash'' flip_last (JDict (toy_export_body env cenv)) = Inr y"
  "\<exists>y. at_key ''kernel_verdict'' (at_key ''events'' (at_first (py_setitem ''signature_ok'' (JBool False))))
     (JDict (toy_export_body env cenv)) = Inr y"
  "\<exists>y. ebind (py_delitem ''source_bundle'' (JDict (toy_export_body env cenv)))
     (py_setitem ''source_bundle_ref'' (JStr SOURCE_REF)) = Inr y"
  "\<exists>y. at_key ''attestations'' (set_first a) (JDict (toy_export_body env cenv)) = Inr y"
  "\<exists>y. at_key ''attestations'' (at_first (py_setitem k a)) (JDict (toy_export_body env cenv)) = Inr y"
proof -
  have h: "hex_encode (toy_hash x) \<noteq> []" for x
    using toy_hash.digest_not_Nil [of x] by (cases "toy_hash x") simp_all
  show "\<exists>y. at_key ''source_bundle_hash'' flip_last (JDict (toy_export_body env cenv)) = Inr y"
    by (simp add: at_key_def toy_export_body_def dget_simps sha256_hex_def h del: toy_jcs.simps)
  obtain d e where "dget (toy_export_body env cenv) ''kernel_verdict'' = JDict d" "has_key ''events'' d"
    "dget d ''events'' = JList [JDict e]" using toy_first_event by blast
  moreover have "has_key ''kernel_verdict'' (toy_export_body env cenv)" by (simp add: toy_export_body_def)
  ultimately show "\<exists>y. at_key ''kernel_verdict'' (at_key ''events'' (at_first (py_setitem ''signature_ok'' (JBool False))))
     (JDict (toy_export_body env cenv)) = Inr y" by (simp add: at_key_def)
qed (simp_all add: at_key_def toy_export_body_def dget_simps)

lemma toy_record_mutations:
  "\<exists>y. at_key ''signature'' flip_last (JDict (toy_attestation (JDict cenv))) = Inr y"
  "\<exists>y. at_key ''payload'' (at_key ''subject_ref'' (at_key ''hash'' flip_last)) (JDict (toy_attestation (JDict cenv))) = Inr y"
  "\<exists>y. at_key ''public_key'' (py_setitem ''kty'' (JStr ''oct'')) (JDict (toy_attestation (JDict cenv))) = Inr y"
  by (simp_all add: at_key_def toy_attestation_def toy_att_payload_def dget_simps)

lemma toy_source_mutation:
  "\<exists>v. ebind (at_key ''body'' (at_key ''source_bundle'' (at_key ''body'' (at_key ''events''
                 (at_first (at_key ''content'' flip_last))))) (JDict (toy_export env cenv)))
          (re_sign_source_and_export toy) = Inr v"
proof -
  let ?sb = "toy_trace_bundle env cenv"
  have sb: "dget ?sb ''body'' = dget (toy_trace env cenv) ''body''" "has_key ''body'' ?sb"
    by (simp_all add: toy_trace_bundle_def toy_bundle_def toy_unsigned_bundle_def dget_simps)
  obtain sbody where sbody: "dget ?sb ''body'' = JDict sbody" "has_key ''events'' sbody"
    "dget sbody ''events'' = JList [JDict (toy_event env)]"
    by (simp add: sb toy_trace_body dget_simps del: toy_jcs.simps)
  have ev: "has_key ''content'' (toy_event env)" by (simp add: toy_event_def)
  obtain t where t: "flip_last (JStr (hex_encode [5])) = Inr (JStr t)"
    using flip_returns [of "hex_encode [5]"] by auto
  let ?sbody1 = "dput ''events'' (JList [JDict (dput ''content'' (JStr t) (toy_event env))]) sbody"
  let ?sb1 = "dput ''body'' (JDict ?sbody1) ?sb"
  let ?body1 = "dput ''source_bundle'' (JDict ?sb1) (toy_export_body env cenv)"
  let ?b1 = "dput ''body'' (JDict ?body1) (toy_export env cenv)"
  have inner: "at_key ''body'' (at_key ''events'' (at_first (at_key ''content'' flip_last))) (JDict ?sb) = Inr (JDict ?sb1)"
    using sbody sb ev t by (simp add: at_key_def del: hex_encode_simps flip_last.simps)
  have src: "dget (toy_export_body env cenv) ''source_bundle'' = JDict ?sb" "has_key ''source_bundle'' (toy_export_body env cenv)"
    by (simp_all add: toy_export_body_def dget_simps)
  have 1: "at_key ''body'' (at_key ''source_bundle'' (at_key ''body'' (at_key ''events''
                 (at_first (at_key ''content'' flip_last))))) (JDict (toy_export env cenv)) = Inr (JDict ?b1)"
    by (rule at_key_returns, rule toy_export_paths, unfold toy_export_paths(1), rule at_key_returns, rule src(2),
        unfold src(1), rule inner)
  have "has_key ''body'' ?sb1" by simp
  from re_sign_returns [OF toy_jcs_total this] obtain sb2 where sb2: "re_sign_wrapper toy (JDict ?sb1) = Inr (JDict sb2)" .
  obtain jb where "k_jcs toy (JDict sb2) = Inr jb" by simp
  then have "ebind (at_key ''source_bundle'' (re_sign_wrapper toy) (JDict ?body1)) (re_link toy)
    = Inr (JDict (dput ''source_bundle_hash'' (JStr (sha256_hex toy jb)) (dput ''source_bundle'' (JDict sb2) ?body1)))"
    using sb2 by (simp add: at_key_def re_link_def)
  then obtain body2 where "at_key ''body'' (\<lambda>body. ebind (at_key ''source_bundle'' (re_sign_wrapper toy) body) (re_link toy)) (JDict ?b1)
      = Inr (JDict (dput ''body'' (JDict body2) ?b1))"
    by (simp add: at_key_def)
  moreover have "has_key ''body'' (dput ''body'' (JDict body2) ?b1)" by simp
  from re_sign_returns [OF toy_jcs_total this] obtain b3 where
    "re_sign_wrapper toy (JDict (dput ''body'' (JDict body2) ?b1)) = Inr (JDict b3)" .
  ultimately have "re_sign_source_and_export toy (JDict ?b1) = Inr (JDict b3)"
    unfolding re_sign_source_and_export_def by simp
  with 1 show ?thesis by simp
qed

lemma toy_tamper_items:
  "dget (toy_tamper cenv) ''att0_mis_salt_sig'' = JStr ''00''"
  "dget (toy_tamper cenv) ''wrong_operator_attestation'' = JDict (dput ''payload''
        (JDict (dput ''operator'' (JStr ''other'') (toy_att_payload (JDict cenv)))) (toy_attestation (JDict cenv)))"
  "dget (toy_tamper cenv) ''wrong_data_hash_attestation'' = JDict (dput ''payload''
        (JDict (dput ''data_hash'' (JStr ''00'') (toy_att_payload (JDict cenv)))) (toy_attestation (JDict cenv)))"
  by (simp_all add: toy_tamper_def dget_simps)

lemma emap_add_case_returns:
  assumes "list_all (\<lambda>(vid, klass, m). (\<exists>v. m = Inr v) \<and> (\<exists>n. map_of EXPECTED_EXIT klass = Some n)) ms"
  shows "\<exists>cs. emap add_case ms = Inr cs"
proof (rule emap_returns)
  fix c assume "c \<in> set ms"
  with assms show "\<exists>y. add_case c = Inr y"
    by (cases c) (auto simp: list_all_iff add_case_def)
qed

lemma toy_body_returns:
  assumes "\<exists>y. f (JDict (toy_export_body env cenv)) = Inr y"
  shows "\<exists>v. tampered_body toy f (JDict (toy_export env cenv)) = Inr v"
  using assms tampered_body_returns [OF toy_jcs_total toy_export_paths(1)] by blast

lemma toy_attestation_returns:
  assumes "\<exists>y. f (JDict (toy_attestation (JDict cenv))) = Inr y"
  shows "\<exists>v. tampered_attestation toy f (JDict (toy_export env cenv)) = Inr v"
  unfolding tampered_attestation_def using assms toy_attestation_path toy_body_returns by blast

lemma flip_key_returns:
  assumes "has_key k d" and "\<exists>s. s \<noteq> [] \<and> dget d k = JStr s"
  shows "\<exists>v. at_key k flip_last (JDict d) = Inr v"
proof -
  obtain s where s: "s \<noteq> []" "dget d k = JStr s" using assms(2) by blast
  then obtain t where "flip_last (dget d k) = Inr (JStr t)" using flip_returns by metis
  then show ?thesis using at_key_returns [OF assms(1)] by blast
qed

lemma toy_cases_exist: "\<exists>cs. build_cases toy (toy_fixture env cenv) = Inr cs"
proof -
  have set1: "\<exists>v. py_setitem k x (JDict d) = Inr v" for k x d by simp
  have exits: "list_all (\<lambda>(vid, klass, m). \<exists>n. map_of EXPECTED_EXIT klass = Some n)
      (mutations toy (JDict (toy_export env cenv)) (JDict (toy_tamper cenv)))"
    unfolding mutations_def list.pred_inject prod.case EXPECTED_EXIT_def by simp
  have returns: "list_all (\<lambda>(vid, klass, m). \<exists>v. m = Inr v)
      (mutations toy (JDict (toy_export env cenv)) (JDict (toy_tamper cenv)))"
    unfolding mutations_def list.pred_inject prod.case
    by (intro conjI TrueI toy_body_returns toy_attestation_returns flip_key_returns toy_export_paths
        toy_body_mutations toy_record_mutations toy_source_mutation)
      (auto simp: toy_tamper_def intro!: toy_body_returns toy_attestation_returns toy_body_mutations)
  have "\<exists>cs. emap add_case (mutations toy (JDict (toy_export env cenv)) (JDict (toy_tamper cenv))) = Inr cs"
    using exits returns by (intro emap_add_case_returns) (auto simp: list_all_iff)
  then show ?thesis by (simp add: build_cases_def toy_fixture_items)
qed

lemma toy_record_shape:
  assumes "d = dput ''payload'' (JDict payload) (toy_attestation (JDict cenv))"
    and "depth (JDict payload) \<le> 100"
  shows "checkable_record toy (JDict d) d payload (bytes_to_base64url (toy_hash [1]))"
proof -
  have n: "base64url_to_bytes (JStr ''AQ'') = Inr [1]" and e: "base64url_to_bytes (JStr ''AQAB'') = Inr [1, 0, 1]"
    by code_simp+
  have big: "from_bytes_big [1] = 1" "from_bytes_big [1, 0, 1] = 65537"
    by (simp_all add: from_bytes_big_def)
  let ?pub = "[(''kty'', JStr ''RSA''), (''n'', JStr ''AQ''), (''e'', JStr ''AQAB'')]"
  have "attestation_shape (JDict d) d payload ?pub"
    unfolding assms(1) by (simp add: attestation_shape_def toy_attestation_def dget_simps is_rsa_jwk_def)
  moreover have "canonical toy (JDict payload) = Inr (toy_jcs (JDict payload))"
    using assms(2) by (intro toy_canonical) (simp add: MAX_CANONICAL_DEPTH_def)
  moreover have "\<exists>ok. verify_rsa_pss_sha256 toy (toy_jcs (JDict payload)) (dget d ''signature'') (JDict ?pub) = Inr ok"
    unfolding assms(1) verify_rsa_pss_sha256_def rsa_public_key_from_jwk_def jwk_public_exponent_def
    by (simp add: toy_attestation_def dget_simps n e big strict_hex_encode is_rsa_jwk_def RSA_PUBLIC_EXPONENT_def
        del: toy_jcs.simps strict_hex_to_bytes.simps base64url_to_bytes.simps)
  moreover have "derive_operator_address toy (dget ?pub ''n'') = Inr (bytes_to_base64url (toy_hash [1]))"
    by (simp add: derive_operator_address_def dget_simps n del: base64url_to_bytes.simps)
  ultimately show ?thesis unfolding checkable_record_def by blast
qed

lemma toy_tamper_documented: "tamper_documented toy (toy_export_body env cenv) (toy_tamper cenv)"
proof -
  let ?d = "toy_attestation (JDict cenv)"
  let ?op = "dput ''operator'' (JStr ''other'') (toy_att_payload (JDict cenv))"
  let ?dh = "dput ''data_hash'' (JStr ''00'') (toy_att_payload (JDict cenv))"
  have atts: "dget (toy_export_body env cenv) ''attestations'' = JList [JDict ?d]"
    by (simp add: toy_export_body_def dget_simps)
  have pl: "depth (JDict (toy_att_payload (JDict cenv))) = 2" by (simp add: toy_att_payload_def)
  have dp: "depth (JDict (dput k (JStr s) (toy_att_payload (JDict cenv)))) \<le> 2" for k s
    using depth_dput [of "JStr s" "toy_att_payload (JDict cenv)" k] pl by (simp del: depth.simps add: depth.simps(7))
  have "depth (JDict ?d) = 3"  by (simp add: toy_attestation_def toy_att_payload_def)
  then have dr: "depth (JDict (dput ''payload'' (JDict (dput k (JStr s) (toy_att_payload (JDict cenv)))) ?d)) \<le> depth (JDict ?d)"
    for k s using dp [of k s] by (intro depth_dput) linarith
  have sub: "dget ?d ''payload'' = JDict (toy_att_payload (JDict cenv))" by (simp add: toy_attestation_def dget_simps)
  have mis: "\<exists>s bs m. dget (toy_tamper cenv) ''att0_mis_salt_sig'' = JStr s \<and> strict_hex_to_bytes (JStr s) = Inr bs
       \<and> canonical toy (dget ?d ''payload'') = Inr m
       \<and> (\<forall>n e. rsa_public_key_from_jwk toy (dget ?d ''public_key'') = Inr (n, e) \<longrightarrow>
            k_rsa_verify toy n e RSA_PSS_SALT_LENGTH bs m \<noteq> RsaVerified)"
  proof (intro exI conjI)
    show "strict_hex_to_bytes (JStr ''00'') = Inr [0]" by code_simp
    show "canonical toy (dget ?d ''payload'') = Inr (toy_jcs (JDict (toy_att_payload (JDict cenv))))"
      unfolding sub using pl by (intro toy_canonical) (simp add: MAX_CANONICAL_DEPTH_def)
  qed (simp_all add: toy_tamper_items)
  have op: "\<exists>d' payload addr. checkable_record toy (dget (toy_tamper cenv) ''wrong_operator_attestation'') d' payload addr
       \<and> addr \<noteq> str_or [] (dget payload ''operator'')
       \<and> depth (dget (toy_tamper cenv) ''wrong_operator_attestation'') \<le> depth (JDict ?d)"
    unfolding toy_tamper_items
  proof (intro exI conjI)
    show "checkable_record toy (JDict (dput ''payload'' (JDict ?op) ?d)) (dput ''payload'' (JDict ?op) ?d) ?op
        (bytes_to_base64url (toy_hash [1]))"
      using dp [of "''operator''" "''other''"] by (intro toy_record_shape [OF refl]) linarith
    have "bytes_to_base64url (toy_hash [1]) \<noteq> ''other''" by code_simp
    then show "bytes_to_base64url (toy_hash [1]) \<noteq> str_or [] (dget ?op ''operator'')" by (simp add: str_or_def)
  qed (rule dr)
  have dh: "\<exists>d' payload addr. checkable_record toy (dget (toy_tamper cenv) ''wrong_data_hash_attestation'') d' payload addr
       \<and> \<not> data_hash_bound toy (source_checkpoints (dget (toy_export_body env cenv) ''source_bundle'')) d' payload
       \<and> depth (dget (toy_tamper cenv) ''wrong_data_hash_attestation'') \<le> depth (JDict ?d)"
    unfolding toy_tamper_items
  proof (intro exI conjI)
    show "checkable_record toy (JDict (dput ''payload'' (JDict ?dh) ?d)) (dput ''payload'' (JDict ?dh) ?d) ?dh
        (bytes_to_base64url (toy_hash [1]))"
      using dp [of "''data_hash''" "''00''"] by (intro toy_record_shape [OF refl]) linarith
    have "canonical_hash toy v \<noteq> Inr ''00''" for v
    proof
      assume "canonical_hash toy v = Inr ''00''"
      then obtain x where "hex_encode (toy_hash x) = ''00''" by (auto simp: canonical_hash_Inr sha256_hex_def)
      then have "length (hex_encode (toy_hash x)) = 2" by simp
      then show False by (simp add: length_hex_encode toy_hash.digest_length)
    qed
    moreover have "lower (str_or [] (dget ?dh ''data_hash'')) = ''00''"
      by (simp add: str_or_def lower_def) code_simp
    ultimately show "\<not> data_hash_bound toy (source_checkpoints (dget (toy_export_body env cenv) ''source_bundle''))
        (dput ''payload'' (JDict ?dh) ?d) ?dh"
      by (simp add: data_hash_bound_def)
  qed (rule dr)
  from atts mis op dh show ?thesis unfolding tamper_documented_def by blast
qed

lemma toy_committed: "content_hashes env = [(Asset, sha256_hex toy [5])] \<Longrightarrow>
    sha256_hex toy [5] \<in> set (committed_hashes toy (toy_event env) (fst (decode_record (toy_event env))))"
  by (simp add: decode_record_def committed_hashes_def dget_simps)

text \<open>A golden export, its source and the cases built from it.\<close>

definition toy_built :: "items \<Rightarrow> items \<Rightarrow> export_case list \<Rightarrow> bool" where
  "toy_built env cenv cs \<longleftrightarrow>
     golden_export toy (None :: unit fetch option) [] [] (toy_export env cenv) ()
     \<and> build_cases toy (toy_fixture env cenv) = Inr cs
     \<and> sha256_hex toy [5] \<in> set (committed_hashes toy (toy_event env) (fst (decode_record (toy_event env))))"

lemma toy_built_exists: obtains env cenv cs where "toy_built env cenv cs"
proof -
  obtain env cenv where p:
    "checkpoint_bound toy (toy_checkpoint cenv (leaf_hash toy_hash (toy_jcs (JDict env))))"
    "event_verified toy [toy_checkpoint cenv (leaf_hash toy_hash (toy_jcs (JDict env)))] [] (toy_event env)"
    "depth (JDict env) \<le> 2" "depth (JDict cenv) \<le> 1" and c: "content_hashes env = [(Asset, sha256_hex toy [5])]"
    by (rule toy_content_parts)
  note p = p [folded toy_root_of_def]
  obtain cs where "build_cases toy (toy_fixture env cenv) = Inr cs" using toy_cases_exist by blast
  with toy_golden [OF toy_export_valid [OF p]] toy_committed [OF c] that show thesis
    unfolding toy_built_def by blast
qed

lemma toy_source_parts:
  "dget (toy_export_body env cenv) ''source_bundle'' = JDict (toy_trace_bundle env cenv)"
  "stack_signed_trace toy (toy_trace_bundle env cenv)"
  "dget (toy_trace_bundle env cenv) ''body'' = dget (toy_trace env cenv) ''body''"
  by (simp_all add: toy_export_body_def dget_simps stack_signed_trace_def toy_trace_bundle_def toy_bundle_keys
      toy_bundle_fields)

section \<open>Properties\<close>

text \<open>
  C24: the structural cases exit as declared.  For the untouched export, the flipped
  \<open>body_hash\<close>, the flipped \<open>source_bundle_hash\<close>, the key type and the algorithm that cannot be
  used, and the source given by reference, the verifier returns with exactly the exit code of
  \<open>EXPECTED_EXIT\<close>: 0, 1, 1, 2, 2 and 3.  Nothing is assumed of hash or signatures but that
  what is signed with the stack key verifies.
\<close>

theorem export_cases_exit:
  assumes "ed25519_contract K" and "golden_export K fetch gateways content b w"
    and "build_cases K fixture = Inr cs" and "py_item fixture ''export'' = Inr (JDict b)"
  shows "list_all (\<lambda>c. xc_klass c \<in> set [''positive'', ''body-hash-mismatch'', ''source-bundle-hash-mismatch'',
           ''malformed-rsa-key'', ''malformed-signature-alg'', ''source-bundle-ref-offline''] \<longrightarrow>
         exits K fetch gateways content (xc_bundle c) w (xc_expected_exit c)) cs"
  unfolding list_all_iff using structural_classes [OF assms] by blast

theorem export_cases_exit_witness:
  "\<exists>env cenv cs. toy_built env cenv cs
     \<and> list_all (\<lambda>c. xc_klass c \<in> set [''positive'', ''body-hash-mismatch'', ''source-bundle-hash-mismatch'',
           ''malformed-rsa-key'', ''malformed-signature-alg'', ''source-bundle-ref-offline''] \<longrightarrow>
         exits toy (None :: unit fetch option) [] [] (xc_bundle c) () (xc_expected_exit c)) cs"
proof (rule toy_built_exists)
  fix env cenv cs assume b: "toy_built env cenv cs"
  note h = conjunct1 [OF b [unfolded toy_built_def]] conjunct1 [OF conjunct2 [OF b [unfolded toy_built_def]]]
  from export_cases_exit [OF toy_ed25519 h toy_fixture_items(1)]
  show ?thesis by (intro exI conjI) (rule b)
qed

text \<open>
  C25: the cryptographic cases are caught.  For the flipped wrapper signature, the cached
  finding turned to \<open>false\<close>, the flipped attestation signature and the altered
  \<open>subject_ref\<close> inside the signed payload, the verifier returns with the declared exit code,
  unless the keys or the serializer have a concrete accident on the golden export itself: the
  flipped signature is valid too, the signature is valid for the altered payload too, or the
  altered projection, whose first event has \<open>signature_ok\<close> false, has the canonical text of
  one in which every event has it true.
\<close>

theorem export_cases_caught:
  assumes "ed25519_contract K" and "jcs_closed K" and "golden_export K fetch gateways content b w"
    and "build_cases K fixture = Inr cs" and "py_item fixture ''export'' = Inr (JDict b)"
  shows "list_all (\<lambda>c. xc_klass c \<in> set [''wrapper-signature-break'', ''verdict-disagreement'',
           ''forged-attestation-signature'', ''subject-ref-tamper''] \<longrightarrow>
         exits K fetch gateways content (xc_bundle c) w (xc_expected_exit c) \<or> export_accident K b (xc_klass c)) cs"
  unfolding list_all_iff using cryptographic_classes [OF assms] by blast

theorem export_cases_caught_witness:
  "\<exists>env cenv cs. toy_built env cenv cs
     \<and> list_all (\<lambda>c. xc_klass c \<in> set [''wrapper-signature-break'', ''verdict-disagreement'',
           ''forged-attestation-signature'', ''subject-ref-tamper''] \<longrightarrow>
         exits toy (None :: unit fetch option) [] [] (xc_bundle c) () (xc_expected_exit c)
         \<or> export_accident toy (toy_export env cenv) (xc_klass c)) cs"
proof (rule toy_built_exists)
  fix env cenv cs assume b: "toy_built env cenv cs"
  note h = conjunct1 [OF b [unfolded toy_built_def]] conjunct1 [OF conjunct2 [OF b [unfolded toy_built_def]]]
  from export_cases_caught [OF toy_ed25519 toy_jcs_closed h toy_fixture_items(1)]
  show ?thesis by (intro exI conjI) (rule b)
qed

text \<open>
  C26: the swapped-in pieces are rejected.  If the \<open>_tamper\<close> block of the fixture is what its
  documentation says (a signature of the same payload that is invalid under salt length 32, a
  checkable record whose key derives another operator address, a checkable record whose
  \<open>data_hash\<close> is not that of the checkpoint), the three cases built from it exit with 1.
\<close>

theorem export_tamper_pieces:
  assumes "ed25519_contract K" and "golden_export K fetch gateways content b w"
    and "build_cases K fixture = Inr cs" and "py_item fixture ''export'' = Inr (JDict b)"
    and "py_item fixture ''_tamper'' = Inr (JDict tamper)" and "dget b ''body'' = JDict body"
    and "tamper_documented K body tamper"
  shows "list_all (\<lambda>c. xc_klass c \<in> set [''mis-salted-attestation'', ''operator-address-binding-break'',
           ''data-hash-binding-break''] \<longrightarrow>
         exits K fetch gateways content (xc_bundle c) w (xc_expected_exit c)) cs"
  unfolding list_all_iff using tamper_classes [OF assms] by blast

theorem export_tamper_pieces_witness:
  "\<exists>env cenv cs. toy_built env cenv cs
     \<and> list_all (\<lambda>c. xc_klass c \<in> set [''mis-salted-attestation'', ''operator-address-binding-break'',
           ''data-hash-binding-break''] \<longrightarrow>
         exits toy (None :: unit fetch option) [] [] (xc_bundle c) () (xc_expected_exit c)) cs"
proof (rule toy_built_exists)
  fix env cenv cs assume b: "toy_built env cenv cs"
  note h = conjunct1 [OF b [unfolded toy_built_def]] conjunct1 [OF conjunct2 [OF b [unfolded toy_built_def]]]
  from export_tamper_pieces [OF toy_ed25519 h toy_fixture_items toy_export_paths(1) toy_tamper_documented]
  show ?thesis by (intro exI conjI) (rule b)
qed

text \<open>
  C27: a flipped disclosed content is caught.  The builder flips the last digit of the content
  that the first event of the source discloses, and signs source and export again.  When the
  golden content is the hexadecimal text of bytes the event commits to, the case exits with
  its declared code, unless the hash of the flipped bytes is committed by the event too.
\<close>

theorem export_disclosed_content:
  assumes "ed25519_contract K" and "golden_export K fetch gateways content b w"
    and "build_cases K fixture = Inr cs" and "py_item fixture ''export'' = Inr (JDict b)"
    and "dget b ''body'' = JDict body" and "dget body ''source_bundle'' = JDict sb"
    and "stack_signed_trace K sb"
    and "dget sb ''body'' = JDict sbody" and "dget sbody ''events'' = JList (JDict ev # evs)"
    and "dget ev ''content'' = JStr (hex_encode x)"
    and "sha256_hex K x \<in> set (committed_hashes K ev (fst (decode_record ev)))"
  shows "list_all (\<lambda>c. xc_klass c = ''disclosed-content-mismatch'' \<longrightarrow>
         exits K fetch gateways content (xc_bundle c) w (xc_expected_exit c)
         \<or> (\<exists>t x'. flip_last (JStr (hex_encode x)) = Inr (JStr t) \<and> hex_to_bytes t = Inr x' \<and> x' \<noteq> x
         \<and> sha256_hex K x' \<in> set (committed_hashes K ev (fst (decode_record ev))))) cs"
  unfolding list_all_iff using disclosed_class [OF assms] by blast

theorem export_disclosed_content_witness:
  "\<exists>env cenv cs. toy_built env cenv cs
     \<and> list_all (\<lambda>c. xc_klass c = ''disclosed-content-mismatch'' \<longrightarrow>
         exits toy (None :: unit fetch option) [] [] (xc_bundle c) () (xc_expected_exit c)
         \<or> (\<exists>t x'. flip_last (JStr (hex_encode [5])) = Inr (JStr t) \<and> hex_to_bytes t = Inr x' \<and> x' \<noteq> [5]
         \<and> sha256_hex toy x' \<in> set (committed_hashes toy (toy_event env) (fst (decode_record (toy_event env)))))) cs"
proof (rule toy_built_exists)
  fix env cenv cs assume b: "toy_built env cenv cs"
  note h = conjunct1 [OF b [unfolded toy_built_def]] conjunct1 [OF conjunct2 [OF b [unfolded toy_built_def]]]
  obtain sbody where s: "dget (toy_trace_bundle env cenv) ''body'' = JDict sbody"
    "dget sbody ''events'' = JList (JDict (toy_event env) # [])"
    by (simp add: toy_source_parts(3) toy_trace_body dget_simps del: toy_jcs.simps)
  have e: "dget (toy_event env) ''content'' = JStr (hex_encode [5])" by (simp add: toy_event_def dget_simps)
  note c = conjunct2 [OF conjunct2 [OF b [unfolded toy_built_def]]]
  from export_disclosed_content [OF toy_ed25519 h toy_fixture_items(1) toy_export_paths(1)
      toy_source_parts(1,2) s e c]
  show ?thesis by (intro exI conjI) (rule b)
qed

end
