(* ===== verification/Export_Corpus.thy ===== *)
theory Export_Corpus
  imports Export_Vectors
begin

text \<open>
  What is recorded of the export cases: \<open>gen_export_vectors.py\<close> writes one vector per case with an
  expected block, \<open>generate_export_cases.py\<close> one entry per case with a verdict record for the
  TypeScript kernel to reproduce.  Both run the verifier offline on the cases of
  \<open>Export_Vectors\<close>.
\<close>

section \<open>The committed corpus\<close>

definition DESCRIPTIONS :: "(string \<times> string) list" where
  "DESCRIPTIONS =
     [(''positive'',
        ''POSITIVE. Ed25519 issuer-signed wrapper over an inline ario.anchor.trace/v1 source ''
        @ ''bundle (3 events, event 0 discloses its raw log -> content_ok:true; 1-checkpoint ''
        @ ''merkle window) + 2 salt=32 RSA-PSS operator attestations (one carrying a subject_ref) ''
        @ ''+ a cached kernel_verdict with a per-gateway confirm/unreachable on-chain mix. ''
        @ ''Verifies fully OFFLINE -> exit 0; the recomputed ''
        @ [CHR 0xC2, CHR 0xA7]
        @ ''4 verdict agrees with the cached one over the deterministic dimensions and is ''
        @ ''byte-identical across the TS and Python kernels.''),
      (''wrapper-signature-break'',
        ''Wrapper Ed25519 signature byte-flipped (verbatim-bytes tamper, no re-sign). The ''
        @ ''body is untrustworthy -> failed, no export block. Exit 1.''),
      (''body-hash-mismatch'',
        ''Wrapper body_hash byte-flipped. Recompute != claim -> failed. Exit 1.''),
      (''source-bundle-hash-mismatch'',
        ''body.source_bundle_hash byte-flipped, wrapper re-signed. Wrapper authentic; the ''
        @ ''source-bundle linkage is broken -> failed. Exit 1.''),
      (''verdict-disagreement'',
        ''A cached deterministic finding (kernel_verdict.events[0].signature_ok) flipped ''
        @ ''to false, wrapper re-signed. The recompute contradicts the cache (recompute-don''
        @ [CHR 0x27]
        @ ''t-trust) -> failed. Exit 1.''),
      (''forged-attestation-signature'',
        ''attestations[0].signature byte-flipped, wrapper re-signed. The RSA-PSS signature ''
        @ ''no longer verifies -> attestation fails -> failed. Exit 1.''),
      (''mis-salted-attestation'',
        ''attestations[0].signature replaced with a max/auto-salt RSA-PSS signature over ''
        @ ''the SAME payload+key (the shipped issuer''
        @ [CHR 0x27]
        @ ''s former default), wrapper re-signed. The salt=32 pin rejects it -> failed. Exit ''
        @ ''1. THE salt-length pin.''),
      (''operator-address-binding-break'',
        ''attestations[0] replaced with an op2-signed record whose payload still claims ''
        @ ''op1''
        @ [CHR 0x27]
        @ ''s address, wrapper re-signed. The RSA-PSS sig verifies but base64url(SHA-256(op2.n)) ''
        @ ''!= payload.operator -> failed. Exit 1.''),
      (''data-hash-binding-break'',
        ''attestations[0] replaced with an op1-signed record whose data_hash is not SHA-256(JCS(checkpoint.envelope)), ''
        @ ''wrapper re-signed. Sig + operator bind, data_hash does not -> failed. Exit 1.''),
      (''disclosed-content-mismatch'',
        ''Source event 0''
        @ [CHR 0x27]
        @ ''s in-body disclosed content byte-flipped; source bundle + export wrapper re-signed. ''
        @ ''The disclosed bytes no longer hash to the committed content_hash -> event fails ''
        @ ''-> failed. Exit 1.''),
      (''subject-ref-tamper'',
        ''attestations[0].payload.subject_ref.hash byte-flipped, wrapper re-signed. subject_ref ''
        @ ''lives INSIDE the RSA-signed payload, so altering it breaks the attestation signature ''
        @ ''-> failed. Exit 1.''),
      (''malformed-rsa-key'',
        ''attestations[0].public_key.kty set to ''
        @ [CHR 0x27]
        @ ''oct''
        @ [CHR 0x27]
        @ '' (won''
        @ [CHR 0x27]
        @ ''t import), wrapper re-signed. MALFORMED input -> no verdict renderable. Exit 2.''),
      (''malformed-signature-alg'',
        ''attestations[0].signature_alg set to ''
        @ [CHR 0x27]
        @ ''ed25519''
        @ [CHR 0x27]
        @ '' (unsupported per-record alg), wrapper re-signed. MALFORMED input. Exit 2.''),
      (''source-bundle-ref-offline'',
        ''Inline source_bundle removed, replaced by a source_bundle_ref, wrapper re-signed. ''
        @ ''The referenced bytes are unavailable offline -> source-dependent checks UNDETERMINED ''
        @ ''(not a failure). Exit 3.'')]"

text \<open>\<open>verify_evidence_bundle(bundle)\<close>: no gateways, no content beside the bundle.\<close>

definition offline_result :: "kernel \<Rightarrow> json \<Rightarrow> exc + evidence_result" where
  "offline_result K bundle =
     map_sum id fst (verify_evidence_bundle K (None :: unit fetch option) [] [] bundle ())"

definition attestation_block :: "attestation_result \<Rightarrow> json" where
  "attestation_block a =
     JDict
      [(''signature_ok'', JBool (at_signature_ok a)),
       (''operator_address_bound'', JBool (at_operator_address_bound a)),
       (''data_hash_bound'', JBool (at_data_hash_bound a)),
       (''checkpoint_resolved'', JBool (at_checkpoint_resolved a)),
       (''subject_ref_ok'', tristate (at_subject_ref_ok a)),
       (''ok'', JBool (at_ok a))]"

definition expected_block :: "kernel \<Rightarrow> json \<Rightarrow> exc + items" where
  "expected_block K bundle =
     ebind (offline_result K bundle)
       (\<lambda>r.
          let expd =
            [(''status'', JStr (status_text (er_status r))), (''exit_code'', JInt (exit_code r)),
             (''signature_ok'', JBool (er_signature_ok r)), (''body_hash_ok'', JBool (er_body_hash_ok r))]
          in case er_export r of
               None \<Rightarrow> Inr expd
             | Some e \<Rightarrow>
                 ebind (canonical K (JDict (xr_verdict e)))
                   (\<lambda>b. Inr (expd @
                      [(''source_linkage_ok'', JBool (xr_source_linkage_ok e)),
                       (''verdict_agreement_ok'', JBool (xr_verdict_agreement_ok e)),
                       (''source_status'', JStr (status_text (xr_source_status e))),
                       (''attestations'', JList (map attestation_block (xr_attestations e))),
                       (''verdict_jcs_sha256'', JStr (sha256_hex K b))])))"

definition export_vector :: "kernel \<Rightarrow> export_case \<Rightarrow> exc + items" where
  "export_vector K c =
     (case map_of DESCRIPTIONS (xc_klass c) of
        None \<Rightarrow> Inl KeyError
      | Some description \<Rightarrow>
          ebind (expected_block K (xc_bundle c))
            (\<lambda>expd. Inr
               [(''vector_id'', JStr (xc_id c)), (''class'', JStr (xc_klass c)),
                (''description'', JStr description), (''expected'', JDict expd), (''bundle'', xc_bundle c)]))"

definition export_vectors :: "kernel \<Rightarrow> json \<Rightarrow> exc + items list" where
  "export_vectors K fixture = ebind (build_cases K fixture) (emap (export_vector K))"

section \<open>The cross-kernel gate\<close>

definition verdict_record :: "kernel \<Rightarrow> json \<Rightarrow> exc + items" where
  "verdict_record K bundle =
     ebind (offline_result K bundle)
       (\<lambda>r.
          let rec = (\<lambda>export.
            [(''status'', JStr (status_text (er_status r))), (''exit'', JInt (exit_code r)),
             (''spec_version_ok'', JBool (er_spec_version_ok r)), (''signature_ok'', JBool (er_signature_ok r)),
             (''body_hash_ok'', JBool (er_body_hash_ok r)),
             (''body_type'', (case er_body_type r of None \<Rightarrow> JNull | Some t \<Rightarrow> JStr t)),
             (''export'', export)])
          in case er_export r of
               None \<Rightarrow> Inr (rec JNull)
             | Some e \<Rightarrow>
                 ebind (canonical K (JDict (xr_verdict e)))
                   (\<lambda>b. Inr (rec (JDict
                      [(''source_linkage_ok'', JBool (xr_source_linkage_ok e)),
                       (''source_status'', JStr (status_text (xr_source_status e))),
                       (''verdict_agreement_ok'', JBool (xr_verdict_agreement_ok e)),
                       (''status'', JStr (status_text (xr_status e))),
                       (''attestations'', JList (map attestation_block (xr_attestations e))),
                       (''verdict_jcs_sha256'', JStr (sha256_hex K b))]))))"

definition gate_entry :: "kernel \<Rightarrow> export_case \<Rightarrow> exc + items" where
  "gate_entry K c =
     ebind (verdict_record K (xc_bundle c))
       (\<lambda>py. Inr
          [(''id'', JStr (xc_id c)), (''klass'', JStr (xc_klass c)),
           (''expected_exit'', JInt (xc_expected_exit c)), (''bundle'', xc_bundle c), (''py'', JDict py)])"

definition gate_entries :: "kernel \<Rightarrow> json \<Rightarrow> exc + items list" where
  "gate_entries K fixture = ebind (build_cases K fixture) (emap (gate_entry K))"

section \<open>Two records of one run\<close>

text \<open>Every class has a description, so the writer finds one for every case.\<close>

lemma classes_described: "map fst DESCRIPTIONS = map fst EXPECTED_EXIT"
  by (simp add: DESCRIPTIONS_def EXPECTED_EXIT_def)

lemma built_case_class:
  assumes "build_cases K fixture = Inr cs" and "c \<in> set cs"
  shows "map_of DESCRIPTIONS (xc_klass c) \<noteq> None" and "map_of EXPECTED_EXIT (xc_klass c) = Some (xc_expected_exit c)"
proof -
  show e: "map_of EXPECTED_EXIT (xc_klass c) = Some (xc_expected_exit c)"
    by (rule build_cases_in [OF assms])
  then have "xc_klass c \<in> set (map fst DESCRIPTIONS)"
    unfolding classes_described by (metis domI dom_map_of_conv_image_fst set_map)
  then show "map_of DESCRIPTIONS (xc_klass c) \<noteq> None" by (simp add: map_of_eq_None_iff)
qed

text \<open>The findings the expected block and the verdict record have in common.\<close>

definition same_findings :: "items \<Rightarrow> items \<Rightarrow> bool" where
  "same_findings e p \<longleftrightarrow>
     dget e ''status'' = dget p ''status'' \<and> dget e ''exit_code'' = dget p ''exit''
     \<and> dget e ''signature_ok'' = dget p ''signature_ok'' \<and> dget e ''body_hash_ok'' = dget p ''body_hash_ok''
     \<and> (if has_key ''verdict_jcs_sha256'' e
        then \<exists>x. dget p ''export'' = JDict x \<and>
          list_all (\<lambda>k. dget e k = dget x k)
            [''source_linkage_ok'', ''verdict_agreement_ok'', ''source_status'', ''attestations'', ''verdict_jcs_sha256'']
        else dget p ''export'' = JNull)"

lemma expected_and_record:
  "(\<exists>e. expected_block K v = Inr e) \<longleftrightarrow> (\<exists>p. verdict_record K v = Inr p)"
  "expected_block K v = Inr e \<Longrightarrow> verdict_record K v = Inr p \<Longrightarrow> same_findings e p"
proof -
  show "(\<exists>e. expected_block K v = Inr e) \<longleftrightarrow> (\<exists>p. verdict_record K v = Inr p)"
  proof (cases "offline_result K v")
    case (Inr r)
    show ?thesis
    proof (cases "er_export r")
      case (Some x)
      with Inr show ?thesis
        by (cases "canonical K (JDict (xr_verdict x))") (simp_all add: expected_block_def verdict_record_def Let_def)
    qed (simp add: Inr expected_block_def verdict_record_def Let_def)
  qed (simp add: expected_block_def verdict_record_def)
  assume e: "expected_block K v = Inr e" and p: "verdict_record K v = Inr p"
  obtain r where r: "offline_result K v = Inr r" using e by (auto simp: expected_block_def ebind_Inr_iff)
  show "same_findings e p"
  proof (cases "er_export r")
    case None
    with e p r show ?thesis
      by (auto simp: expected_block_def verdict_record_def Let_def same_findings_def dget_simps)
  next
    case (Some x)
    with e p r show ?thesis
      by (auto simp: expected_block_def verdict_record_def Let_def ebind_Inr_iff same_findings_def dget_simps)
  qed
qed

lemma export_vector_gate_entry:
  assumes "map_of DESCRIPTIONS (xc_klass c) \<noteq> None"
  shows "(\<exists>v. export_vector K c = Inr v) \<longleftrightarrow> (\<exists>g. gate_entry K c = Inr g)"
    and "export_vector K c = Inr v \<Longrightarrow> gate_entry K c = Inr g \<Longrightarrow>
      dget v ''vector_id'' = dget g ''id'' \<and> dget v ''class'' = dget g ''klass'' \<and> dget v ''bundle'' = dget g ''bundle''
      \<and> (\<exists>e p. dget v ''expected'' = JDict e \<and> dget g ''py'' = JDict p \<and> same_findings e p)"
proof -
  obtain d where d: "map_of DESCRIPTIONS (xc_klass c) = Some d" using assms by blast
  show "(\<exists>v. export_vector K c = Inr v) \<longleftrightarrow> (\<exists>g. gate_entry K c = Inr g)"
    using expected_and_record(1) [of K "xc_bundle c"] by (auto simp: export_vector_def gate_entry_def d ebind_Inr_iff)
  assume "export_vector K c = Inr v" "gate_entry K c = Inr g"
  then show "dget v ''vector_id'' = dget g ''id'' \<and> dget v ''class'' = dget g ''klass'' \<and> dget v ''bundle'' = dget g ''bundle''
      \<and> (\<exists>e p. dget v ''expected'' = JDict e \<and> dget g ''py'' = JDict p \<and> same_findings e p)"
    using expected_and_record(2) [of K "xc_bundle c"]
    by (auto simp: export_vector_def gate_entry_def d ebind_Inr_iff dget_simps)
qed

lemma emap_both:
  assumes "\<And>x. x \<in> set xs \<Longrightarrow> (\<exists>y. f x = Inr y) \<longleftrightarrow> (\<exists>z. g x = Inr z)"
  shows "(\<exists>ys. emap f xs = Inr ys) \<longleftrightarrow> (\<exists>zs. emap g xs = Inr zs)"
  using assms by (induction xs) (auto simp: ebind_Inr_iff, blast+)

lemma corpora_agree:
  "(\<exists>vs. export_vectors K fixture = Inr vs) \<longleftrightarrow> (\<exists>gs. gate_entries K fixture = Inr gs)"
  "export_vectors K fixture = Inr vs \<Longrightarrow> gate_entries K fixture = Inr gs \<Longrightarrow>
   list_all2 (\<lambda>v g. dget v ''vector_id'' = dget g ''id'' \<and> dget v ''class'' = dget g ''klass'' \<and> dget v ''bundle'' = dget g ''bundle''
      \<and> (\<exists>e p. dget v ''expected'' = JDict e \<and> dget g ''py'' = JDict p \<and> same_findings e p)) vs gs"
proof -
  show "(\<exists>vs. export_vectors K fixture = Inr vs) \<longleftrightarrow> (\<exists>gs. gate_entries K fixture = Inr gs)"
  proof (cases "build_cases K fixture")
    case (Inr cs)
    then show ?thesis
      unfolding export_vectors_def gate_entries_def Inr ebind_simps
      by (intro emap_both export_vector_gate_entry(1) built_case_class(1) [OF Inr])
  qed (simp add: export_vectors_def gate_entries_def)
  assume v: "export_vectors K fixture = Inr vs" and g: "gate_entries K fixture = Inr gs"
  obtain cs where cs: "build_cases K fixture = Inr cs" "emap (export_vector K) cs = Inr vs"
    using v by (auto simp: export_vectors_def ebind_Inr_iff)
  then have "emap (gate_entry K) cs = Inr gs" using g by (simp add: gate_entries_def)
  with cs have l: "list_all2 (\<lambda>c v. export_vector K c = Inr v) cs vs" "list_all2 (\<lambda>c g. gate_entry K c = Inr g) cs gs"
    by (simp_all add: emap_Inr_iff)
  show "list_all2 (\<lambda>v g. dget v ''vector_id'' = dget g ''id'' \<and> dget v ''class'' = dget g ''klass'' \<and> dget v ''bundle'' = dget g ''bundle''
      \<and> (\<exists>e p. dget v ''expected'' = JDict e \<and> dget g ''py'' = JDict p \<and> same_findings e p)) vs gs"
  proof (rule list_all2_all_nthI)
    show "length vs = length gs" using l by (metis list_all2_lengthD)
    fix i assume "i < length vs"
    then have i: "i < length cs" using l(1) by (simp add: list_all2_lengthD)
    then have "cs ! i \<in> set cs" by simp
    from export_vector_gate_entry(2) [OF built_case_class(1) [OF cs(1) this] list_all2_nthD [OF l(1) i] list_all2_nthD [OF l(2) i]]
    show "dget (vs ! i) ''vector_id'' = dget (gs ! i) ''id'' \<and> dget (vs ! i) ''class'' = dget (gs ! i) ''klass''
      \<and> dget (vs ! i) ''bundle'' = dget (gs ! i) ''bundle''
      \<and> (\<exists>e p. dget (vs ! i) ''expected'' = JDict e \<and> dget (gs ! i) ''py'' = JDict p \<and> same_findings e p)" .
  qed
qed

text \<open>The exit code recorded is the one the verifier gives.\<close>

lemma recorded_exit:
  assumes "exits K (None :: unit fetch option) [] [] v () n"
  shows "verdict_record K v = Inr p \<Longrightarrow> dget p ''exit'' = JInt n"
    and "expected_block K v = Inr e \<Longrightarrow> dget e ''exit_code'' = JInt n"
proof -
  obtain r w where r: "verify_evidence_bundle K (None :: unit fetch option) [] [] v () = Inr (r, w)" "exit_code r = n"
    using assms by (auto simp: exits_def split: sum.splits prod.splits)
  then have o: "offline_result K v = Inr r" by (simp add: offline_result_def)
  show p: "dget p ''exit'' = JInt n" if "verdict_record K v = Inr p" for p
    using that o r(2) by (auto simp: verdict_record_def Let_def ebind_Inr_iff dget_simps split: option.splits)
  assume e: "expected_block K v = Inr e"
  then obtain p where "verdict_record K v = Inr p" using expected_and_record(1) by blast
  with p expected_and_record(2) [OF e this] show "dget e ''exit_code'' = JInt n" by (simp add: same_findings_def)
qed

lemma gate_exit:
  assumes "ed25519_contract K" and "golden_export K (None :: unit fetch option) [] [] b ()"
    and "py_item fixture ''export'' = Inr (JDict b)" and "gate_entries K fixture = Inr gs" and "g \<in> set gs"
    and "dget g ''klass'' \<in> JStr ` set [''positive'', ''body-hash-mismatch'', ''source-bundle-hash-mismatch'',
           ''malformed-rsa-key'', ''malformed-signature-alg'', ''source-bundle-ref-offline'']"
  shows "\<exists>py. dget g ''py'' = JDict py \<and> dget py ''exit'' = dget g ''expected_exit''"
proof -
  obtain cs where cs: "build_cases K fixture = Inr cs" "emap (gate_entry K) cs = Inr gs"
    using assms(4) by (auto simp: gate_entries_def ebind_Inr_iff)
  then have l: "list_all2 (\<lambda>c g. gate_entry K c = Inr g) cs gs" by (simp add: emap_Inr_iff)
  obtain i where i: "i < length gs" "g = gs ! i" using assms(5) by (auto simp: in_set_conv_nth)
  obtain c where c: "c \<in> set cs" "gate_entry K c = Inr g"
    using that [of "cs ! i"] i list_all2_nthD2 [OF l i(1)] list_all2_lengthD [OF l] by simp
  obtain py where py: "verdict_record K (xc_bundle c) = Inr py"
    and g: "g = [(''id'', JStr (xc_id c)), (''klass'', JStr (xc_klass c)),
           (''expected_exit'', JInt (xc_expected_exit c)), (''bundle'', xc_bundle c), (''py'', JDict py)]"
    using c(2) by (auto simp: gate_entry_def ebind_Inr_iff)
  have "dget g ''klass'' = JStr (xc_klass c)" by (simp add: g dget_simps)
  then have "xc_klass c \<in> set [''positive'', ''body-hash-mismatch'', ''source-bundle-hash-mismatch'',
           ''malformed-rsa-key'', ''malformed-signature-alg'', ''source-bundle-ref-offline'']"
    using assms(6) by (simp only: image_iff json.inject) blast
  from recorded_exit(1) [OF structural_classes [OF assms(1,2) cs(1) assms(3) c(1) this] py]
  show ?thesis by (simp add: g dget_simps)
qed

section \<open>Properties\<close>



end
