(* ===== verification/Key_Order.thy ===== *)
theory Key_Order
  imports Envelope "HOL-Library.Multiset" "HOL-Library.List_Lexorder" "HOL-Library.Char_ord"
begin

text \<open>
  The verdict on an envelope does not depend on the order of its keys, so a kernel may verify
  what a JSON parser returned for the signed bytes.
\<close>

section \<open>Dicts with the same items\<close>
text \<open>RFC 8785 sorts the keys of an object: dicts with the same items have one text.\<close>

definition jcs_sorts_keys :: "kernel \<Rightarrow> bool" where
  "jcs_sorts_keys K \<longleftrightarrow>
     (\<forall>d d'. mset d' = mset d \<longrightarrow> distinct (map fst d) \<longrightarrow> k_jcs K (JDict d') = k_jcs K (JDict d))"

lemma distinct_keys_mset: "mset d' = mset d \<Longrightarrow> distinct (map fst d) \<Longrightarrow> distinct (map fst d')"
  by (metis mset_eq_imp_distinct_iff mset_map)

lemma map_of_mset: "mset d' = mset d \<Longrightarrow> distinct (map fst d) \<Longrightarrow> map_of d' = map_of d"
proof -
  assume m: "mset d' = mset d" and d: "distinct (map fst d)"
  have d': "distinct (map fst d')" by (rule distinct_keys_mset [OF m d])
  have "set d' = set d" using m by (rule mset_eq_setD)
  with d d' show "map_of d' = map_of d" by (simp add: map_of_inject_set)
qed

lemma depth_mset: "mset d' = mset d \<Longrightarrow> depth (JDict d') = depth (JDict d)"
proof -
  assume "mset d' = mset d"
  then have "set (map snd d') = set (map snd d)" by (metis mset_eq_setD set_map)
  then show "depth (JDict d') = depth (JDict d)" by (intro antisym depth_mono) simp_all
qed


lemma envelope_for_signature_mset:
  assumes "mset d' = mset d" and "distinct (map fst d)"
  shows "mset (envelope_for_signature d') = mset (envelope_for_signature d)"
proof -
  have "strips_annotations d' = strips_annotations d"
    using map_of_mset [OF assms] by (intro strips_annotations_cong) (simp add: dget_def)
  then show ?thesis using assms(1) by (simp add: envelope_for_signature_def Let_def)
qed

lemma canonical_mset:
  assumes "jcs_sorts_keys K" and "mset d' = mset d" and "distinct (map fst d)"
  shows "canonical K (JDict d') = canonical K (JDict d)"
proof -
  have "k_jcs K (JDict d') = k_jcs K (JDict d)" using assms unfolding jcs_sorts_keys_def by blast
  then show ?thesis
    using depth_mset [OF assms(2)] by (simp only: canonical_def canonical_json_def exceeds_depth_iff)
qed

lemma verify_envelope_mset:
  assumes "jcs_sorts_keys K" and "mset d' = mset d" and "distinct (map fst d)"
  shows "verify_envelope K (JDict d') pb e legacy = verify_envelope K (JDict d) pb e legacy"
proof -
  have m: "dget d' k = dget d k" "has_key k d' = has_key k d" "dget_default d' k v = dget_default d k v" for k v
    using map_of_mset [OF assms(2,3)] by (simp_all add: dget_def has_key_def dget_default_def)
  have "distinct (map fst (envelope_for_signature d))"
    using assms(3) by (auto simp: envelope_for_signature_def Let_def distinct_map_filter)
  then have "canonical K (JDict (envelope_for_signature d')) = canonical K (JDict (envelope_for_signature d))"
    by (intro canonical_mset [OF assms(1) envelope_for_signature_mset [OF assms(2,3)]])
  then have "check_signature K d' = check_signature K d" by (simp only: check_signature_def m)
  moreover have "check_spec_version d' legacy = check_spec_version d legacy" by (simp only: check_spec_version_def m)
  moreover have "check_payload K d' pb = check_payload K d pb" unfolding check_payload_def m ..
  moreover have "check_content d' e = check_content d e" unfolding check_content_def content_hashes_def m ..
  ultimately show ?thesis by (simp only: verify_envelope_def json.case)
qed

section \<open>A serializer that sorts\<close>

definition sorted_toy :: kernel where
  "sorted_toy = toy \<lparr> k_jcs := (\<lambda>v. case v of JDict d \<Rightarrow> Inr (toy_jcs (JDict (sort_key fst d))) | _ \<Rightarrow> Inr (toy_jcs v)) \<rparr>"

lemma sorted_toy_sorts: "jcs_sorts_keys sorted_toy"
proof -
  have "sort_key fst d' = sort_key fst d" if "mset d' = mset d" "distinct (map fst d)" for d d' :: items
    using that 
    by (intro sort_key_inj_key_eq) (auto simp: distinct_map dest: mset_eq_setD)
  moreover have "k_jcs sorted_toy (JDict d) = Inr (toy_jcs (JDict (sort_key fst d)))" for d
    by (simp add: sorted_toy_def del: toy_jcs.simps)
  ultimately show ?thesis unfolding jcs_sorts_keys_def by metis
qed

lemma sorted_toy_ed25519: "ed25519_contract sorted_toy"
  using toy_ed25519 by (simp add: ed25519_contract_def sorted_toy_def)

section \<open>Properties\<close>

text \<open>
  C35: the order of the keys plays no part.  With a serializer that sorts the keys of an object,
  as RFC 8785 asks for, two envelopes with the same items in another order get the same result
  from \<open>verify_envelope\<close>: every flag, the content role and the errors.
\<close>

theorem envelope_key_order:
  assumes "jcs_sorts_keys K" and "mset env' = mset env" and "distinct (map fst env)"
  shows "verify_envelope K (JDict env') payload_bytes expected legacy
    = verify_envelope K (JDict env) payload_bytes expected legacy"
  using assms by (rule verify_envelope_mset)

theorem envelope_key_order_witness:
  "verify_envelope sorted_toy (JDict [(''payload_hash'', JStr ''00''), (''spec_version'', JStr ''ario.agent/v1'')]) None None False
   = verify_envelope sorted_toy (JDict [(''spec_version'', JStr ''ario.agent/v1''), (''payload_hash'', JStr ''00'')]) None None False"
  by (rule envelope_key_order [OF sorted_toy_sorts]) simp_all

end
