(* ===== verification/Corpus_Vectors.thy ===== *)
theory Corpus_Vectors
  imports Vectors Key_Order
begin

text \<open>
  The rest of \<open>tools/gen-vectors/gen_vectors.py\<close>: the three vectors of the events profile and the
  negative vectors, which a verifier has to reject.  The lemmas check the events vectors with
  the kernel and show for which reason each negative is rejected.
\<close>

section \<open>Events vectors\<close>

text \<open>The caller's metadata of the first record; its note is UTF-8 with characters of two and three bytes.\<close>

definition first_note :: string where
  "first_note =
     ''first anchor '' @ [CHR 0xE2, CHR 0x80, CHR 0x94] @ '' '' @ [CHR 0xC3, CHR 0xBC] @ ''n''
       @ [CHR 0xC3, CHR 0xAF] @ ''code '' @ [CHR 0xE2, CHR 0x9C, CHR 0x93]"

definition events_record_1 :: "kernel \<Rightarrow> json" where
  "events_record_1 K =
     (let content_1 = ascii_bytes ''hello world''
      in JDict
       [(''payload_version'', JInt 1), (''spec_version'', JStr EVENTS_SPEC_VERSION),
        (''event_type'', JStr ''event''), (''subject'', vector_subject), (''previous_hash'', JStr ''GENESIS''),
        (''event'', JDict
          [(''content_hash'', JStr (sha256_hex K content_1)), (''content_length'', JInt (int (length content_1))),
           (''ref'', JStr ''s3://demo-bucket/hello.txt'')]),
        (''context'', JDict []),
        (''metadata'', JDict [(''approver'', JStr ''alice''), (''note'', JStr first_note)]),
        (''extras'', JDict [])])"

definition events_record_2 :: "kernel \<Rightarrow> json \<Rightarrow> json" where
  "events_record_2 K previous_hash =
     (let content_2 = ascii_bytes ''hello again''
      in event_record ''s3.object_stored'' previous_hash
           (JDict [(''content_hash'', JStr (sha256_hex K content_2)), (''content_length'', JInt (int (length content_2)))])
           [(''chain_key'', JStr ''orders'')])"

definition events_pre_1 :: items where
  "events_pre_1 =
     [(''spec_version'', JStr EVENTS_SPEC_VERSION),
      (''event_id'', JStr ''1f0e9a4c-3b2d-4d5e-8f6a-7b8c9d0e1f2a''),
      (''signed_at'', JStr ''2026-06-11T00:00:00.000Z''), (''environment'', JStr ''dev''),
      (''payload_ref'', JStr ''s3://demo-bucket/hello.txt.provenance.json'')]"

definition events_pre_2 :: items where
  "events_pre_2 =
     [(''spec_version'', JStr EVENTS_SPEC_VERSION),
      (''event_id'', JStr ''2a1b3c4d-5e6f-4a7b-9c8d-0e1f2a3b4c5d''),
      (''signed_at'', JStr ''2026-06-11T00:01:00.000Z''), (''environment'', JStr ''production'')]"

text \<open>One turn of the loop over the three leaves: the complete envelope and its vector.\<close>

definition events_leaf :: "kernel \<Rightarrow> nat \<Rightarrow> exc + (items \<times> items)" where
  "events_leaf K i =
     ebind (sign_events_envelope_vector K (''events-checkpoint-01-leaf-'' @ dec_text i)
              (''checkpoint leaf '' @ dec_text i @ '' (not written standalone)'')
              (leaf_record K (ascii_bytes (''leaf-'' @ dec_text i)))
              (pre_envelope (''3b2c4d5e-6f7a-4b8c-8d9e-'' @ replicate (12 - length (dec_text i)) (CHR ''0'') @ dec_text i)
                 (''2026-06-11T00:02:0'' @ dec_text i @ ''.000Z''))
              FIXED_SEED_HEX)
       (\<lambda>vec. ebind (rebuild_envelope vec) (\<lambda>env. Inr (env, vec)))"

definition events_leaf_entry :: "items \<Rightarrow> items \<Rightarrow> bytes \<Rightarrow> exc + json" where
  "events_leaf_entry env vec h =
     ebind (py_item (JDict vec) ''inputs'')
       (\<lambda>inputs. ebind (py_item inputs ''event_record'')
         (\<lambda>rec. ebind (py_item (JDict vec) ''expected_outputs'')
           (\<lambda>outs. ebind (py_item outs ''envelope_jcs_bytes_hex'')
             (\<lambda>jcs. Inr (JDict
               [(''event_record'', rec), (''envelope'', JDict env),
                (''envelope_jcs_bytes_hex'', jcs), (''leaf_hash_hex'', JStr (hex_encode h))])))))"

definition events_checkpoint_vector :: "kernel \<Rightarrow> exc + items" where
  "events_checkpoint_vector K =
     ebind (emap (events_leaf K) [0, 1, 2])
       (\<lambda>leaves. ebind (emap (\<lambda>(env, vec). vec_leaf_hash K (JDict env)) leaves)
         (\<lambda>hashes.
            let root = mth K hashes;
                checkpoint_record =
                  event_record ''checkpoint'' (JStr ''GENESIS'')
                    (JDict [(''merkle_root'', JStr (hex_encode root)), (''leaf_count'', JInt (int (length leaves))),
                            (''window'', time_window ''2026-06-11T00:02:00.000Z'' ''2026-06-11T00:03:00.000Z'')])
                    [(''chain_key'', JStr ''batcher:demo'')]
            in ebind (sign_events_envelope_vector K ''events-checkpoint-01''
                        (''ario.events/v1 Merkle checkpoint: three signed leaf envelopes, ''
                         @ ''RFC 9162 leaf hashes over the complete leaf-envelope JCS bytes, ''
                         @ ''root committed in the checkpoint record, inclusion proofs for ''
                         @ ''every leaf'')
                        checkpoint_record
                        (pre_envelope ''4c3d5e6f-7a8b-4c9d-a0e1-f2a3b4c5d6e7'' ''2026-06-11T00:03:00.500Z'')
                        FIXED_SEED_HEX)
                 (\<lambda>cp. ebind (emap (\<lambda>((env, vec), h). events_leaf_entry env vec h) (zip leaves hashes))
                   (\<lambda>entries. ebind (emap (inclusion_proof K hashes) (map int [0..<3]))
                     (\<lambda>proofs. Inr (dput ''merkle''
                        (JDict
                          [(''leaves'', JList entries), (''expected_root_hex'', JStr (hex_encode root)),
                           (''inclusion_proofs'', JList proofs)]) cp))))))"

definition events_vectors :: "kernel \<Rightarrow> exc + items list" where
  "events_vectors K =
     ebind (sign_events_envelope_vector K ''events-event-01''
              (''Unchained ario.events/v1 event: Minimal-mode skeleton envelope, ''
               @ ''external-commitment record with caller metadata (JCS unicode ''
               @ ''exercise), payload_ref locator, environment=dev'')
              (events_record_1 K) events_pre_1 FIXED_SEED_HEX)
       (\<lambda>vec_1. ebind (window_record_hash vec_1)
         (\<lambda>h. ebind (sign_events_envelope_vector K ''events-event-02''
                      (''Chained ario.events/v1 event (adapter-namespaced type): ''
                       @ ''previous_hash links to events-event-01 record, chain_key in ''
                       @ ''context, environment=production, no optional envelope fields'')
                      (events_record_2 K h) events_pre_2 FIXED_SEED_HEX)
           (\<lambda>vec_2. ebind (events_checkpoint_vector K) (\<lambda>cp. Inr [vec_1, vec_2, cp]))))"

section \<open>Negative vectors\<close>

text \<open>The two helpers close over the key, the record's hash and the serializer.\<close>

definition negative_record :: json where
  "negative_record = JDict [(''k'', JStr ''v'')]"

definition complete_envelope :: "kernel \<Rightarrow> bytes \<Rightarrow> items \<Rightarrow> exc + items" where
  "complete_envelope K seed env =
     ebind (k_jcs K (JDict env))
       (\<lambda>b. Inr (dput ''signature'' (JStr (hex_encode (k_ed_sign K seed b))) env))"

definition signed_bytes :: "kernel \<Rightarrow> bytes \<Rightarrow> string \<Rightarrow> items \<Rightarrow> exc + bytes" where
  "signed_bytes K seed record_hash env_no_sig =
     ebind (complete_envelope K seed
              (dput ''public_key'' (JStr (hex_encode (k_ed_public K seed)))
                (dput ''payload_hash'' (JStr record_hash) env_no_sig)))
       (\<lambda>env. k_jcs K (JDict env))"

definition negative_vector :: "string \<Rightarrow> string \<Rightarrow> string \<Rightarrow> bytes \<Rightarrow> string \<Rightarrow> items" where
  "negative_vector vector_id description category envelope reason =
     [(''vector_id'', JStr vector_id), (''description'', JStr description), (''category'', JStr category),
      (''envelope_bytes_hex'', JStr (hex_encode envelope)),
      (''expect'', JDict [(''accepts'', JBool False), (''reason'', JStr reason)])]"

text \<open>\<open>f"{i:02d}"\<close>.\<close>

definition pad2 :: "nat \<Rightarrow> string" where
  "pad2 i = replicate (2 - length (dec_text i)) (CHR ''0'') @ dec_text i"

definition negative_event_id :: string where
  "negative_event_id = ''1f0e9a4c-3b2d-4d5e-8f6a-7b8c9d0e1f2a''"

definition negative_signed_at :: string where
  "negative_signed_at = ''2026-06-15T00:00:00Z''"

definition malformed_minor :: "kernel \<Rightarrow> bytes \<Rightarrow> string \<Rightarrow> nat \<times> string \<Rightarrow> exc + items" where
  "malformed_minor K seed record_hash x =
     (case x of (i, bad) \<Rightarrow>
        ebind (signed_bytes K seed record_hash
                 [(''spec_version'', JStr bad), (''event_id'', JStr negative_event_id),
                  (''signed_at'', JStr negative_signed_at)])
          (\<lambda>b. Inr (negative_vector (''negative-malformed-minor-'' @ pad2 i)
             (''spec_version '' @ k_repr K (JStr bad) @ '': non-numeric/empty minor token is malformed (#13)'')
             ''spec_version'' b ''unsupported_spec_version'')))"

definition surrogate_escape :: string where
  "surrogate_escape = [CHR 0x5C] @ ''uD800''"

definition quoted :: "string \<Rightarrow> string" where
  "quoted s = [CHR 0x22] @ s @ [CHR 0x22]"

text \<open>
  The escape for a lone surrogate is spliced into the text of the skeleton, whose last character
  has to be the closing brace.
\<close>

definition lone_surrogate :: "kernel \<Rightarrow> bytes \<Rightarrow> string \<Rightarrow> exc + items" where
  "lone_surrogate K seed record_hash =
     ebind (k_jcs K (JDict
              [(''spec_version'', JStr ''ario.agent/v1''), (''event_id'', JStr negative_event_id),
               (''payload_hash'', JStr record_hash), (''public_key'', JStr (hex_encode (k_ed_public K seed))),
               (''signature'', JStr (concat (replicate 64 ''00'')))]))
       (\<lambda>body.
          if list_ex (\<lambda>b. 128 \<le> b) body then Inl (LibraryError ''UnicodeDecodeError'')
          else if body = [] \<or> last body \<noteq> 125 then Inl (LibraryError ''AssertionError'')
          else Inr (negative_vector ''negative-lone-surrogate-00''
            (''lone high surrogate '' @ surrogate_escape @ '' in a string field: not representable as UTF-8; reject at JCS/parse'')
            ''encoding''
            (butlast body @ ascii_bytes ('','' @ quoted ''signed_at'' @ '':''
               @ quoted (''2026-06-15T00:00:00Z '' @ surrogate_escape) @ ''}''))
            ''lone_surrogate''))"

definition missing_payload_hash :: "kernel \<Rightarrow> bytes \<Rightarrow> exc + items" where
  "missing_payload_hash K seed =
     ebind (complete_envelope K seed
              [(''spec_version'', JStr ''ario.agent/v1''), (''event_id'', JStr negative_event_id),
               (''signed_at'', JStr negative_signed_at), (''public_key'', JStr (hex_encode (k_ed_public K seed)))])
       (\<lambda>env. ebind (k_jcs K (JDict env))
         (\<lambda>b. Inr (negative_vector ''negative-missing-payload-hash-00''
            (''no payload_hash field: '' @ [CHR 0xC2, CHR 0xA7] @ ''2 requires it; hard reject in every mode'')
            ''payload_hash'' b ''missing_payload_hash'')))"

definition negative_vectors :: "kernel \<Rightarrow> exc + items list" where
  "negative_vectors K =
     ebind (signing_key_from_seed_hex FIXED_SEED_HEX)
       (\<lambda>seed. ebind (k_jcs K negative_record)
         (\<lambda>record_jcs.
            let record_hash = sha256_hex K record_jcs
            in ebind (emap (malformed_minor K seed record_hash)
                        (enumerate 0 [''ario.agent/v1.x'', ''ario.agent/v1.3abc'', ''ario.agent/v1.'']))
                 (\<lambda>minors. ebind (lone_surrogate K seed record_hash)
                   (\<lambda>lone. ebind (missing_payload_hash K seed)
                     (\<lambda>missing. Inr (minors @ [lone, missing]))))))"

section \<open>The events vectors against the kernel\<close>

text \<open>What the unsigned envelopes of the events profile have in common.\<close>

definition events_pre :: "items \<Rightarrow> bool" where
  "events_pre pre \<longleftrightarrow>
     list_all (\<lambda>k. \<not> has_key k pre) [''signature'', ''co_signatures'', ''payload'', ''payload_hash'', ''public_key'']
     \<and> dget pre ''spec_version'' = JStr EVENTS_SPEC_VERSION \<and> distinct (map fst pre) \<and> depth (JDict pre) \<le> 1"

lemma events_pres: "events_pre events_pre_1" "events_pre events_pre_2" "events_pre (pre_envelope event_id at)"
  by (simp_all add: events_pre_def events_pre_1_def events_pre_2_def pre_envelope_def dget_simps)

lemma events_pre_facts:
  assumes "events_pre pre"
  shows "\<not> has_key ''co_signatures'' pre" and "\<not> strips_annotations pre" and "\<not> has_key ''payload'' pre"
    and "spec_version_supported (dget pre ''spec_version'')"
    and "depth (JDict (vector_scope K pre ph seed)) \<le> MAX_CANONICAL_DEPTH"
proof -
  show "\<not> has_key ''co_signatures'' pre" "\<not> has_key ''payload'' pre" using assms by (simp_all add: events_pre_def)
  show "\<not> strips_annotations pre"
    using assms by (simp add: events_pre_def strips_annotations_def EVENTS_SPEC_VERSION_def matches_major_def Let_def starts_with_def)
  show "spec_version_supported (dget pre ''spec_version'')"
    using assms by (simp add: events_pre_def EVENTS_SPEC_VERSION_def ACCEPTED_SPEC_VERSIONS_def matches_major_def)
  have "vector_scope K pre ph seed = pre @ [(''payload_hash'', JStr ph), (''public_key'', JStr (hex_encode (k_ed_public K seed)))]"
    unfolding vector_scope_def using assms
    by (subst dpop_id) (simp_all add: events_pre_def dput_new)
  moreover have "(k, v) \<in> set pre \<Longrightarrow> depth v = 0" for k v
    using assms depth_child [of v "JDict pre"] by (force simp: events_pre_def)
  ultimately show "depth (JDict (vector_scope K pre ph seed)) \<le> MAX_CANONICAL_DEPTH"
    using depth_dict_le [of "vector_scope K pre ph seed" "MAX_CANONICAL_DEPTH - 1"]
    by (auto simp: MAX_CANONICAL_DEPTH_def simp del: depth.simps(2))
qed

lemma events_pre_vector:
  assumes "ed25519_contract K" and "events_pre pre"
    and "sign_events_envelope_vector K vid desc rec pre seed_hex = Inr v"
  shows "events_vector_verifies K v"
  by (rule events_vector_accepted [OF assms(1,3)]) (rule events_pre_facts [OF assms(2)])+

lemma events_leaf_verifies:
  assumes "ed25519_contract K" and "events_leaf K i = Inr (e, vec)"
  shows "\<exists>rb. vr_ok (verify_envelope K (JDict e) (Some rb) None False)"
proof -
  obtain vid desc rec pre where s: "sign_events_envelope_vector K vid desc rec pre FIXED_SEED_HEX = Inr vec" "events_pre pre"
    and r: "rebuild_envelope vec = Inr e"
    using assms(2) events_pres(3) by (auto simp: events_leaf_def result_simps)
  from events_pre_vector [OF assms(1) s(2,1)] r show ?thesis by (auto simp: events_vector_verifies_def)
qed

lemma events_checkpoint_sound:
  assumes "ed25519_contract K" and "events_checkpoint_vector K = Inr cp"
  shows "window_sound K 3 cp"
proof -
  let ?ev = "\<lambda>hashes n. [(''merkle_root'', JStr (hex_encode (mth K hashes))), (''leaf_count'', JInt (int n)),
                            (''window'', time_window ''2026-06-11T00:02:00.000Z'' ''2026-06-11T00:03:00.000Z'')]"
  let ?rec = "\<lambda>hashes n. event_record ''checkpoint'' (JStr ''GENESIS'') (JDict (?ev hashes n)) [(''chain_key'', JStr ''batcher:demo'')]"
  obtain leaves hashes cp0 desc entries proofs where
    l: "emap (events_leaf K) [0, 1, 2] = Inr leaves"
    and h: "emap (\<lambda>(env, vec). vec_leaf_hash K (JDict env)) leaves = Inr hashes"
    and c: "sign_events_envelope_vector K ''events-checkpoint-01'' desc (?rec hashes (length leaves))
        (pre_envelope ''4c3d5e6f-7a8b-4c9d-a0e1-f2a3b4c5d6e7'' ''2026-06-11T00:03:00.500Z'') FIXED_SEED_HEX = Inr cp0"
    and p: "emap (inclusion_proof K hashes) (map int [0..<3]) = Inr proofs"
    and cp: "cp = dput ''merkle'' (JDict [(''leaves'', JList entries),
        (''expected_root_hex'', JStr (hex_encode (mth K hashes))), (''inclusion_proofs'', JList proofs)]) cp0"
    using assms(2) unfolding events_checkpoint_vector_def Let_def ebind_Inr_iff by blast
  from l have l2: "list_all2 (\<lambda>x y. events_leaf K x = Inr y) [0, 1, 2] leaves" by (simp only: emap_Inr_iff)
  have len: "length leaves = 3" using list_all2_lengthD [OF l2] by simp
  have "\<exists>rb. vr_ok (verify_envelope K (JDict e) (Some rb) None False)" if "(e, vec) \<in> set leaves" for e vec
  proof -
    from that obtain j where j: "j < length leaves" "leaves ! j = (e, vec)" by (auto simp: in_set_conv_nth)
    with list_all2_nthD2 [OF l2 j(1)] show ?thesis by (intro events_leaf_verifies [OF assms(1)]) simp
  qed
  then have es: "list_all (\<lambda>e. \<exists>rb. vr_ok (verify_envelope K (JDict e) (Some rb) None False)) (map fst leaves)"
    by (auto simp: list_all_iff)
  have hs: "emap (\<lambda>e. vec_leaf_hash K (JDict e)) (map fst leaves) = Inr hashes"
    using h by (simp add: emap_map case_prod_beta')
  obtain R where R: "?rec hashes (length leaves) = JDict R" "dget R ''event'' = JDict (?ev hashes (length leaves))"
    by (simp add: event_record_def dget_simps)
  have inp: "ebind (py_item (JDict cp0) ''inputs'') (\<lambda>i. py_item i ''event_record'') = Inr (JDict R)"
    using c [unfolded R(1)] by (rule events_vector_Inr) blast
  have n: "length (map fst leaves) = 3" "(0 :: nat) < 3" using len by simp_all
  show ?thesis
    unfolding cp
    by (rule window_soundI [OF pre_envelope_vector [OF assms(1) c] inp R(2) _ _ es hs n p])
      (simp_all add: dget_simps len)
qed

lemma events_vectors_sound:
  assumes "ed25519_contract K" and "events_vectors K = Inr vs"
  obtains v1 v2 cp b where "vs = [v1, v2, cp]" and "events_vector_verifies K v1" and "events_vector_verifies K v2"
    and "k_jcs K (events_record_1 K) = Inr b"
    and "ebind (py_item (JDict v1) ''inputs'') (\<lambda>i. py_item i ''event_record'') = Inr (events_record_1 K)"
    and "ebind (py_item (JDict v2) ''inputs'') (\<lambda>i. py_item i ''event_record'') = Inr (events_record_2 K (JStr (sha256_hex K b)))"
    and "window_sound K 3 cp"
proof -
  obtain v1 d1 h v2 d2 cp where
    v1: "sign_events_envelope_vector K ''events-event-01'' d1 (events_record_1 K) events_pre_1 FIXED_SEED_HEX = Inr v1"
    and h: "window_record_hash v1 = Inr h"
    and v2: "sign_events_envelope_vector K ''events-event-02'' d2 (events_record_2 K h) events_pre_2 FIXED_SEED_HEX = Inr v2"
    and cp: "events_checkpoint_vector K = Inr cp" and vs: "vs = [v1, v2, cp]"
    using assms(2) unfolding events_vectors_def ebind_Inr_iff sum.inject by blast
  obtain b where b: "k_jcs K (events_record_1 K) = Inr b" "window_record_hash v1 = Inr (JStr (sha256_hex K b))"
    "ebind (py_item (JDict v1) ''inputs'') (\<lambda>i. py_item i ''event_record'') = Inr (events_record_1 K)"
    using v1 by (rule events_vector_Inr) blast
  have "ebind (py_item (JDict v2) ''inputs'') (\<lambda>i. py_item i ''event_record'') = Inr (events_record_2 K h)"
    using v2 by (rule events_vector_Inr) blast
  moreover have "h = JStr (sha256_hex K b)" using h b(2) by simp
  ultimately show thesis
    using that [OF vs] b events_pre_vector [OF assms(1) events_pres(1) v1] events_pre_vector [OF assms(1) events_pres(2) v2]
      events_checkpoint_sound [OF assms(1) cp] by blast
qed

section \<open>The negatives against the kernel\<close>

text \<open>The envelope whose text a negative holds, and what the kernel says of it.\<close>

definition negative_text :: "kernel \<Rightarrow> items \<Rightarrow> items \<Rightarrow> bytes \<Rightarrow> bool" where
  "negative_text K n env b \<longleftrightarrow>
     dget n ''envelope_bytes_hex'' = JStr (hex_encode b) \<and> k_jcs K (JDict env) = Inr b \<and> distinct (map fst env)"

definition declared_reason :: "items \<Rightarrow> string \<Rightarrow> bool" where
  "declared_reason n reason \<longleftrightarrow> (\<exists>ex. dget n ''expect'' = JDict ex \<and> dget ex ''reason'' = JStr reason)"

text \<open>Rejected for one reason only: everything else about the envelope is in order.\<close>

definition rejected_for :: "kernel \<Rightarrow> items \<Rightarrow> string \<Rightarrow> bool" where
  "rejected_for K env reason \<longleftrightarrow>
     (let r = verify_envelope K (JDict env) None None False
      in \<not> vr_ok r \<and> vr_signature_ok r
         \<and> (if reason = ''unsupported_spec_version'' then \<not> vr_spec_version_ok r \<and> vr_payload_hash_ok r = None
            else reason = ''missing_payload_hash'' \<and> vr_spec_version_ok r \<and> vr_payload_hash_ok r = Some False))"

lemma complete_envelope_verifies:
  assumes "ed25519_contract K" and "length seed = 32" and "complete_envelope K seed env = Inr e"
    and "dget env ''public_key'' = JStr (hex_encode (k_ed_public K seed))"
    and "list_all (\<lambda>k. \<not> has_key k env) [''signature'', ''co_signatures'']" and "\<not> strips_annotations env"
    and "depth (JDict env) \<le> MAX_CANONICAL_DEPTH"
  shows "check_signature K e" and "\<And>k. k \<noteq> ''signature'' \<Longrightarrow> dget e k = dget env k"
    and "\<And>k. k \<noteq> ''signature'' \<Longrightarrow> has_key k e = has_key k env" and "distinct (map fst env) \<Longrightarrow> distinct (map fst e)"
proof -
  obtain b where b: "k_jcs K (JDict env) = Inr b"
    and e: "e = dput ''signature'' (JStr (hex_encode (k_ed_sign K seed b))) env"
    using assms(3) by (auto simp: complete_envelope_def ebind_Inr_iff)
  have "k \<notin> set UNSIGNED_FIELDS" if "(k, v) \<in> set env" for k v
    using that assms(5) by (force simp: UNSIGNED_FIELDS_def has_key_def map_of_eq_None_iff)
  then have "envelope_for_signature env = env"
    using assms(6) by (auto simp: envelope_for_signature_def Let_def intro!: filter_True)
  moreover have "envelope_for_signature e = envelope_for_signature env"
    unfolding e by (rule scope_put_unsigned) (simp add: UNSIGNED_FIELDS_def)
  ultimately have "canonical K (JDict (envelope_for_signature e)) = Inr b"
    using b assms(7) by (simp add: canonical_def canonical_json_Inr)
  then show "check_signature K e"
    using assms(1,2,4) by (auto simp: check_signature_iff e fromhex_hex_encode ed25519_contract_def)
  show "dget e k = dget env k" if "k \<noteq> ''signature''" for k using that by (simp add: e)
  show "has_key k e = has_key k env" if "k \<noteq> ''signature''" for k using that by (simp add: e)
  show "distinct (map fst e)" if "distinct (map fst env)" using that by (simp add: e dput_def AList.distinct_update)
qed

lemma malformed_minor_rejected:
  assumes "ed25519_contract K" and "length seed = 32" and "malformed_minor K seed rh (i, bad) = Inr n"
    and "\<not> spec_version_supported (JStr bad)" and "\<not> matches_major bad ''ario.mlflow/v1''"
  shows "\<exists>env b. negative_text K n env b \<and> declared_reason n ''unsupported_spec_version''
     \<and> rejected_for K env ''unsupported_spec_version''"
proof -
  let ?env = "[(''spec_version'', JStr bad), (''event_id'', JStr negative_event_id), (''signed_at'', JStr negative_signed_at),
      (''payload_hash'', JStr rh), (''public_key'', JStr (hex_encode (k_ed_public K seed)))]"
  have "dput ''public_key'' (JStr (hex_encode (k_ed_public K seed))) (dput ''payload_hash'' (JStr rh)
      [(''spec_version'', JStr bad), (''event_id'', JStr negative_event_id), (''signed_at'', JStr negative_signed_at)]) = ?env"
    by (simp add: dput_def)
  then obtain e b where e: "complete_envelope K seed ?env = Inr e" and b: "k_jcs K (JDict e) = Inr b"
    and n: "n = negative_vector (''negative-malformed-minor-'' @ pad2 i)
      (''spec_version '' @ k_repr K (JStr bad) @ '': non-numeric/empty minor token is malformed (#13)'')
      ''spec_version'' b ''unsupported_spec_version''"
    using assms(3) by (auto simp: malformed_minor_def signed_bytes_def ebind_Inr_iff)
  have s: "\<not> strips_annotations ?env" using assms(5) by (simp add: strips_annotations_def dget_simps)
  note f = complete_envelope_verifies [OF assms(1,2) e _ _ s]
  have "check_signature K e" "distinct (map fst e)"
    by (rule f(1); simp add: dget_simps MAX_CANONICAL_DEPTH_def) (rule f(4); simp add: dget_simps MAX_CANONICAL_DEPTH_def)
  moreover have g: "dget e ''spec_version'' = JStr bad" "dget e ''payload_hash'' = JStr rh" "\<not> has_key ''payload'' e"
    using f(2) [of "''spec_version''"] f(2) [of "''payload_hash''"] f(3) [of "''payload''"]
    by (simp_all add: dget_simps MAX_CANONICAL_DEPTH_def)
  ultimately have "rejected_for K e ''unsupported_spec_version''"
    using assms(4)
    by (simp add: rejected_for_def Let_def verify_envelope_fields check_spec_version_ok check_payload_None
        del: spec_version_supported.simps)
  moreover have "negative_text K n e b" "declared_reason n ''unsupported_spec_version''"
    using b \<open>distinct (map fst e)\<close> by (simp_all add: negative_text_def declared_reason_def n negative_vector_def dget_simps)
  ultimately show ?thesis by blast
qed

lemma missing_payload_hash_rejected:
  assumes "ed25519_contract K" and "length seed = 32" and "missing_payload_hash K seed = Inr n"
  shows "\<exists>env b. negative_text K n env b \<and> declared_reason n ''missing_payload_hash''
     \<and> rejected_for K env ''missing_payload_hash''"
proof -
  let ?env = "[(''spec_version'', JStr ''ario.agent/v1''), (''event_id'', JStr negative_event_id),
      (''signed_at'', JStr negative_signed_at), (''public_key'', JStr (hex_encode (k_ed_public K seed)))]"
  obtain e b where e: "complete_envelope K seed ?env = Inr e" and b: "k_jcs K (JDict e) = Inr b"
    and n: "\<exists>d. n = negative_vector ''negative-missing-payload-hash-00'' d ''payload_hash'' b ''missing_payload_hash''"
    using assms(3) by (auto simp: missing_payload_hash_def ebind_Inr_iff)
  have s: "\<not> strips_annotations ?env"
    by (simp add: strips_annotations_def dget_simps matches_major_def Let_def starts_with_def)
  note f = complete_envelope_verifies [OF assms(1,2) e _ _ s]
  have "check_signature K e" "distinct (map fst e)"
    by (rule f(1); simp add: dget_simps MAX_CANONICAL_DEPTH_def) (rule f(4); simp add: dget_simps MAX_CANONICAL_DEPTH_def)
  moreover have "dget e ''spec_version'' = JStr ''ario.agent/v1''" "dget e ''payload_hash'' = JNull"
    using f(2) [of "''spec_version''"] f(2) [of "''payload_hash''"]
    by (simp_all add: dget_simps MAX_CANONICAL_DEPTH_def)
  moreover have "spec_version_supported (JStr ''ario.agent/v1'')" by code_simp
  ultimately have "rejected_for K e ''missing_payload_hash''"
    by (simp add: rejected_for_def Let_def verify_envelope_fields check_spec_version_ok check_payload_def
        del: spec_version_supported.simps)
  moreover have "negative_text K n e b" "declared_reason n ''missing_payload_hash''"
    using b n \<open>distinct (map fst e)\<close> by (auto simp: negative_text_def declared_reason_def negative_vector_def dget_simps)
  ultimately show ?thesis by blast
qed

lemma bad_minors:
  "\<not> spec_version_supported (JStr ''ario.agent/v1.x'')" "\<not> spec_version_supported (JStr ''ario.agent/v1.3abc'')"
  "\<not> spec_version_supported (JStr ''ario.agent/v1.'')"
  "\<not> matches_major ''ario.agent/v1.x'' ''ario.mlflow/v1''" "\<not> matches_major ''ario.agent/v1.3abc'' ''ario.mlflow/v1''"
  "\<not> matches_major ''ario.agent/v1.'' ''ario.mlflow/v1''"
  by code_simp+

lemma negatives_rejected_each:
  assumes "ed25519_contract K" and "negative_vectors K = Inr ns"
  shows "length ns = 5 \<and> list_all (\<lambda>n. dget n ''category'' \<noteq> JStr ''encoding'' \<longrightarrow>
     (\<exists>env b reason. negative_text K n env b \<and> declared_reason n reason \<and> rejected_for K env reason)) ns"
proof -
  let ?ok = "\<lambda>n. \<exists>env b reason. negative_text K n env b \<and> declared_reason n reason \<and> rejected_for K env reason"
  obtain seed rj minors lone missing where
    seed: "signing_key_from_seed_hex FIXED_SEED_HEX = Inr seed"
    and m: "emap (malformed_minor K seed (sha256_hex K rj))
        (enumerate 0 [''ario.agent/v1.x'', ''ario.agent/v1.3abc'', ''ario.agent/v1.'']) = Inr minors"
    and lone: "lone_surrogate K seed (sha256_hex K rj) = Inr lone"
    and missing: "missing_payload_hash K seed = Inr missing" and ns: "ns = minors @ [lone, missing]"
    using assms(2) unfolding negative_vectors_def Let_def ebind_Inr_iff sum.inject by blast
  note len = signing_key_length [OF seed]
  obtain m0 m1 m2 where ms: "minors = [m0, m1, m2]"
    "malformed_minor K seed (sha256_hex K rj) (0, ''ario.agent/v1.x'') = Inr m0"
    "malformed_minor K seed (sha256_hex K rj) (1, ''ario.agent/v1.3abc'') = Inr m1"
    "malformed_minor K seed (sha256_hex K rj) (2, ''ario.agent/v1.'') = Inr m2"
    using m by (auto simp: ebind_Inr_iff numeral_2_eq_2)
  have "?ok m0" "?ok m1" "?ok m2"
    using malformed_minor_rejected [OF assms(1) len ms(2) bad_minors(1,4)]
      malformed_minor_rejected [OF assms(1) len ms(3) bad_minors(2,5)]
      malformed_minor_rejected [OF assms(1) len ms(4) bad_minors(3,6)] by blast+
  moreover have "dget lone ''category'' = JStr ''encoding''"
    using lone by (auto simp: lone_surrogate_def ebind_Inr_iff negative_vector_def dget_simps split: if_splits)
  moreover have "?ok missing" using missing_payload_hash_rejected [OF assms(1) len missing] by blast
  ultimately show ?thesis unfolding ns ms(1) by auto
qed

section \<open>The generators run\<close>

lemma toy_complete: "\<exists>e. complete_envelope toy seed env = Inr e"
  by (simp add: complete_envelope_def)

text \<open>The text of the skeleton is ASCII and ends with a brace.\<close>

definition ascii_text :: "string \<Rightarrow> bool" where
  "ascii_text s \<longleftrightarrow> list_all (\<lambda>c. (of_char c :: nat) < 128) s"

lemma ascii_toy_text: "ascii_text s \<Longrightarrow> \<not> list_ex (\<lambda>b. 128 \<le> b) (toy_text s)"
  unfolding ascii_text_def
proof (induction s)
  case (Cons c s)
  then have "(of_char c :: nat) < 128" by simp
  then have "unat (byte_of (of_char c)) < 128" by (simp add: byte_of_def unat_of_nat)
  then have "\<not> 128 \<le> byte_of (of_char c)" by (simp add: word_le_nat_alt)
  with Cons show ?case by (simp add: toy_text_def)
qed (simp add: toy_text_def)

lemma ascii_hex: "ascii_text (hex_encode bs)"
proof -
  have "(of_char (nibble_char n) :: nat) < 128" if "n < 16" for n
    using that by (simp add: nibble_char_def)
  then show ?thesis by (induction bs) (simp_all add: ascii_text_def)
qed

lemma ascii_toy_jcs:
  assumes "list_all (\<lambda>(k, v). ascii_text k \<and> (\<exists>s. v = JStr s \<and> ascii_text s)) d"
  shows "\<not> list_ex (\<lambda>b. 128 \<le> b) (toy_jcs (JDict d))" and "last (toy_jcs (JDict d)) = 125"
proof -
  have "\<not> list_ex (\<lambda>b. 128 \<le> b) (concat (map (\<lambda>(k, v). toy_text k @ 58 # toy_jcs v) d))"
    using assms
  proof (induction d)
    case (Cons x d)
    then obtain k s where x: "x = (k, JStr s)" "ascii_text k" "ascii_text s" by auto
    with Cons ascii_toy_text show ?case by simp
  qed simp
  then show "\<not> list_ex (\<lambda>b. 128 \<le> b) (toy_jcs (JDict d))" by simp
  show "last (toy_jcs (JDict d)) = 125" by simp
qed

lemma toy_lone_surrogate: "\<exists>n. lone_surrogate toy seed (hex_encode h) = Inr n"
proof -
  let ?d = "[(''spec_version'', JStr ''ario.agent/v1''), (''event_id'', JStr negative_event_id),
               (''payload_hash'', JStr (hex_encode h)), (''public_key'', JStr (hex_encode (k_ed_public toy seed))),
               (''signature'', JStr (concat (replicate 64 ''00'')))]"
  have z: "ascii_text (concat (replicate n ''00''))" for n by (induction n) (simp_all add: ascii_text_def)
  have "list_all (\<lambda>(k, v). ascii_text k \<and> (\<exists>s. v = JStr s \<and> ascii_text s)) ?d"
    using ascii_hex z by (simp add: negative_event_id_def) (simp add: ascii_text_def)
  note a = ascii_toy_jcs [OF this]
  have "toy_jcs (JDict ?d) \<noteq> []" by simp
  moreover have "k_jcs toy (JDict ?d) = Inr (toy_jcs (JDict ?d))" by (rule toy_fields)
  ultimately show ?thesis
    using a unfolding lone_surrogate_def by (simp only: ebind_simps if_False simp_thms) blast
qed

lemma toy_negatives_exist: "\<exists>ns. negative_vectors toy = Inr ns"
proof -
  obtain seed where seed: "signing_key_from_seed_hex FIXED_SEED_HEX = Inr seed" using fixed_seed by blast
  let ?rh = "sha256_hex toy (toy_jcs negative_record)"
  have m: "\<exists>n. malformed_minor toy seed ?rh x = Inr n" for x
    by (cases x) (simp add: malformed_minor_def signed_bytes_def complete_envelope_def del: toy_jcs.simps)
  have "\<exists>minors. emap (malformed_minor toy seed ?rh)
        (enumerate 0 [''ario.agent/v1.x'', ''ario.agent/v1.3abc'', ''ario.agent/v1.'']) = Inr minors"
    by (rule emap_returns) (rule m)
  moreover have "\<exists>missing. missing_payload_hash toy seed = Inr missing"
    by (simp add: missing_payload_hash_def complete_envelope_def del: toy_jcs.simps)
  moreover have "\<exists>lone. lone_surrogate toy seed ?rh = Inr lone"
    unfolding sha256_hex_def by (rule toy_lone_surrogate)
  moreover have "k_jcs toy negative_record = Inr (toy_jcs negative_record)" by (rule toy_fields)
  ultimately show ?thesis using seed unfolding negative_vectors_def Let_def by (elim exE) (simp only: ebind_simps, blast)
qed

lemma events_checkpoint_returns: "\<exists>cp. events_checkpoint_vector toy = Inr cp"
proof -
  have leaf: "\<exists>e vec. events_leaf toy i = Inr (e, vec) \<and> (\<forall>h. \<exists>j. events_leaf_entry e vec h = Inr j)" for i
  proof -
    let ?pre = "pre_envelope (''3b2c4d5e-6f7a-4b8c-8d9e-'' @ replicate (12 - length (dec_text i)) (CHR ''0'') @ dec_text i)
                 (''2026-06-11T00:02:0'' @ dec_text i @ ''.000Z'')"
    obtain v where v: "sign_events_envelope_vector toy (''events-checkpoint-01-leaf-'' @ dec_text i)
              (''checkpoint leaf '' @ dec_text i @ '' (not written standalone)'')
              (leaf_record toy (ascii_bytes (''leaf-'' @ dec_text i))) ?pre FIXED_SEED_HEX = Inr v"
      using events_vector_returns [OF toy_jcs_total] by blast
    then obtain e where e: "rebuild_envelope v = Inr e" by (rule events_vector_Inr) blast
    have "\<exists>j. events_leaf_entry e v h = Inr j" for h
      using v by (auto simp: sign_events_envelope_vector_def result_simps Let_def events_leaf_entry_def dget_simps)
    with v e show ?thesis by (simp add: events_leaf_def)
  qed
  obtain leaves where l: "emap (events_leaf toy) [0, 1, 2] = Inr leaves"
    using emap_returns [of "[0, 1, 2]" "events_leaf toy"] leaf by blast
  then have l2: "list_all2 (\<lambda>x y. events_leaf toy x = Inr y) [0, 1, 2] leaves" by (simp only: emap_Inr_iff)
  have entry: "\<exists>j. events_leaf_entry e vec h = Inr j" if "(e, vec) \<in> set leaves" for e vec h
  proof -
    from that obtain j where j: "j < length leaves" "leaves ! j = (e, vec)" by (auto simp: in_set_conv_nth)
    with list_all2_nthD2 [OF l2 j(1)] leaf [of "[0, 1, 2] ! j"] show ?thesis by auto
  qed
  have "\<exists>hashes. emap (\<lambda>(env, vec). vec_leaf_hash toy (JDict env)) leaves = Inr hashes"
    by (rule emap_returns) (auto simp: vec_leaf_hash_def)
  then obtain hashes where h: "emap (\<lambda>(env, vec). vec_leaf_hash toy (JDict env)) leaves = Inr hashes" by blast
  have len: "length leaves = 3" "length hashes = 3"
    using list_all2_lengthD [OF l2] h by (auto simp: emap_Inr_iff dest: list_all2_lengthD)
  then have "hashes \<noteq> []" by auto
  have "\<exists>entries. emap (\<lambda>((env, vec), h). events_leaf_entry env vec h) (zip leaves hashes) = Inr entries"
    by (rule emap_returns) (auto dest: set_zip_leftD entry)
  moreover have "\<exists>proofs. emap (inclusion_proof toy hashes) (map int [0..<3]) = Inr proofs"
    by (rule emap_returns) (simp add: inclusion_proof_def vec_audit_path_eq [OF \<open>hashes \<noteq> []\<close>])
  moreover have "\<exists>cp. sign_events_envelope_vector toy vid desc rec pre FIXED_SEED_HEX = Inr cp" for vid desc rec pre
    by (rule events_vector_returns [OF toy_jcs_total])
  ultimately show ?thesis
    unfolding events_checkpoint_vector_def Let_def l ebind_simps h by (metis ebind_simps(2))
qed

lemma toy_events_exist: "\<exists>vs. events_vectors toy = Inr vs"
proof -
  note ret = events_vector_returns [OF toy_jcs_total]
  obtain v1 where v1: "sign_events_envelope_vector toy ''events-event-01''
              (''Unchained ario.events/v1 event: Minimal-mode skeleton envelope, ''
               @ ''external-commitment record with caller metadata (JCS unicode ''
               @ ''exercise), payload_ref locator, environment=dev'')
              (events_record_1 toy) events_pre_1 FIXED_SEED_HEX = Inr v1" using ret by blast
  then obtain h where h: "window_record_hash v1 = Inr h" by (rule events_vector_Inr) blast
  obtain v2 where v2: "sign_events_envelope_vector toy ''events-event-02''
                      (''Chained ario.events/v1 event (adapter-namespaced type): ''
                       @ ''previous_hash links to events-event-01 record, chain_key in ''
                       @ ''context, environment=production, no optional envelope fields'')
                      (events_record_2 toy h) events_pre_2 FIXED_SEED_HEX = Inr v2" using ret by blast
  obtain cp where cp: "events_checkpoint_vector toy = Inr cp" using events_checkpoint_returns by blast
  show ?thesis unfolding events_vectors_def v1 ebind_simps h v2 cp by blast
qed

section \<open>Properties\<close>

text \<open>
  The events vectors conform.  With Ed25519 as documented, the generator's three vectors of the
  events profile are accepted by the kernel together with the record bytes they commit to; the
  second record links to the first by the hash of its canonical bytes; the third commits the
  root of the tree over its three leaf envelopes, and every listed proof verifies.
\<close>

lemma events_vectors_conform:
  assumes "ed25519_contract K" and "events_vectors K = Inr vs"
  shows "\<exists>v1 v2 cp b. vs = [v1, v2, cp] \<and> events_vector_verifies K v1 \<and> events_vector_verifies K v2
     \<and> window_sound K 3 cp \<and> k_jcs K (events_record_1 K) = Inr b
     \<and> ebind (py_item (JDict v1) ''inputs'') (\<lambda>i. py_item i ''event_record'') = Inr (events_record_1 K)
     \<and> ebind (py_item (JDict v2) ''inputs'') (\<lambda>i. py_item i ''event_record'')
         = Inr (events_record_2 K (JStr (sha256_hex K b)))"
  by (rule events_vectors_sound [OF assms]) blast

lemma events_vectors_conform_witness:
  "\<exists>v1 v2 cp. events_vectors toy = Inr [v1, v2, cp] \<and> events_vector_verifies toy v1 \<and> events_vector_verifies toy v2
     \<and> window_sound toy 3 cp"
proof -
  obtain vs where vs: "events_vectors toy = Inr vs" using toy_events_exist by blast
  from events_vectors_conform [OF toy_ed25519 vs] vs show ?thesis by blast
qed

text \<open>
  C31: every negative is rejected, and for the reason it declares.  The generator's negatives
  (those about the encoding of strings aside) hold the canonical text of an envelope whose
  signature verifies, and which the kernel rejects exactly because its version is not
  registered, or exactly because \<open>payload_hash\<close> is missing.
\<close>

theorem negatives_rejected:
  assumes "ed25519_contract K" and "negative_vectors K = Inr ns"
  shows "length ns = 5 \<and> list_all (\<lambda>n. dget n ''category'' \<noteq> JStr ''encoding'' \<longrightarrow>
     (\<exists>env b reason. negative_text K n env b \<and> declared_reason n reason \<and> rejected_for K env reason)) ns"
  using assms by (rule negatives_rejected_each)

theorem negatives_rejected_witness:
  "\<exists>ns. negative_vectors toy = Inr ns \<and> length ns = 5
     \<and> list_all (\<lambda>n. dget n ''category'' \<noteq> JStr ''encoding'' \<longrightarrow>
     (\<exists>env b reason. negative_text toy n env b \<and> declared_reason n reason \<and> rejected_for toy env reason)) ns"
proof -
  obtain ns where ns: "negative_vectors toy = Inr ns" using toy_negatives_exist by blast
  from negatives_rejected [OF toy_ed25519 ns] ns show ?thesis by blast
qed

end
