(* ===== verification/Kernel_Cases.thy ===== *)
theory Kernel_Cases
  imports Export_Vectors Corpus_Vectors
begin

text \<open>
  The case generator of the cross-kernel gate, \<open>cross-kernel/generate_cases.py\<close>: the synthetic
  adversarial envelopes, the corpus envelopes put together again, and the verdicts of the
  Python kernel recorded for the other kernels to reproduce.  Reading the corpus files and
  writing the JSON are left out: what is read is an argument.
\<close>

section \<open>Building the cases\<close>

text \<open>\<open>{**d, **extra}\<close>: the items of \<open>extra\<close> are put into \<open>d\<close> one after the other.\<close>

definition merge :: "items \<Rightarrow> items \<Rightarrow> items" where
  "merge d extra = foldl (\<lambda>d (k, v). dput k v d) d extra"

definition case_sign :: "kernel \<Rightarrow> items \<Rightarrow> exc + items" where
  "case_sign K env =
     ebind (canonical K (JDict env))
       (\<lambda>b. Inr (merge env [(''signature'', JStr (hex_encode (k_ed_sign K stack_seed b)))]))"

definition case_base :: "kernel \<Rightarrow> items \<Rightarrow> items" where
  "case_base K extra =
     merge
       [(''spec_version'', JStr ''ario.agent/v1''),
        (''event_id'', JStr ''1f0e9a4c-3b2d-4d5e-8f6a-7b8c9d0e1f2a''),
        (''signed_at'', JStr ''2026-06-12T00:00:00Z''),
        (''public_key'', JStr (PUB_HEX K))] extra"

record kernel_case =
  kc_id :: string
  kc_envelope :: json
  kc_payload_bytes :: "bytes option"

definition external_record :: json where
  "external_record = JDict [(''kind'', JStr ''external-record''), (''value'', JInt 42)]"

definition tampered_record :: json where
  "tampered_record = JDict [(''kind'', JStr ''external-record''), (''value'', JInt 999)]"

definition forged_payload :: json where
  "forged_payload = JDict [(''forged'', JBool True)]"

definition bound_items :: "string \<Rightarrow> items" where
  "bound_items record_hash = [(''payload'', external_record), (''payload_hash'', JStr record_hash)]"

text \<open>A version in the place of the base's own; the key keeps its place.\<close>

definition versioned :: "kernel \<Rightarrow> string \<Rightarrow> string \<Rightarrow> exc + items" where
  "versioned K record_hash v = case_sign K (case_base K (bound_items record_hash @ [(''spec_version'', JStr v)]))"

definition adversarial_sources ::
  "kernel \<Rightarrow> bytes \<Rightarrow> string \<Rightarrow> items \<Rightarrow> items \<Rightarrow> (string \<times> (exc + items) \<times> bytes option) list" where
  "adversarial_sources K record_bytes record_hash inl ext =
     [(''adv-inline-valid'', Inr inl, None),
      (''adv-external-signature-only'', Inr ext, None),
      (''adv-external-bound'', Inr ext, Some record_bytes),
      (''adv-external-wrong-bytes'', Inr ext, Some (ascii_bytes ''not the record'')),
      (''adv-fake-external-stripped'', Inr (filter (\<lambda>(k, v). k \<noteq> ''payload'') inl), None),
      (''adv-fake-inline-injected'', Inr (merge ext [(''payload'', forged_payload)]), None),
      (''adv-missing-hash-no-material'', case_sign K (case_base K []), None),
      (''adv-missing-hash-with-bytes'', case_sign K (case_base K []), Some (ascii_bytes ''some bytes'')),
      (''adv-present-hash-no-material'', Inr ext, None),
      (''adv-inline-tampered'', Inr (merge inl [(''payload'', tampered_record)]), None)]
     @ map (\<lambda>v. (''adv-badminor::'' @ v, versioned K record_hash v, None))
         [''ario.agent/v1.x'', ''ario.agent/v1.3abc'', ''ario.agent/v1.'', ''ario.agent/v10'']
     @ map (\<lambda>v. (''adv-okminor::'' @ v, versioned K record_hash v, None))
         [''ario.agent/v1.3'', ''ario.agent/v1.10'']"

definition adversarial_cases :: "kernel \<Rightarrow> exc + kernel_case list" where
  "adversarial_cases K =
     ebind (canonical K external_record)
       (\<lambda>record_bytes.
          let record_hash = sha256_hex K record_bytes
          in ebind (case_sign K (case_base K (bound_items record_hash)))
            (\<lambda>inl. ebind (case_sign K (case_base K [(''payload_hash'', JStr record_hash)]))
              (\<lambda>ext. emap
                (\<lambda>(cid, env, pb). ebind env (\<lambda>e. Inr \<lparr> kc_id = cid, kc_envelope = JDict e, kc_payload_bytes = pb \<rparr>))
                (adversarial_sources K record_bytes record_hash inl ext))))"

section \<open>Corpus envelopes\<close>

text \<open>
  An inline vector is put together again; an events vector is parsed from its signed bytes and
  verified with the record bytes it commits to.  The argument is the JSON value of the file.
\<close>

definition corpus_inline_case :: "string \<Rightarrow> items \<Rightarrow> exc + kernel_case" where
  "corpus_inline_case stem v =
     ebind (rebuild_envelope v)
       (\<lambda>env. Inr \<lparr> kc_id = ''corpus-'' @ stem, kc_envelope = JDict env, kc_payload_bytes = None \<rparr>)"

definition events_case :: "kernel \<Rightarrow> string \<Rightarrow> json \<Rightarrow> exc + kernel_case" where
  "events_case K cid v =
     ebind (py_item v ''expected_outputs'')
       (\<lambda>outs. ebind (py_item outs ''envelope_jcs_bytes_hex'')
         (\<lambda>h. ebind (py_fromhex h)
           (\<lambda>text. case k_json_loads K text of
               None \<Rightarrow> Inl ValueError
             | Some env \<Rightarrow>
                 ebind (py_item outs ''payload_jcs_bytes_hex'')
                   (\<lambda>p. ebind (py_fromhex p)
                     (\<lambda>record_bytes. Inr \<lparr> kc_id = cid, kc_envelope = env, kc_payload_bytes = Some record_bytes \<rparr>)))))"

text \<open>Each window of the chained vector, numbered from 1.\<close>

definition chain_cases :: "kernel \<Rightarrow> string \<Rightarrow> items \<Rightarrow> exc + kernel_case list" where
  "chain_cases K stem v =
     ebind (py_item (JDict v) ''windows'')
       (\<lambda>ws. ebind (py_iter ws)
         (\<lambda>windows. emap (\<lambda>(i, w). events_case K (''corpus-'' @ stem @ ''-w'' @ dec_text (i + 1)) w)
            (enumerate 0 windows)))"

section \<open>Judging them\<close>

definition verdict_record_of :: "verification_result \<Rightarrow> items" where
  "verdict_record_of res =
     [(''ok'', JBool (vr_ok res)), (''phk'', tristate (vr_payload_hash_ok res)),
      (''sig'', JBool (vr_signature_ok res)), (''spec'', JBool (vr_spec_version_ok res))]"

definition python_verdict :: "kernel \<Rightarrow> kernel_case \<Rightarrow> items" where
  "python_verdict K c =
     verdict_record_of (verify_envelope K (kc_envelope c) (kc_payload_bytes c) None False)"

definition b64encode :: "bytes \<Rightarrow> string" where
  "b64encode data = map urlsafe_translate (urlsafe_b64encode data)"

text \<open>What \<open>main\<close> writes for a case.\<close>

definition judged_case :: "kernel \<Rightarrow> kernel_case \<Rightarrow> items" where
  "judged_case K c =
     [(''id'', JStr (kc_id c)), (''envelope'', kc_envelope c),
      (''py'', JDict (python_verdict K c)),
      (''payload_b64'', (case kc_payload_bytes c of None \<Rightarrow> JNull | Some pb \<Rightarrow> JStr (b64encode pb)))]"

text \<open>
  A negative is judged from its raw bytes: a text that does not parse counts as rejected, and
  a negative the kernel accepts stops the script.
\<close>

definition judged_negative :: "kernel \<Rightarrow> string \<Rightarrow> string \<Rightarrow> exc + items" where
  "judged_negative K nid envelope_bytes_hex =
     ebind (fromhex envelope_bytes_hex)
       (\<lambda>raw.
          let py = (case k_json_loads K raw of
                      Some v \<Rightarrow> verdict_record_of (verify_envelope K v None None False)
                    | None \<Rightarrow> [(''ok'', JBool False), (''phk'', JBool False),
                               (''sig'', JBool False), (''spec'', JBool False)])
          in if dget py ''ok'' \<noteq> JBool False then Inl (LibraryError ''AssertionError'')
             else Inr [(''id'', JStr nid), (''envelope_bytes_hex'', JStr envelope_bytes_hex),
                       (''py'', JDict py), (''payload_b64'', JNull)])"

section \<open>The intended verdicts\<close>

text \<open>\<open>ok\<close>, \<open>phk\<close>, \<open>sig\<close> and \<open>spec\<close> of each case, in the order of the cases.\<close>

definition verdict_of :: "bool \<Rightarrow> bool option \<Rightarrow> bool \<Rightarrow> bool \<Rightarrow> items" where
  "verdict_of vok phk sig spec = [(''ok'', JBool vok), (''phk'', tristate phk), (''sig'', JBool sig), (''spec'', JBool spec)]"

definition intended_verdicts :: "(string \<times> items) list" where
  "intended_verdicts =
     [(''adv-inline-valid'', verdict_of True (Some True) True True),
      (''adv-external-signature-only'', verdict_of True None True True),
      (''adv-external-bound'', verdict_of True (Some True) True True),
      (''adv-external-wrong-bytes'', verdict_of False (Some False) True True),
      (''adv-fake-external-stripped'', verdict_of False None False True),
      (''adv-fake-inline-injected'', verdict_of False (Some False) False True),
      (''adv-missing-hash-no-material'', verdict_of False (Some False) True True),
      (''adv-missing-hash-with-bytes'', verdict_of False (Some False) True True),
      (''adv-present-hash-no-material'', verdict_of True None True True),
      (''adv-inline-tampered'', verdict_of False (Some False) False True),
      (''adv-badminor::ario.agent/v1.x'', verdict_of False (Some True) True False),
      (''adv-badminor::ario.agent/v1.3abc'', verdict_of False (Some True) True False),
      (''adv-badminor::ario.agent/v1.'', verdict_of False (Some True) True False),
      (''adv-badminor::ario.agent/v10'', verdict_of False (Some True) True False),
      (''adv-okminor::ario.agent/v1.3'', verdict_of True (Some True) True True),
      (''adv-okminor::ario.agent/v1.10'', verdict_of True (Some True) True True)]"

section \<open>Signed cases\<close>

lemma merge_simps [simp]:
  "merge d [] = d"
  "merge d ((k, v) # extra) = merge (dput k v d) extra"
  by (simp_all add: merge_def)

text \<open>The fields a case is signed under.\<close>

definition case_scope :: "kernel \<Rightarrow> items \<Rightarrow> bool" where
  "case_scope K env \<longleftrightarrow>
     dget env ''public_key'' = JStr (PUB_HEX K) \<and> \<not> has_key ''signature'' env
     \<and> \<not> has_key ''co_signatures'' env \<and> \<not> strips_annotations env"

lemma case_scope_signed:
  assumes "case_scope K env"
  shows "envelope_for_signature (dput ''signature'' s env) = env"
proof -
  have "k \<notin> set UNSIGNED_FIELDS" if "(k, v) \<in> set env" for k v
    using that assms by (force simp: case_scope_def UNSIGNED_FIELDS_def has_key_def map_of_eq_None_iff)
  then have "envelope_for_signature env = env"
    using assms by (auto simp: envelope_for_signature_def Let_def case_scope_def intro!: filter_True)
  moreover have "envelope_for_signature (dput ''signature'' s env) = envelope_for_signature env"
    by (rule scope_put_unsigned) (simp add: UNSIGNED_FIELDS_def)
  ultimately show ?thesis by simp
qed

lemma case_signature:
  assumes "ed25519_contract K" and "case_scope K env"
  shows "check_signature K (dput ''signature'' (JStr (hex_encode (k_ed_sign K stack_seed m))) env) \<longleftrightarrow>
     (\<exists>m'. canonical K (JDict env) = Inr m' \<and> k_ed_verify K (k_ed_public K stack_seed) m' (k_ed_sign K stack_seed m))"
proof -
  have "length (k_ed_sign K stack_seed m) = 64" "length (k_ed_public K stack_seed) = 32"
    using assms(1) by (simp_all add: ed25519_contract_def)
  then show ?thesis
    using assms(2) by (auto simp: check_signature_iff case_scope_signed [OF assms(2)] case_scope_def PUB_HEX_def
        fromhex_hex_encode)
qed

lemma case_sign_Inr:
  "case_sign K env = Inr e \<longleftrightarrow>
     (\<exists>m. canonical K (JDict env) = Inr m \<and> e = dput ''signature'' (JStr (hex_encode (k_ed_sign K stack_seed m))) env)"
  by (auto simp: case_sign_def ebind_Inr_iff)

lemma case_signed_ok:
  assumes "ed25519_contract K" and "case_scope K env" and "case_sign K env = Inr e"
  shows "check_signature K e"
proof -
  obtain m where m: "canonical K (JDict env) = Inr m"
    "e = dput ''signature'' (JStr (hex_encode (k_ed_sign K stack_seed m))) env"
    using assms(3) by (auto simp: case_sign_Inr)
  then show ?thesis
    using assms(1) by (simp add: case_signature [OF assms(1,2)] ed25519_contract_def)
qed

lemma base_scope:
  assumes "list_all (\<lambda>(k, v). k \<notin> set [''public_key'', ''signature'', ''co_signatures'', ''spec_version'']) extra"
  shows "case_scope K (case_base K extra)"
    and "dget (case_base K extra) ''spec_version'' = JStr ''ario.agent/v1''"
proof -
  have keep: "dget (merge d extra) k = dget d k" "has_key k (merge d extra) = has_key k d"
    if "k \<in> set [''public_key'', ''signature'', ''co_signatures'', ''spec_version'']" for d k
    using assms that by (induction extra arbitrary: d) auto
  show sv: "dget (case_base K extra) ''spec_version'' = JStr ''ario.agent/v1''"
    by (simp add: case_base_def keep dget_simps)
  then have "\<not> strips_annotations (case_base K extra)"
    by (simp add: strips_annotations_def matches_major_def Let_def starts_with_def)
  then show "case_scope K (case_base K extra)"
    by (simp add: case_scope_def case_base_def keep dget_simps)
qed

section \<open>The verdicts\<close>

lemma verdict_fields:
  "verdict_record_of (verify_envelope K (JDict env) pb None False) =
     verdict_of (fst (check_spec_version env False) \<and> check_signature K env \<and> fst (check_payload K env pb) \<noteq> Some False)
       (fst (check_payload K env pb)) (check_signature K env) (fst (check_spec_version env False))"
  by (auto simp: verdict_record_of_def verdict_of_def verify_envelope_fields)

lemma payload_verdict:
  assumes "dget env ''payload_hash'' = JStr stored"
  shows "has_key ''payload'' env \<Longrightarrow> canonical_hash K (dget env ''payload'') = Inr stored \<Longrightarrow> fst (check_payload K env None) = Some True"
    and "has_key ''payload'' env \<Longrightarrow> canonical_hash K (dget env ''payload'') \<noteq> Inr stored \<Longrightarrow> fst (check_payload K env None) = Some False"
    and "\<not> has_key ''payload'' env \<Longrightarrow> fst (check_payload K env None) = None"
    and "\<not> has_key ''payload'' env \<Longrightarrow> fst (check_payload K env (Some pb)) = Some (sha256_hex K pb = stored)"
  using assms by (auto simp: check_payload_def Let_def split: sum.splits)

lemma no_hash_verdict: "\<not> has_key ''payload_hash'' env \<Longrightarrow> fst (check_payload K env pb) = Some False"
  by (simp add: check_payload_def)

lemma spec_verdict: "dget env ''spec_version'' = JStr v \<Longrightarrow>
    fst (check_spec_version env False) = spec_version_supported (JStr v)"
  by (simp add: check_spec_version_ok)

lemma case_versions:
  "spec_version_supported (JStr ''ario.agent/v1'')"
  "\<not> spec_version_supported (JStr ''ario.agent/v1.x'')" "\<not> spec_version_supported (JStr ''ario.agent/v1.3abc'')"
  "\<not> spec_version_supported (JStr ''ario.agent/v1.'')" "\<not> spec_version_supported (JStr ''ario.agent/v10'')"
  "spec_version_supported (JStr ''ario.agent/v1.3'')" "spec_version_supported (JStr ''ario.agent/v1.10'')"
  by code_simp+

text \<open>
  What could make an altered case pass: the stack key's signature of a case being valid for
  the scope with another payload, or one of the other payloads having the record's hash.
\<close>

definition altered_scopes :: "kernel \<Rightarrow> string \<Rightarrow> (items \<times> items) list" where
  "altered_scopes K rh =
     [(case_base K (bound_items rh), case_base K [(''payload_hash'', JStr rh)]),
      (case_base K [(''payload_hash'', JStr rh)], case_base K [(''payload_hash'', JStr rh), (''payload'', forged_payload)]),
      (case_base K (bound_items rh), case_base K [(''payload'', tampered_record), (''payload_hash'', JStr rh)])]"

inductive case_accident :: "kernel \<Rightarrow> bool" for K :: kernel where
  bytes_twin:
    "case_accident K"
    if "canonical K external_record = Inr rb" and "k_sha256 K (ascii_bytes ''not the record'') = k_sha256 K rb"
| payload_hash_twin:
    "case_accident K"
    if "canonical K external_record = Inr rb" and "p \<in> {forged_payload, tampered_record}"
      and "canonical K p = Inr pb" and "k_sha256 K pb = k_sha256 K rb"
| scope_twin:
    "case_accident K"
    if "canonical K external_record = Inr rb" and "(env, env') \<in> set (altered_scopes K (sha256_hex K rb))"
      and "canonical K (JDict env) = Inr m" and "canonical K (JDict env') = Inr m'"
      and "k_ed_verify K (k_ed_public K stack_seed) m' (k_ed_sign K stack_seed m)"

lemma signed_verdict:
  assumes "ed25519_contract K" and "case_scope K env" and "case_sign K env = Inr e"
    and "dget env ''spec_version'' = JStr v"
  shows "verdict_record_of (verify_envelope K (JDict e) pb None False) =
    verdict_of (spec_version_supported (JStr v) \<and> fst (check_payload K e pb) \<noteq> Some False)
      (fst (check_payload K e pb)) True (spec_version_supported (JStr v))"
proof -
  have "dget e ''spec_version'' = JStr v" using assms(3,4) by (auto simp: case_sign_Inr)
  then show ?thesis
    by (simp add: verdict_fields case_signed_ok [OF assms(1-3)] spec_verdict del: spec_version_supported.simps)
qed

lemma versioned_verdict:
  assumes "ed25519_contract K" and "canonical K external_record = Inr rb"
    and "versioned K (sha256_hex K rb) v = Inr e" and "\<not> matches_major v ''ario.mlflow/v1''"
  shows "verdict_record_of (verify_envelope K (JDict e) None None False) =
    verdict_of (spec_version_supported (JStr v)) (Some True) True (spec_version_supported (JStr v))"
proof -
  let ?env = "case_base K (bound_items (sha256_hex K rb) @ [(''spec_version'', JStr v)])"
  have f: "?env = [(''spec_version'', JStr v), (''event_id'', JStr ''1f0e9a4c-3b2d-4d5e-8f6a-7b8c9d0e1f2a''),
      (''signed_at'', JStr ''2026-06-12T00:00:00Z''), (''public_key'', JStr (PUB_HEX K)),
      (''payload'', external_record), (''payload_hash'', JStr (sha256_hex K rb))]"
    by (simp add: case_base_def bound_items_def dput_def)
  have s: "case_scope K ?env"
    using assms(4) by (simp add: f case_scope_def strips_annotations_def dget_simps)
  have e: "case_sign K ?env = Inr e" using assms(3) by (simp add: versioned_def)
  then obtain m where "e = dput ''signature'' (JStr (hex_encode (k_ed_sign K stack_seed m))) ?env"
    by (auto simp: case_sign_Inr)
  then have "fst (check_payload K e None) = Some True"
    using assms(2) by (intro payload_verdict(1) [of _ "sha256_hex K rb"]) (simp_all add: f dget_simps canonical_hash_Inr)
  then show ?thesis
    using signed_verdict [OF assms(1) s e, of v None] by (simp add: f dget_simps del: spec_version_supported.simps)
qed

lemma altered_signature:
  assumes "ed25519_contract K" and "envelope_for_signature e = env"
    and "dget e ''signature'' = JStr (hex_encode (k_ed_sign K stack_seed m))" and "dget e ''public_key'' = JStr (PUB_HEX K)"
  shows "check_signature K e \<longleftrightarrow>
     (\<exists>m'. canonical K (JDict env) = Inr m' \<and> k_ed_verify K (k_ed_public K stack_seed) m' (k_ed_sign K stack_seed m))"
proof -
  have "length (k_ed_sign K stack_seed m) = 64" "length (k_ed_public K stack_seed) = 32"
    using assms(1) by (simp_all add: ed25519_contract_def)
  then show ?thesis
    using assms(2-4) by (auto simp: check_signature_iff PUB_HEX_def fromhex_hex_encode)
qed

lemma altered_verdict:
  assumes "ed25519_contract K" and "canonical K external_record = Inr rb" and "\<not> case_accident K"
    and "(env, env') \<in> set (altered_scopes K (sha256_hex K rb))"
    and "canonical K (JDict env) = Inr m" and "envelope_for_signature e = env'"
    and "dget e ''signature'' = JStr (hex_encode (k_ed_sign K stack_seed m))" and "dget e ''public_key'' = JStr (PUB_HEX K)"
    and "dget e ''spec_version'' = JStr ''ario.agent/v1''"
  shows "verdict_record_of (verify_envelope K (JDict e) pb None False) =
    verdict_of False (fst (check_payload K e pb)) False True"
proof -
  have "\<not> check_signature K e"
    unfolding altered_signature [OF assms(1,6-8)] using scope_twin [OF assms(2,4,5)] assms(3) by blast
  then show ?thesis
    using case_versions(1) by (simp add: verdict_fields spec_verdict [OF assms(9)] del: spec_version_supported.simps)
qed

lemma case_env_simps:
  "case_base K (bound_items rh) = [(''spec_version'', JStr ''ario.agent/v1''), (''event_id'', JStr ''1f0e9a4c-3b2d-4d5e-8f6a-7b8c9d0e1f2a''),
      (''signed_at'', JStr ''2026-06-12T00:00:00Z''), (''public_key'', JStr (PUB_HEX K)),
      (''payload'', external_record), (''payload_hash'', JStr rh)]"
  "case_base K [(''payload_hash'', JStr rh)] = [(''spec_version'', JStr ''ario.agent/v1''), (''event_id'', JStr ''1f0e9a4c-3b2d-4d5e-8f6a-7b8c9d0e1f2a''),
      (''signed_at'', JStr ''2026-06-12T00:00:00Z''), (''public_key'', JStr (PUB_HEX K)), (''payload_hash'', JStr rh)]"
  "case_base K [(''payload_hash'', JStr rh), (''payload'', forged_payload)] = [(''spec_version'', JStr ''ario.agent/v1''), (''event_id'', JStr ''1f0e9a4c-3b2d-4d5e-8f6a-7b8c9d0e1f2a''),
      (''signed_at'', JStr ''2026-06-12T00:00:00Z''), (''public_key'', JStr (PUB_HEX K)), (''payload_hash'', JStr rh), (''payload'', forged_payload)]"
  "case_base K [(''payload'', tampered_record), (''payload_hash'', JStr rh)] = [(''spec_version'', JStr ''ario.agent/v1''), (''event_id'', JStr ''1f0e9a4c-3b2d-4d5e-8f6a-7b8c9d0e1f2a''),
      (''signed_at'', JStr ''2026-06-12T00:00:00Z''), (''public_key'', JStr (PUB_HEX K)),
      (''payload'', tampered_record), (''payload_hash'', JStr rh)]"
  "case_base K [] = [(''spec_version'', JStr ''ario.agent/v1''), (''event_id'', JStr ''1f0e9a4c-3b2d-4d5e-8f6a-7b8c9d0e1f2a''),
      (''signed_at'', JStr ''2026-06-12T00:00:00Z''), (''public_key'', JStr (PUB_HEX K))]"
  by (simp_all add: case_base_def bound_items_def dput_def)

lemma base_scopes:
  "case_scope K (case_base K (bound_items rh))" "case_scope K (case_base K [(''payload_hash'', JStr rh)])"
  "case_scope K (case_base K [])"
  by (simp_all add: base_scope bound_items_def)

lemma plain_scope:
  assumes "dget e ''spec_version'' = JStr ''ario.agent/v1''"
  shows "envelope_for_signature e = filter (\<lambda>(k, v). k \<notin> set UNSIGNED_FIELDS) e"
  using assms by (simp add: envelope_for_signature_def strips_annotations_def matches_major_def Let_def starts_with_def)

text \<open>The inline case, and the two made from it.\<close>

lemma inline_verdicts:
  assumes "ed25519_contract K" and "canonical K external_record = Inr rb" and "\<not> case_accident K"
    and "case_sign K (case_base K (bound_items (sha256_hex K rb))) = Inr inl"
  shows "verdict_record_of (verify_envelope K (JDict inl) None None False) = verdict_of True (Some True) True True"
    and "verdict_record_of (verify_envelope K (JDict (filter (\<lambda>(k, v). k \<noteq> ''payload'') inl)) None None False)
      = verdict_of False None False True"
    and "verdict_record_of (verify_envelope K (JDict (merge inl [(''payload'', tampered_record)])) None None False)
      = verdict_of False (Some False) False True"
proof -
  let ?rh = "sha256_hex K rb"
  obtain m where m: "canonical K (JDict (case_base K (bound_items ?rh))) = Inr m"
    "inl = dput ''signature'' (JStr (hex_encode (k_ed_sign K stack_seed m))) (case_base K (bound_items ?rh))"
    using assms(4) by (auto simp: case_sign_Inr)
  have h: "canonical_hash K external_record = Inr ?rh" using assms(2) by (simp add: canonical_hash_Inr)
  have "fst (check_payload K inl None) = Some True"
    using h by (intro payload_verdict(1) [of _ ?rh]) (simp_all add: m(2) case_env_simps dget_simps)
  then show "verdict_record_of (verify_envelope K (JDict inl) None None False) = verdict_of True (Some True) True True"
    using signed_verdict [OF assms(1) base_scopes(1) assms(4), of "''ario.agent/v1''" None] case_versions(1)
    by (simp add: case_env_simps dget_simps del: spec_version_supported.simps)
  let ?st = "filter (\<lambda>(k, v). k \<noteq> ''payload'') inl"
  have "fst (check_payload K ?st None) = None"
    by (rule payload_verdict(3) [of _ ?rh]) (simp_all add: m(2) case_env_simps dget_simps dput_def)
  moreover have "verdict_record_of (verify_envelope K (JDict ?st) None None False)
      = verdict_of False (fst (check_payload K ?st None)) False True"
    by (rule altered_verdict [OF assms(1-3) _ m(1), where env' = "case_base K [(''payload_hash'', JStr ?rh)]"])
      (simp_all add: altered_scopes_def plain_scope UNSIGNED_FIELDS_def m(2) case_env_simps dget_simps dput_def)
  ultimately show "verdict_record_of (verify_envelope K (JDict ?st) None None False) = verdict_of False None False True"
    by simp
  let ?t = "merge inl [(''payload'', tampered_record)]"
  have "canonical_hash K tampered_record \<noteq> Inr ?rh"
    using payload_hash_twin [OF assms(2), of tampered_record] assms(3) by (auto simp: canonical_hash_Inr sha256_hex_inject)
  then have "fst (check_payload K ?t None) = Some False"
    by (intro payload_verdict(2) [of _ ?rh]) (simp_all add: m(2) case_env_simps dget_simps)
  moreover have "verdict_record_of (verify_envelope K (JDict ?t) None None False)
      = verdict_of False (fst (check_payload K ?t None)) False True"
    by (rule altered_verdict [OF assms(1-3) _ m(1),
          where env' = "case_base K [(''payload'', tampered_record), (''payload_hash'', JStr ?rh)]"])
      (simp_all add: altered_scopes_def plain_scope UNSIGNED_FIELDS_def m(2) case_env_simps dget_simps dput_def)
  ultimately show "verdict_record_of (verify_envelope K (JDict ?t) None None False) = verdict_of False (Some False) False True"
    by simp
qed

text \<open>The external case with the bytes supplied, and the injected payload.\<close>

lemma external_verdicts:
  assumes "ed25519_contract K" and "canonical K external_record = Inr rb" and "\<not> case_accident K"
    and "case_sign K (case_base K [(''payload_hash'', JStr (sha256_hex K rb))]) = Inr ext"
  shows "verdict_record_of (verify_envelope K (JDict ext) None None False) = verdict_of True None True True"
    and "verdict_record_of (verify_envelope K (JDict ext) (Some rb) None False) = verdict_of True (Some True) True True"
    and "verdict_record_of (verify_envelope K (JDict ext) (Some (ascii_bytes ''not the record'')) None False)
      = verdict_of False (Some False) True True"
    and "verdict_record_of (verify_envelope K (JDict (merge ext [(''payload'', forged_payload)])) None None False)
      = verdict_of False (Some False) False True"
proof -
  let ?rh = "sha256_hex K rb"
  obtain m where m: "canonical K (JDict (case_base K [(''payload_hash'', JStr ?rh)])) = Inr m"
    "ext = dput ''signature'' (JStr (hex_encode (k_ed_sign K stack_seed m))) (case_base K [(''payload_hash'', JStr ?rh)])"
    using assms(4) by (auto simp: case_sign_Inr)
  have e: "dget ext ''payload_hash'' = JStr ?rh" "\<not> has_key ''payload'' ext"
    by (simp_all add: m(2) case_env_simps dget_simps)
  have v: "verdict_record_of (verify_envelope K (JDict ext) pb None False) =
      verdict_of (fst (check_payload K ext pb) \<noteq> Some False) (fst (check_payload K ext pb)) True True" for pb
    using signed_verdict [OF assms(1) base_scopes(2) assms(4), of "''ario.agent/v1''" pb] case_versions(1)
    by (simp add: case_env_simps dget_simps del: spec_version_supported.simps)
  show "verdict_record_of (verify_envelope K (JDict ext) None None False) = verdict_of True None True True"
    "verdict_record_of (verify_envelope K (JDict ext) (Some rb) None False) = verdict_of True (Some True) True True"
    by (simp_all add: v payload_verdict(3,4) [OF e])
  have "k_sha256 K (ascii_bytes ''not the record'') \<noteq> k_sha256 K rb" using bytes_twin [OF assms(2)] assms(3) by blast
  then show "verdict_record_of (verify_envelope K (JDict ext) (Some (ascii_bytes ''not the record'')) None False)
      = verdict_of False (Some False) True True"
    by (simp add: v payload_verdict(4) [OF e] sha256_hex_inject)
  let ?i = "merge ext [(''payload'', forged_payload)]"
  have "canonical_hash K forged_payload \<noteq> Inr ?rh"
    using payload_hash_twin [OF assms(2), of forged_payload] assms(3) by (auto simp: canonical_hash_Inr sha256_hex_inject)
  then have "fst (check_payload K ?i None) = Some False"
    using e by (intro payload_verdict(2) [of _ ?rh]) simp_all
  moreover have "verdict_record_of (verify_envelope K (JDict ?i) None None False)
      = verdict_of False (fst (check_payload K ?i None)) False True"
    by (rule altered_verdict [OF assms(1-3) _ m(1),
          where env' = "case_base K [(''payload_hash'', JStr ?rh), (''payload'', forged_payload)]"])
      (simp_all add: altered_scopes_def plain_scope UNSIGNED_FIELDS_def m(2) case_env_simps dget_simps dput_def)
  ultimately show "verdict_record_of (verify_envelope K (JDict ?i) None None False) = verdict_of False (Some False) False True"
    by simp
qed

text \<open>No payload hash: refused whatever is supplied.\<close>

lemma missing_hash_verdict:
  assumes "ed25519_contract K" and "case_sign K (case_base K []) = Inr e"
  shows "verdict_record_of (verify_envelope K (JDict e) pb None False) = verdict_of False (Some False) True True"
proof -
  have "\<not> has_key ''payload_hash'' e" using assms(2) by (auto simp: case_sign_Inr case_env_simps)
  then show ?thesis
    using signed_verdict [OF assms(1) base_scopes(3) assms(2), of "''ario.agent/v1''" pb] case_versions(1)
    by (simp add: no_hash_verdict case_env_simps dget_simps del: spec_version_supported.simps)
qed

text \<open>All sixteen.\<close>

lemma adversarial_sources_verdicts:
  assumes "ed25519_contract K" and "canonical K external_record = Inr rb" and "\<not> case_accident K"
    and "case_sign K (case_base K (bound_items (sha256_hex K rb))) = Inr inl"
    and "case_sign K (case_base K [(''payload_hash'', JStr (sha256_hex K rb))]) = Inr ext"
  shows "list_all2 (\<lambda>(cid, env, pb) (cid', v). cid = cid' \<and>
       (\<forall>e. env = Inr e \<longrightarrow> verdict_record_of (verify_envelope K (JDict e) pb None False) = v))
     (adversarial_sources K rb (sha256_hex K rb) inl ext) intended_verdicts"
proof -
  have ver: "\<forall>e. versioned K (sha256_hex K rb) v = Inr e \<longrightarrow>
      verdict_record_of (verify_envelope K (JDict e) None None False) =
      verdict_of (spec_version_supported (JStr v)) (Some True) True (spec_version_supported (JStr v))"
    if "\<not> matches_major v ''ario.mlflow/v1''" for v
    using versioned_verdict [OF assms(1,2) _ that] by blast
  have mm: "\<not> matches_major ''ario.agent/v1.x'' ''ario.mlflow/v1''" "\<not> matches_major ''ario.agent/v1.3abc'' ''ario.mlflow/v1''"
    "\<not> matches_major ''ario.agent/v1.'' ''ario.mlflow/v1''" "\<not> matches_major ''ario.agent/v10'' ''ario.mlflow/v1''"
    "\<not> matches_major ''ario.agent/v1.3'' ''ario.mlflow/v1''" "\<not> matches_major ''ario.agent/v1.10'' ''ario.mlflow/v1''"
    by (simp_all add: matches_major_def starts_with_def Let_def)
  note ver = ver [OF mm(1), unfolded Eq_FalseI [OF case_versions(2)]] ver [OF mm(2), unfolded Eq_FalseI [OF case_versions(3)]]
    ver [OF mm(3), unfolded Eq_FalseI [OF case_versions(4)]] ver [OF mm(4), unfolded Eq_FalseI [OF case_versions(5)]]
    ver [OF mm(5), unfolded Eq_TrueI [OF case_versions(6)]] ver [OF mm(6), unfolded Eq_TrueI [OF case_versions(7)]]
  show ?thesis
    unfolding adversarial_sources_def intended_verdicts_def list.map append.simps list_all2_Cons prod.case sum.inject
    using inline_verdicts [OF assms(1-4)] external_verdicts [OF assms(1-3,5)] missing_hash_verdict [OF assms(1)] ver
    by simp
qed

lemma adversarial_verdicts_hold:
  assumes "ed25519_contract K" and "adversarial_cases K = Inr cs"
  shows "map (\<lambda>c. (kc_id c, python_verdict K c)) cs = intended_verdicts \<or> case_accident K"
proof (cases "case_accident K")
  case False
  let ?f = "\<lambda>(cid, env, pb). ebind env (\<lambda>e. Inr \<lparr> kc_id = cid, kc_envelope = JDict e, kc_payload_bytes = pb \<rparr>)"
  obtain rb inl ext where b: "canonical K external_record = Inr rb"
    "case_sign K (case_base K (bound_items (sha256_hex K rb))) = Inr inl"
    "case_sign K (case_base K [(''payload_hash'', JStr (sha256_hex K rb))]) = Inr ext"
    and "emap ?f (adversarial_sources K rb (sha256_hex K rb) inl ext) = Inr cs"
    using assms(2) unfolding adversarial_cases_def Let_def ebind_Inr_iff by blast
  then have all: "list_all2 (\<lambda>s c. ?f s = Inr c) (adversarial_sources K rb (sha256_hex K rb) inl ext) cs"
    by (simp only: emap_Inr_iff)
  note v = adversarial_sources_verdicts [OF assms(1) b(1) False b(2,3)]
  have "map (\<lambda>c. (kc_id c, python_verdict K c)) cs ! i = intended_verdicts ! i" if i: "i < length cs" for i
  proof -
    have i': "i < length (adversarial_sources K rb (sha256_hex K rb) inl ext)" using all i by (simp add: list_all2_lengthD)
    obtain cid env pb where s: "adversarial_sources K rb (sha256_hex K rb) inl ext ! i = (cid, env, pb)" by (rule prod_cases3)
    obtain e where e: "env = Inr e" "cs ! i = \<lparr> kc_id = cid, kc_envelope = JDict e, kc_payload_bytes = pb \<rparr>"
      using list_all2_nthD [OF all i'] by (auto simp: s ebind_Inr_iff)
    from list_all2_nthD [OF v i'] show ?thesis
      using i e by (auto simp: s python_verdict_def split: prod.splits)
  qed
  moreover have "length cs = length intended_verdicts"
    using list_all2_lengthD [OF all] list_all2_lengthD [OF v] by simp
  ultimately show ?thesis by (auto intro: nth_equalityI)
qed simp

text \<open>
  A signature for the concrete cases: the length of the message and the number of its bytes 42,
  so that none is shared by a case and what is made from it.
\<close>

definition sum_sign :: "bytes \<Rightarrow> bytes \<Rightarrow> bytes" where
  "sum_sign seed m = [of_nat (length m), of_nat (length (filter (\<lambda>b. b = 42) m))] @ replicate 62 0"

definition sum_toy :: kernel where
  "sum_toy = toy \<lparr> k_ed_sign := sum_sign, k_ed_verify := (\<lambda>p m s. s = sum_sign p m) \<rparr>"

lemma sum_toy_fields [simp]:
  "k_ed_sign sum_toy = sum_sign" "k_ed_verify sum_toy = (\<lambda>p m s. s = sum_sign p m)"
  "k_sha256 sum_toy = toy_hash" "k_jcs sum_toy v = Inr (toy_jcs v)" "k_ed_public sum_toy = (\<lambda>seed. seed)"
  by (simp_all add: sum_toy_def)

lemma sum_toy_canonical: "depth v \<le> 128 \<Longrightarrow> canonical sum_toy v = Inr (toy_jcs v)"
  by (simp add: canonical_def canonical_json_Inr MAX_CANONICAL_DEPTH_def)

lemma sum_toy_ed25519: "ed25519_contract sum_toy"
  by (simp add: ed25519_contract_def sum_sign_def)

lemma sum_toy_hashes:
  "toy_hash (ascii_bytes ''not the record'') \<noteq> toy_hash (toy_jcs external_record)"
  "toy_hash (toy_jcs forged_payload) \<noteq> toy_hash (toy_jcs external_record)"
  "toy_hash (toy_jcs tampered_record) \<noteq> toy_hash (toy_jcs external_record)"
  by code_simp+

text \<open>The two measures of a text, item by item.\<close>

definition text_size :: "bytes \<Rightarrow> byte" where
  "text_size m = of_nat (length m)"

definition text_stars :: "bytes \<Rightarrow> byte" where
  "text_stars m = of_nat (length (filter (\<lambda>b. b = 42) m))"

lemma text_measures:
  "text_size [] = 0" "text_size (b # m) = 1 + text_size m" "text_size (m @ m') = text_size m + text_size m'"
  "text_stars [] = 0" "text_stars (b # m) = (if b = 42 then 1 else 0) + text_stars m"
  "text_stars (m @ m') = text_stars m + text_stars m'"
  by (simp_all add: text_size_def text_stars_def)

lemma payload_measures:
  "text_size (toy_jcs external_record) = 32" "text_stars (toy_jcs external_record) = 1"
  "text_size (toy_jcs forged_payload) = 10" "text_size (toy_jcs tampered_record) = 32" "text_stars (toy_jcs tampered_record) = 0"
  by code_simp+

lemma sum_toy_scopes:
  assumes "(env, env') \<in> set (altered_scopes sum_toy rh)"
  shows "sum_sign stack_seed (toy_jcs (JDict env)) \<noteq> sum_sign stack_seed (toy_jcs (JDict env'))"
    and "depth (JDict env) \<le> 128" and "depth (JDict env') \<le> 128"
proof -
  have w: "sum_sign seed m = [text_size m, text_stars m] @ replicate 62 0" for seed m
    by (simp add: sum_sign_def text_size_def text_stars_def)
  have j: "toy_jcs (JDict d) = 123 # concat (map (\<lambda>(k, v). toy_text k @ 58 # toy_jcs v) d) @ [125]" for d by simp
  have t: "text_size (toy_text s) = of_nat (length s)" for s by (simp add: toy_text_def text_size_def)
  have "text_size (toy_jcs (JDict env)) \<noteq> text_size (toy_jcs (JDict env'))
      \<or> text_stars (toy_jcs (JDict env)) \<noteq> text_stars (toy_jcs (JDict env'))"
    using assms unfolding altered_scopes_def case_env_simps j
    by (auto simp: text_measures payload_measures t simp del: toy_jcs.simps)
  then show "sum_sign stack_seed (toy_jcs (JDict env)) \<noteq> sum_sign stack_seed (toy_jcs (JDict env'))"
    by (auto simp only: w append_Cons list.inject)
  show "depth (JDict env) \<le> 128" "depth (JDict env') \<le> 128"
    using assms unfolding altered_scopes_def case_env_simps
    by (auto simp: external_record_def forged_payload_def tampered_record_def)
qed

lemma sum_toy_no_accident: "\<not> case_accident sum_toy"
proof
  have rb: "canonical sum_toy external_record = Inr (toy_jcs external_record)"
    by (rule sum_toy_canonical) (simp add: external_record_def)
  have p: "canonical sum_toy p = Inr (toy_jcs p)" if "p \<in> {forged_payload, tampered_record}" for p
    using that by (intro sum_toy_canonical) (auto simp: forged_payload_def tampered_record_def)
  assume "case_accident sum_toy"
  then show False
  proof cases
    case (bytes_twin rb)
    with rb sum_toy_hashes(1) show False by simp
  next
    case (payload_hash_twin rb p pb)
    with rb p [of p] sum_toy_hashes(2,3) show False by auto
  next
    case (scope_twin rb env env' m m')
    with rb have "(env, env') \<in> set (altered_scopes sum_toy (sha256_hex sum_toy (toy_jcs external_record)))" by simp
    note e = sum_toy_scopes [OF this]
    have "m = toy_jcs (JDict env)" "m' = toy_jcs (JDict env')"
      using scope_twin(3,4) sum_toy_canonical [OF e(2)] sum_toy_canonical [OF e(3)] by simp_all
    with scope_twin(5) e(1) show False by (simp add: sum_sign_def)
  qed
qed

lemma toy_case_sign: "depth (JDict env) \<le> 128 \<Longrightarrow> \<exists>e. case_sign sum_toy env = Inr e"
  by (simp add: case_sign_def sum_toy_canonical del: depth.simps)

lemma adversarial_cases_exist: "\<exists>cs. adversarial_cases sum_toy = Inr cs"
proof -
  let ?rb = "toy_jcs external_record" and ?rh = "sha256_hex sum_toy (toy_jcs external_record)"
  have rb: "canonical sum_toy external_record = Inr ?rb" by (rule sum_toy_canonical) (simp add: external_record_def)
  have d: "depth (JDict (case_base sum_toy (bound_items ?rh @ extra))) \<le> 128"
    "depth (JDict (case_base sum_toy [(''payload_hash'', JStr ?rh)])) \<le> 128" "depth (JDict (case_base sum_toy [])) \<le> 128"
    if "extra = [] \<or> (\<exists>v. extra = [(''spec_version'', JStr v)])" for extra
    using that by (auto simp: case_base_def bound_items_def dput_def external_record_def)
  obtain inl ext where i: "case_sign sum_toy (case_base sum_toy (bound_items ?rh)) = Inr inl"
    "case_sign sum_toy (case_base sum_toy [(''payload_hash'', JStr ?rh)]) = Inr ext"
    using toy_case_sign [OF d(1) [of "[]"]] toy_case_sign [OF d(2) [of "[]"]] by auto
  have "\<exists>e. env = Inr e" if "(cid, env, pb) \<in> set (adversarial_sources sum_toy ?rb ?rh inl ext)" for cid env pb
    using that toy_case_sign [OF d(3) [of "[]"]] toy_case_sign [OF d(1) [of "[(''spec_version'', JStr v)]" for v]]
    unfolding adversarial_sources_def versioned_def by auto
  then have "\<exists>cs. emap (\<lambda>(cid, env, pb). ebind env (\<lambda>e. Inr \<lparr> kc_id = cid, kc_envelope = JDict e, kc_payload_bytes = pb \<rparr>))
      (adversarial_sources sum_toy ?rb ?rh inl ext) = Inr cs"
    by (intro emap_returns) fastforce
  with rb i show ?thesis by (simp add: adversarial_cases_def Let_def)
qed

section \<open>Corpus vectors as cases\<close>

text \<open>
  An events vector as its file holds it: the text of the complete envelope, and the record
  bytes with which that envelope verifies.
\<close>

definition stored_vector :: "kernel \<Rightarrow> items \<Rightarrow> items \<Rightarrow> bytes \<Rightarrow> bool" where
  "stored_vector K v env text \<longleftrightarrow>
     (\<exists>outs rb. rebuild_envelope v = Inr env \<and> distinct (map fst env) \<and> k_jcs K (JDict env) = Inr text
        \<and> py_item (JDict v) ''expected_outputs'' = Inr (JDict outs)
        \<and> py_item (JDict outs) ''envelope_jcs_bytes_hex'' = Inr (JStr (hex_encode text))
        \<and> py_item (JDict outs) ''payload_jcs_bytes_hex'' = Inr (JStr (hex_encode rb))
        \<and> vr_ok (verify_envelope K (JDict env) (Some rb) None False)
        \<and> vr_payload_hash_ok (verify_envelope K (JDict env) (Some rb) None False) = Some True)"

lemma distinct_dput: "distinct (map fst d) \<Longrightarrow> distinct (map fst (dput k v d))"
  by (simp add: dput_def AList.distinct_update)

lemma accepted_verdict:
  assumes "vr_ok (verify_envelope K (JDict env) pb None False)"
    and "vr_payload_hash_ok (verify_envelope K (JDict env) pb None False) = Some True"
  shows "verdict_record_of (verify_envelope K (JDict env) pb None False) = verdict_of True (Some True) True True"
  using assms by (simp add: verdict_record_of_def verdict_of_def verify_envelope_fields)

lemma stored_case:
  assumes "jcs_sorts_keys K" and "stored_vector K v env text"
    and "k_json_loads K text = Some (JDict env')" and "mset env' = mset env"
  shows "\<exists>c. events_case K cid (JDict v) = Inr c \<and> kc_id c = cid \<and> python_verdict K c = verdict_of True (Some True) True True"
proof -
  obtain outs rb where o: "py_item (JDict v) ''expected_outputs'' = Inr (JDict outs)"
    "py_item (JDict outs) ''envelope_jcs_bytes_hex'' = Inr (JStr (hex_encode text))"
    "py_item (JDict outs) ''payload_jcs_bytes_hex'' = Inr (JStr (hex_encode rb))"
    and ok: "vr_ok (verify_envelope K (JDict env) (Some rb) None False)"
    "vr_payload_hash_ok (verify_envelope K (JDict env) (Some rb) None False) = Some True"
    and d: "distinct (map fst env)"
    using assms(2) unfolding stored_vector_def by blast
  note same = verify_envelope_mset [OF assms(1,4) d, of "Some rb" None False]
  have "events_case K cid (JDict v) = Inr \<lparr> kc_id = cid, kc_envelope = JDict env', kc_payload_bytes = Some rb \<rparr>"
    using o assms(3) by (simp add: events_case_def fromhex_hex_encode del: py_item.simps)
  then show ?thesis using accepted_verdict [OF ok] by (simp add: python_verdict_def same)
qed

lemma events_vector_stored:
  assumes "ed25519_contract K"
    and "sign_events_envelope_vector K vid desc rec pre seed_hex = Inr v"
    and "list_all (\<lambda>k. \<not> has_key k pre) [''signature'', ''co_signatures'', ''payload'']" and "\<not> strips_annotations pre"
    and "spec_version_supported (dget pre ''spec_version'')" and "distinct (map fst pre)"
    and "\<And>ph seed. depth (JDict (vector_scope K pre ph seed)) \<le> MAX_CANONICAL_DEPTH"
  shows "\<exists>env tb. stored_vector K v env tb"
proof -
  have nk: "\<not> has_key ''signature'' pre" "\<not> has_key ''co_signatures'' pre" "\<not> has_key ''payload'' pre"
    using assms(3) by simp_all
  obtain seed rj sj tb where s: "signing_key_from_seed_hex seed_hex = Inr seed" "k_jcs K rec = Inr rj"
    "k_jcs K (JDict (vector_scope K pre (sha256_hex K rj) seed)) = Inr sj"
    and tj: "k_jcs K (JDict (dput ''signature'' (JStr (hex_encode (k_ed_sign K seed sj)))
        (vector_scope K pre (sha256_hex K rj) seed))) = Inr tb"
    using assms(2) by (auto simp: sign_events_envelope_vector_def result_simps Let_def)
  let ?scope = "dput ''public_key'' (JStr (hex_encode (k_ed_public K seed))) (dput ''payload_hash'' (JStr (sha256_hex K rj)) pre)"
  let ?env = "dput ''signature'' (JStr (hex_encode (k_ed_sign K seed sj))) ?scope"
  have "vector_scope K pre (sha256_hex K rj) seed = ?scope"
    unfolding vector_scope_def using nk(1) by (intro dpop_id) simp
  note tj = tj [unfolded this]
  have re: "rebuild_envelope v = Inr ?env"
    and outs: "\<exists>outs. py_item (JDict v) ''expected_outputs'' = Inr (JDict outs)
        \<and> py_item (JDict outs) ''envelope_jcs_bytes_hex'' = Inr (JStr (hex_encode tb))
        \<and> py_item (JDict outs) ''payload_jcs_bytes_hex'' = Inr (JStr (hex_encode rj))"
    and inp: "ebind (py_item (JDict v) ''inputs'') (\<lambda>i. py_item i ''event_record'') = Inr rec"
    using assms(2) s tj \<open>vector_scope K pre (sha256_hex K rj) seed = ?scope\<close>
    by (auto simp: sign_events_envelope_vector_def Let_def rebuild_envelope_def fixed_keypair_def dget_simps)
  from events_vector_accepted [OF assms(1,2) nk(2) assms(4) nk(3) assms(5,7)] re inp s(2)
  have ok: "vr_ok (verify_envelope K (JDict ?env) (Some rj) None False)"
    "vr_payload_hash_ok (verify_envelope K (JDict ?env) (Some rj) None False) = Some True"
    unfolding events_vector_verifies_def by auto
  have "distinct (map fst ?env)" using assms(6) by (intro distinct_dput)
  with re outs tj ok show ?thesis unfolding stored_vector_def by blast
qed

text \<open>An inline vector is verified with its own payload.\<close>

lemma inline_vector_case:
  assumes "ed25519_contract K" and "sign_envelope_vector K vid desc pre seed_hex = Inr v"
    and "list_all (\<lambda>k. \<not> has_key k pre) [''signature'', ''co_signatures'', ''payload_hash'', ''public_key'']"
    and "\<not> strips_annotations pre" and "depth (JDict pre) \<le> MAX_CANONICAL_DEPTH"
    and "spec_version_supported (dget pre ''spec_version'')"
  shows "\<exists>c. corpus_inline_case stem v = Inr c \<and> python_verdict K c = verdict_of True (Some True) True True"
proof -
  obtain seed where s: "signing_key_from_seed_hex seed_hex = Inr seed"
    using assms(2) by (auto simp: sign_envelope_vector_def ebind_Inr_iff)
  have pl: "has_key ''payload'' pre"
    using assms(2) by (auto simp: sign_envelope_vector_def result_simps split: if_splits)
  obtain env where env: "rebuild_envelope v = Inr env" "sign_envelope K pre seed = Inr env"
    using vector_agrees_with_sign [OF assms(2) s assms(3-5)] by blast
  have ok: "vr_ok (verify_envelope K (JDict env) None None False)"
    by (rule sign_envelope_verifies [OF assms(1) signing_key_length [OF s] env(2) assms(6)]) (use pl in blast)
  obtain e message where "env = dput ''signature'' (JStr (hex_encode (sign K message seed))) e"
    "\<forall>k. k \<noteq> ''payload_hash'' \<and> k \<noteq> ''public_key'' \<longrightarrow> map_of e k = map_of pre k"
    using env(2) by (rule sign_envelope_Inr) blast
  then have "has_key ''payload'' env" using pl by (simp add: has_key_def map_of_dput)
  then have "vr_payload_hash_ok (verify_envelope K (JDict env) None None False) \<noteq> None"
    unfolding verify_envelope_fields check_payload_None by simp
  with ok have "vr_payload_hash_ok (verify_envelope K (JDict env) None None False) = Some True"
    unfolding verify_envelope_fields by auto
  with ok env(1) show ?thesis
    by (auto simp: corpus_inline_case_def python_verdict_def accepted_verdict)
qed

text \<open>
  A negative is recorded as rejected, whether its text parses or not: if it does, the parser
  gives the items of the envelope in some order.
\<close>

lemma negative_recorded:
  assumes "jcs_sorts_keys K" and "negative_text K n env b" and "rejected_for K env reason"
    and "\<And>v. k_json_loads K b = Some v \<Longrightarrow> \<exists>env'. v = JDict env' \<and> mset env' = mset env"
  shows "\<exists>j py. judged_negative K nid (hex_encode b) = Inr j \<and> dget j ''py'' = JDict py \<and> dget py ''ok'' = JBool False"
proof (cases "k_json_loads K b")
  case None
  then show ?thesis by (simp add: judged_negative_def fromhex_hex_encode dget_simps)
next
  case (Some v)
  then obtain env' where v: "v = JDict env'" "mset env' = mset env" using assms(4) by blast
  have "distinct (map fst env)" using assms(2) by (simp add: negative_text_def)
  then have "verify_envelope K v None None False = verify_envelope K (JDict env) None None False"
    unfolding v(1) by (intro verify_envelope_mset [OF assms(1) v(2)])
  moreover have "\<not> vr_ok (verify_envelope K (JDict env) None None False)"
    using assms(3) by (simp add: rejected_for_def Let_def)
  ultimately show ?thesis
    using Some by (simp add: judged_negative_def fromhex_hex_encode Let_def verdict_record_of_def dget_simps)
qed

text \<open>The events vectors of the generator, verified as the gate does: parsed from their bytes.\<close>

lemma events_vector_case:
  assumes "ed25519_contract K" and "jcs_sorts_keys K" and "events_pre pre"
    and "sign_events_envelope_vector K vid desc rec pre seed_hex = Inr v"
    and "\<And>env b. stored_vector K v env b \<Longrightarrow> \<exists>env'. k_json_loads K b = Some (JDict env') \<and> mset env' = mset env"
  shows "\<exists>c. events_case K cid (JDict v) = Inr c \<and> kc_id c = cid \<and> python_verdict K c = verdict_of True (Some True) True True"
proof -
  have "list_all (\<lambda>k. \<not> has_key k pre) [''signature'', ''co_signatures'', ''payload'']" "distinct (map fst pre)"
    using assms(3) by (simp_all add: events_pre_def)
  then obtain env b where s: "stored_vector K v env b"
    using events_vector_stored [OF assms(1,4)] events_pre_facts [OF assms(3)] by blast
  then obtain env' where "k_json_loads K b = Some (JDict env')" "mset env' = mset env" using assms(5) by blast
  from stored_case [OF assms(2) s this] show ?thesis .
qed

section \<open>Properties\<close>

text \<open>
  C29: the sixteen adversarial envelopes get the intended verdicts.  With Ed25519 as documented,
  the recorded \<open>ok\<close>, \<open>phk\<close>, \<open>sig\<close> and \<open>spec\<close> of the cases are those of \<open>intended_verdicts\<close>: both
  modes of commitment, wrong bytes, a stripped, an injected and a tampered payload, a missing
  hash, malformed and numeric minors.  The exception is a concrete accident of the stack key
  or the hash on these very texts.
\<close>

theorem adversarial_verdicts:
  assumes "ed25519_contract K" and "adversarial_cases K = Inr cs"
  shows "map (\<lambda>c. (kc_id c, python_verdict K c)) cs = intended_verdicts \<or> case_accident K"
  using assms by (rule adversarial_verdicts_hold)

theorem adversarial_verdicts_witness:
  "\<exists>cs. adversarial_cases sum_toy = Inr cs \<and> \<not> case_accident sum_toy
     \<and> map (\<lambda>c. (kc_id c, python_verdict sum_toy c)) cs = intended_verdicts"
proof -
  obtain cs where cs: "adversarial_cases sum_toy = Inr cs" using adversarial_cases_exist by blast
  from adversarial_verdicts [OF sum_toy_ed25519 cs] cs sum_toy_no_accident show ?thesis by blast
qed

end
