(* ===== verification/Spec2Isabelle.thy ===== *)
theory Spec2Isabelle
  imports Normalize_Floats Proof_Bundle Evidence_Facts Export_Corpus Corpus_Data
begin

text \<open>
  A model of the Python kernel of \<open>ario-proof\<close> (\<open>src/ario_proof\<close>), of the generators of its
  conformance corpus (\<open>tools/gen-vectors\<close>) and of the generators of the cross-kernel gate
  (\<open>cross-kernel/generate_cases.py\<close>, \<open>generate_export_cases.py\<close>).  Paths below are relative to
  the root of the repository.

  The program.  A producer signs \<open>envelopes\<close> with Ed25519 over canonical JSON (RFC 8785), puts
  the SHA-256 of the canonical envelopes of a batch into a Merkle tree (RFC 9162) and anchors the
  root in a checkpoint, itself an envelope.  The kernel verifies envelopes
  (\<open>envelope.py\<close>), single inclusion proofs (\<open>bundle.py\<close>), and whole evidence bundles
  (\<open>evidence.py\<close>): a signed wrapper whose body is either an anchor trace (checkpoints, events,
  inclusion proofs, an optional re-fetch of every checkpoint through gateways) or an export (a
  source bundle, operator attestations signed with RSA-PSS, a cached verdict that is
  recomputed and compared).  Every input comes from \<open>json.loads\<close> and is untrusted.

  Theories, bottom up:

  \<^item> \<open>Prelude\<close>: bytes, strings, the exceptions, the result type \<open>exc + 'a\<close>, and the locales
    \<open>codec\<close>, \<open>canonical_codec\<close> and \<open>kv_store\<close>.
  \<^item> \<open>Bytes_Hex\<close>: \<open>bytes.hex\<close>, \<open>bytes.fromhex\<close> and \<open>evidence.py: _hex_to_bytes\<close>;
    interprets the codecs.
  \<^item> \<open>Sha256\<close>: FIPS 180-4 on 32-bit words, the function Python's \<open>hashlib\<close> computes.  The other
    theories take the hash as a field of the environment, so that no property depends on it.
  \<^item> \<open>Py_Json\<close>: the values of \<open>json.loads\<close>, dict operations, number comparison and truth values.
  \<^item> \<open>Canonicalize\<close> (\<open>canonicalize.py\<close>): the explicit-stack depth guard and \<open>canonical_json\<close>.
  \<^item> \<open>Normalize_Floats\<close> (\<open>canonicalize.py: normalize_floats\<close>): Python's \<open>round\<close> on doubles, exact on
    natural numbers; the walk over a value, its stability and what drift it absorbs.
  \<^item> \<open>Merkle\<close> (\<open>merkle.py\<close>): root, audit paths, and the bottom-up loop of \<open>verify_inclusion\<close>.
  \<^item> \<open>Crypto\<close> (\<open>hash.py\<close>, \<open>sign.py\<close>, \<open>verify.py\<close>): the environment record \<open>kernel\<close>.
  \<^item> \<open>Envelope\<close> (\<open>envelope.py\<close>): the spec_version registry, the signed scope,
    \<open>content_hashes\<close>, the four steps of \<open>verify_envelope\<close> and \<open>sign_envelope\<close>.
  \<^item> \<open>Rsa_Pss\<close> (\<open>rsa_pss.py\<close>): strict hex and base64url, JWK import, \<open>verify_rsa_pss_sha256\<close>,
    \<open>derive_operator_address\<close>.
  \<^item> \<open>Proof_Bundle\<close> (\<open>bundle.py\<close>): \<open>verify_proof_bundle\<close>.
  \<^item> \<open>Evidence_Types\<close>, \<open>On_Chain\<close>, \<open>Anchor_Trace\<close>, \<open>Attestation\<close>, \<open>Verdict\<close>,
    \<open>Evidence_Bundle\<close> (\<open>evidence.py\<close>): the result classes and \<open>exit_code\<close>; \<open>_refetch_checkpoint\<close> and
    \<open>_probe_gateway\<close>; \<open>_verify_anchor_trace\<close> and \<open>_evaluate_content\<close>; \<open>_verify_attestation\<close>;
    \<open>_build_verdict_object\<close> and \<open>_project_verdict_for_agreement\<close>; \<open>verify_evidence_bundle\<close> and
    \<open>_verify_export_body\<close>.
  \<^item> \<open>Evidence_Spec\<close>: the inductive specification \<open>bundle_valid\<close> of a good bundle, and that
    \<open>verify_evidence_bundle\<close> refines it.
  \<^item> \<open>Evidence_Facts\<close>: bounded recursion, the exceptions that escape (the inductive
    \<open>bundle_raises\<close>), the invariant \<open>result_wf\<close> of every result, and the exit codes.
  \<^item> \<open>Key_Order\<close>: the verdict on an envelope does not depend on the order of its keys, when the
    serializer sorts them (\<open>jcs_sorts_keys\<close>).
  \<^item> \<open>Vectors\<close> (\<open>tools/gen-vectors/gen_vectors.py\<close>): the second signer and the second tree, the
    tree vectors and the chained checkpoint windows, compared with the kernel.
  \<^item> \<open>Corpus_Vectors\<close> (the same file): \<open>events_vectors\<close> verify with the records they commit to,
    \<open>negative_vectors\<close> are rejected for the one reason each declares.
  \<^item> \<open>Corpus_Data\<close> (the same file): the literal inputs and the files of \<open>main\<close>; every file has its
    own name and conforms to the kernel.
  \<^item> \<open>Export_Vectors\<close> (\<open>tools/gen-vectors/export_vectors.py\<close>): the fourteen cases made from the
    golden export.  A mutation is an update of the JSON value at a path, followed by the
    re-signing the code does; the theorems give the exit code of each case.  Where the code only
    relies on cryptography, the conclusion is the declared code or an \<open>accident\<close>, an inductive
    predicate whose rules are the concrete coincidences on that very export (a signature valid for two
    texts, two hashed texts with one digest).
  \<^item> \<open>Export_Corpus\<close> (\<open>gen_export_vectors.py\<close>, \<open>cross-kernel/generate_export_cases.py\<close>): the
    expected blocks and the verdict records of these cases, which record the same findings.
  \<^item> \<open>Kernel_Cases\<close> (\<open>cross-kernel/generate_cases.py\<close>): the adversarial envelopes with their
    intended verdicts (or a \<open>case_accident\<close>), the corpus envelopes put together again, and the
    negatives judged from their bytes.
  \<^item> \<open>Witness_Env\<close>: a concrete environment on which the properties with hypotheses are applied.

  Correspondence.  A Python function is the definition of the same name without its
  underscore; a loop is a recursive function over the list it walks, named after what one pass
  does (\<open>check_checkpoint\<close> in \<open>check_checkpoints\<close>, \<open>inclusion_step\<close> in \<open>inclusion_loop\<close>); a dataclass
  is a record with the same fields behind a prefix.  A raise is \<open>Inl\<close> of its class, a handler a case
  on it.  A \<open>str\<close> is the list of its UTF-8 bytes, which equality, concatenation, prefix
  and substring tests and the ASCII tests of the kernel cannot tell from the text.  A dict
  is an association list in insertion order; \<open>json.loads\<close> yields each key once.  Notes attached
  to one checkpoint, event, attestation or envelope are constructors; notes of a whole bundle are
  texts, because \<open>exit_code\<close> searches them.  The fetch function of the on-chain check
  passes a state of an arbitrary type, so properties cover gateways that answer differently
  on each call.

  Parameters.  Code outside the repository is a field of \<open>kernel\<close>: \<open>jcs.canonicalize\<close>, PyNaCl,
  the RSA of \<open>cryptography\<close>, \<open>json.loads\<close>, \<open>hashlib.sha256\<close>, \<open>repr\<close> and \<open>str(exc)\<close>.  A
  property that relies on it names a contract: \<open>ed25519_contract\<close> (RFC 8032 sizes, and a signature
  verifies under its key), \<open>jcs_closed\<close> (a value that serializes has parts that serialize),
  \<open>digest32\<close> (a digest has 32 bytes), \<open>jcs_total\<close> (the generator's values serialize).  Collision
  resistance is never assumed: a soundness property states its conclusion
  or exhibits two distinct hashed strings with the same digest.

  Bounds.  The recursions end by measures: the stack walk by the total size of the stack, the
  tree functions by the number of leaves, \<open>verify_evidence_bundle\<close> by the size of the
  bundle.  \<open>verify_within n\<close> is the verifier with at most \<open>n\<close> nested activations; 64 are
  enough, because the wrapper is refused beyond 128 levels and each export body adds two.

  Not modelled: \<open>to_dict\<close> of the result classes, the re-exports of \<open>__init__.py\<close>, the reading and writing
  of files, \<open>json.dumps\<close> and the command lines of the generators (a file is the JSON value it
  holds), what \<open>json.loads\<close> makes of a lone surrogate, the TypeScript and Go kernels and the tests.
\<close>

end
